(* ===== verification/Go_Prelude.thy ===== *)
theory Go_Prelude
  imports Main "HOL-Library.Word" "HOL-Library.Char_ord" "HOL-Library.List_Lexorder"
    "HOL-Library.Sublist" "HOL-Library.Code_Target_Nat"
begin

text \<open>
  What the services share and what the Go language gives them: byte strings and their order,
  error values with wrapping, contexts, instants of time, the coercion of a string to valid
  UTF-8 that package \<open>encoding/json\<close> applies, the anchored regular expressions of the name
  checks, and the generic lemmas on sorted lists and prefixes that the store and its clients use.

  A Go string is a sequence of bytes and a HOL \<open>char\<close> is an 8-bit byte, so a Go string is a
  HOL string, and \<open>length\<close> is Go's \<open>len\<close>.  Strings are ordered byte by byte
  (\<open>bytes.Compare\<close>), which is the lexicographic order of the library.
\<close>

named_theorems go_simps \<open>evaluation of the small Go helper functions\<close>
named_theorems tx_simps \<open>unfolding of transactions and results\<close>

type_synonym bytes = string

section \<open>Errors\<close>

text \<open>
  Error texts are kept as the pieces \<open>fmt.Errorf\<close> puts together: literal text, an argument
  printed with \<open>%q\<close>, an argument printed with \<open>%d\<close>.  Nothing in the program looks inside
  such a text; it is only passed on to a response body.
\<close>

datatype piece = Lit string | Quoted string | Dec int

type_synonym message = "piece list"

datatype sentinel =
    ErrNotFound | ErrAlreadyExists | ErrBucketNotEmpty
  | ErrInvalidInput | ErrInvalidCredentials

text \<open>
  An error value is a sentinel, an opaque error with its text, or the result of one
  \<open>fmt.Errorf\<close> with a \<open>%w\<close>: the text before the wrapped error and the text after it.
\<close>

datatype go_error =
    Sentinel sentinel
  | Plain message
  | Wrap message go_error message

fun sentinel_text :: "sentinel \<Rightarrow> string" where
  "sentinel_text ErrNotFound = ''not found''"
| "sentinel_text ErrAlreadyExists = ''already exists''"
| "sentinel_text ErrBucketNotEmpty = ''bucket is not empty''"
| "sentinel_text ErrInvalidInput = ''invalid input''"
| "sentinel_text ErrInvalidCredentials = ''invalid credentials''"

text \<open>The method \<open>Error()\<close> and the function \<open>errors.Is\<close>.\<close>

fun error_text :: "go_error \<Rightarrow> message" where
  "error_text (Sentinel s) = [Lit (sentinel_text s)]"
| "error_text (Plain m) = m"
| "error_text (Wrap pre e post) = pre @ error_text e @ post"

fun errors_is :: "go_error \<Rightarrow> sentinel \<Rightarrow> bool" where
  "errors_is (Sentinel s) t = (s = t)"
| "errors_is (Plain m) t = False"
| "errors_is (Wrap pre e post) t = errors_is e t"

text \<open>An error matches at most one sentinel, since each wrapping holds one error.\<close>

lemma errors_is_unique: "errors_is e s \<Longrightarrow> errors_is e t \<Longrightarrow> s = t"
  by (induction e s rule: errors_is.induct) auto

section \<open>Contexts and time\<close>

text \<open>
  A \<open>context.Context\<close> is what successive polls \<open>ctx.Err()\<close> of one call return: poll number
  \<open>n\<close> gives \<open>None\<close> (nil) or the cancellation error.  An instant is the number of nanoseconds
  since the zero value of \<open>time.Time\<close>.
\<close>

type_synonym ctx = "nat \<Rightarrow> go_error option"

abbreviation background :: ctx where
  "background \<equiv> \<lambda>_. None"

type_synonym time = int

definition time_is_zero :: "time \<Rightarrow> bool" where
  "time_is_zero t \<longleftrightarrow> t = 0"

section \<open>Byte order and prefixes\<close>

lemma prefix_imp_le: "prefix p k \<Longrightarrow> p \<le> (k :: 'a::linorder list)"
proof (induction p arbitrary: k)
  case Nil
  then show ?case by simp
next
  case (Cons a p)
  then show ?case by (cases k) auto
qed

text \<open>The keys that start with \<open>p\<close> are contiguous in the order, beginning at \<open>p\<close>.\<close>

lemma prefix_between:
  "p \<le> k \<Longrightarrow> k \<le> k' \<Longrightarrow> prefix p k' \<Longrightarrow> prefix p (k :: 'a::linorder list)"
proof (induction p arbitrary: k k')
  case Nil
  then show ?case by simp
next
  case (Cons a p)
  from Cons.prems(3) obtain r where k': "k' = a # r" "prefix p r"
    by (cases k') auto
  from Cons.prems(1) obtain b s where k: "k = b # s"
    by (cases k) auto
  from Cons.prems(1,2) k k' have "a = b" "p \<le> s" "s \<le> r"
    by auto
  with Cons.IH[of s r] k k'(2) show ?case by simp
qed

text \<open>
  A cursor that starts at \<open>p\<close> and stops at the first key without the prefix visits exactly
  the keys with the prefix.
\<close>

lemma takeWhile_prefix_filter:
  fixes es :: "('a::linorder list \<times> 'v) list"
  assumes "sorted_wrt (<) (map fst es)" and "\<forall>e \<in> set es. p \<le> fst e"
  shows "takeWhile (\<lambda>e. prefix p (fst e)) es = filter (\<lambda>e. prefix p (fst e)) es"
  using assms
proof (induction es)
  case Nil
  then show ?case by simp
next
  case (Cons e es)
  show ?case
  proof (cases "prefix p (fst e)")
    case True
    with Cons show ?thesis by simp
  next
    case False
    have "\<not> prefix p (fst x)" if "x \<in> set es" for x
    proof
      assume "prefix p (fst x)"
      moreover from that Cons.prems have "fst e \<le> fst x" "p \<le> fst e"
        by (auto simp: less_imp_le)
      ultimately have "prefix p (fst e)" by (blast intro: prefix_between)
      with False show False ..
    qed
    with False show ?thesis by (simp add: filter_empty_conv)
  qed
qed

text \<open>Composite keys: a component without the separator can be read back.\<close>

lemma append_sep_inject:
  assumes "z \<notin> set a" and "z \<notin> set b"
  shows "a @ z # x = b @ z # y \<longleftrightarrow> a = b \<and> x = y"
  using assms
proof (induction a arbitrary: b)
  case Nil
  then show ?case by (cases b) auto
next
  case (Cons c a)
  then show ?case by (cases b) auto
qed

lemma prefix_sep_iff:
  assumes "z \<notin> set a" and "z \<notin> set b"
  shows "prefix (a @ z # x) (b @ z # y) \<longleftrightarrow> a = b \<and> prefix x y"
proof
  assume "prefix (a @ z # x) (b @ z # y)"
  then obtain r where "b @ z # y = a @ z # (x @ r)"
    by (auto simp: prefix_def)
  then have "b = a \<and> y = x @ r"
    using append_sep_inject[OF assms(2,1)] by simp
  then show "a = b \<and> prefix x y" by simp
next
  assume "a = b \<and> prefix x y"
  then show "prefix (a @ z # x) (b @ z # y)" by simp
qed

lemma append_less_same [simp]: "p @ x < p @ y \<longleftrightarrow> x < (y :: 'a::linorder list)"
  by (induction p) auto

lemma sorted_less_distinct: "sorted_wrt (<) xs \<Longrightarrow> distinct (xs :: 'a::linorder list)"
  by (induction xs) auto

section \<open>UTF-8\<close>

text \<open>
  \<open>utf8_len s\<close> is the length of the well-formed UTF-8 sequence at the head of \<open>s\<close>, or
  \<open>None\<close> where \<open>utf8.DecodeRuneInString\<close> returns \<open>RuneError\<close> with width 1: bare continuation
  bytes, overlong forms, surrogates, values above U+10FFFF and cut-off sequences.
\<close>

definition cont :: "char \<Rightarrow> bool" where
  "cont c \<longleftrightarrow> 128 \<le> (of_char c :: nat) \<and> (of_char c :: nat) \<le> 191"

definition byte_in :: "nat \<Rightarrow> nat \<Rightarrow> char \<Rightarrow> bool" where
  "byte_in lo hi c \<longleftrightarrow> lo \<le> of_char c \<and> of_char c \<le> hi"

fun utf8_len :: "bytes \<Rightarrow> nat option" where
  "utf8_len [] = None"
| "utf8_len (a # s) =
     (if byte_in 0 127 a then Some 1
      else if byte_in 194 223 a then
        (case s of b # _ \<Rightarrow> if cont b then Some 2 else None | _ \<Rightarrow> None)
      else if byte_in 224 239 a then
        (case s of b # c # _ \<Rightarrow>
           if cont b \<and> cont c
              \<and> (byte_in 224 224 a \<longrightarrow> byte_in 160 191 b) \<and> (byte_in 237 237 a \<longrightarrow> byte_in 128 159 b)
           then Some 3 else None
         | _ \<Rightarrow> None)
      else if byte_in 240 244 a then
        (case s of b # c # d # _ \<Rightarrow>
           if cont b \<and> cont c \<and> cont d
              \<and> (byte_in 240 240 a \<longrightarrow> byte_in 144 191 b) \<and> (byte_in 244 244 a \<longrightarrow> byte_in 128 143 b)
           then Some 4 else None
         | _ \<Rightarrow> None)
      else None)"

lemma utf8_len_bounds: "utf8_len s = Some n \<Longrightarrow> 0 < n \<and> n \<le> length s"
  by (cases s) (auto split: if_splits list.splits)

lemma utf8_len_drop_less: "utf8_len s = Some n \<Longrightarrow> length (drop n s) < length s"
  using utf8_len_bounds[of s n] by (cases s) auto

declare utf8_len.simps(2) [simp del]

text \<open>
  \<open>json.Marshal\<close> and the decoder coerce a string to valid UTF-8: each offending byte becomes
  U+FFFD, whose encoding is the three bytes EF BF BD.
\<close>

definition replacement :: bytes where
  "replacement = [CHR 0xEF, CHR 0xBF, CHR 0xBD]"

function utf8_fix :: "bytes \<Rightarrow> bytes" where
  "utf8_fix [] = []"
| "utf8_fix (a # s) =
     (case utf8_len (a # s) of
        None \<Rightarrow> replacement @ utf8_fix s
      | Some n \<Rightarrow> take n (a # s) @ utf8_fix (drop n (a # s)))"
  by pat_completeness auto
termination
  by (relation "measure length") (auto dest: utf8_len_drop_less simp del: length_drop)

function valid_utf8 :: "bytes \<Rightarrow> bool" where
  "valid_utf8 [] = True"
| "valid_utf8 (a # s) =
     (case utf8_len (a # s) of None \<Rightarrow> False | Some n \<Rightarrow> valid_utf8 (drop n (a # s)))"
  by pat_completeness auto
termination
  by (relation "measure length") (auto dest: utf8_len_drop_less simp del: length_drop)

declare utf8_fix.simps(2) [simp del] valid_utf8.simps(2) [simp del]

lemma utf8_fix_valid [simp]: "valid_utf8 s \<Longrightarrow> utf8_fix s = s"
proof (induction s rule: utf8_fix.induct)
  case 1
  then show ?case by simp
next
  case (2 a s)
  then obtain n where n: "utf8_len (a # s) = Some n" and v: "valid_utf8 (drop n (a # s))"
    by (auto simp: valid_utf8.simps(2) split: option.splits)
  from "2.IH"(2)[OF n v] n show ?case
    by (simp add: utf8_fix.simps(2))
qed

text \<open>A head sequence is read from its own bytes only, so it may be followed by anything.\<close>

lemma utf8_len_append: "utf8_len s = Some n \<Longrightarrow> utf8_len (take n s @ t) = Some n"
  by (cases s) (auto simp: utf8_len.simps(2) split: if_splits list.splits)

lemma valid_utf8_step:
  "utf8_len u = Some n \<Longrightarrow> valid_utf8 t \<Longrightarrow> length u = n \<Longrightarrow> valid_utf8 (u @ t)"
proof -
  assume a: "utf8_len u = Some n" "valid_utf8 t" "length u = n"
  then have "utf8_len (u @ t) = Some n"
    using utf8_len_append[of u n t] by simp
  with a show ?thesis
    by (cases u) (auto simp: valid_utf8.simps(2) split: option.splits)
qed

lemma valid_utf8_fix [simp]: "valid_utf8 (utf8_fix s)"
proof (induction s rule: utf8_fix.induct)
  case 1
  then show ?case by simp
next
  case (2 a s)
  show ?case
  proof (cases "utf8_len (a # s)")
    case None
    have "utf8_len replacement = Some 3"
      by (simp add: replacement_def utf8_len.simps(2) byte_in_def cont_def)
    from valid_utf8_step[OF this "2.IH"(1)[OF None]] have "valid_utf8 (replacement @ utf8_fix s)"
      by (simp add: replacement_def)
    with None show ?thesis by (simp add: utf8_fix.simps(2))
  next
    case (Some n)
    with utf8_len_append[of "a # s" n "[]"] have u: "utf8_len (take n (a # s)) = Some n" by simp
    from utf8_len_bounds[OF Some] have "length (take n (a # s)) = n" by simp
    with "2.IH"(2)[OF Some] u have "valid_utf8 (take n (a # s) @ utf8_fix (drop n (a # s)))"
      by (blast intro: valid_utf8_step)
    with Some show ?thesis by (simp add: utf8_fix.simps(2))
  qed
qed

lemma utf8_fix_idem [simp]: "utf8_fix (utf8_fix s) = utf8_fix s"
  by simp

lemma valid_utf8_ascii: "\<forall>c \<in> set s. byte_in 0 127 c \<Longrightarrow> valid_utf8 s"
  by (induction s) (auto simp: valid_utf8.simps(2) utf8_len.simps(2))

section \<open>Big-endian numbers\<close>

fun be_bytes :: "nat \<Rightarrow> nat \<Rightarrow> bytes" where
  "be_bytes 0 n = []"
| "be_bytes (Suc k) n = be_bytes k (n div 256) @ [char_of (n mod 256)]"

definition be_value :: "bytes \<Rightarrow> nat" where
  "be_value bs = foldl (\<lambda>a c. a * 256 + of_char c) 0 bs"

lemma length_be_bytes [simp]: "length (be_bytes k n) = k"
  by (induction k arbitrary: n) auto

lemma be_value_bytes: "be_value (be_bytes k n) = n mod 256 ^ k"
proof (induction k arbitrary: n)
  case 0
  then show ?case by (simp add: be_value_def)
next
  case (Suc k)
  have "be_value (be_bytes (Suc k) n) = be_value (be_bytes k (n div 256)) * 256 + n mod 256"
    by (simp add: be_value_def)
  also have "\<dots> = (n div 256 mod 256 ^ k) * 256 + n mod 256"
    by (simp add: Suc.IH)
  also have "\<dots> = n mod 256 ^ Suc k"
    by (simp add: mod_mult2_eq mult.commute)
  finally show ?case .
qed

lemma be_value_snoc: "be_value (bs @ [c]) = be_value bs * 256 + of_char c"
  by (simp add: be_value_def)

lemma be_value_less: "be_value bs < 256 ^ length bs"
proof (induction bs rule: rev_induct)
  case Nil
  then show ?case by (simp add: be_value_def)
next
  case (snoc c bs)
  have c: "(of_char c :: nat) < 256" by simp
  have "be_value (bs @ [c]) < (be_value bs + 1) * 256"
    using c by (simp add: be_value_snoc)
  also have "\<dots> \<le> 256 ^ length bs * 256"
    using snoc by (intro mult_le_mono1) simp
  finally show ?case by simp
qed

lemma be_bytes_value: "be_bytes (length bs) (be_value bs) = bs"
proof (induction bs rule: rev_induct)
  case Nil
  then show ?case by simp
next
  case (snoc c bs)
  have "(of_char c :: nat) < 256" by simp
  with snoc show ?case by (simp add: be_value_snoc)
qed

section \<open>Anchored regular expressions\<close>

text \<open>
  The name checks use package \<open>regexp\<close> on patterns of the form \<open>^A{m,n}...$\<close>, a sequence of
  character classes with repetition counts.  The matcher tries to consume one more character
  of the class or to go on with the next item.
\<close>

datatype re_item = Rep "char \<Rightarrow> bool" nat nat

fun re_match :: "re_item list \<Rightarrow> string \<Rightarrow> bool" where
  "re_match [] s = (s = [])"
| "re_match (Rep P lo hi # rs) [] = (lo = 0 \<and> re_match rs [])"
| "re_match (Rep P lo hi # rs) (c # s) =
     (0 < hi \<and> P c \<and> re_match (Rep P (lo - 1) (hi - 1) # rs) s
      \<or> lo = 0 \<and> re_match rs (c # s))"

text \<open>A word matches one item and a rest when a long enough run of the class can be split off.\<close>

lemma re_match_Rep:
  "re_match (Rep P lo hi # rs) s \<longleftrightarrow>
     (\<exists>n \<le> length s. lo \<le> n \<and> n \<le> hi \<and> list_all P (take n s) \<and> re_match rs (drop n s))"
  if "lo \<le> hi"
  using that
proof (induction s arbitrary: lo hi)
  case Nil
  then show ?case by auto
next
  case (Cons c s)
  show ?case
  proof (cases "hi = 0")
    case True
    with Cons.prems show ?thesis by auto
  next
    case False
    with Cons.prems have IH: "re_match (Rep P (lo - 1) (hi - 1) # rs) s \<longleftrightarrow>
      (\<exists>n \<le> length s. lo - 1 \<le> n \<and> n \<le> hi - 1 \<and> list_all P (take n s) \<and> re_match rs (drop n s))"
      by (intro Cons.IH) simp
    have "(\<exists>n \<le> length (c # s). lo \<le> n \<and> n \<le> hi \<and> list_all P (take n (c # s)) \<and> re_match rs (drop n (c # s)))
      \<longleftrightarrow> lo = 0 \<and> re_match rs (c # s) \<or>
          (\<exists>n \<le> length s. lo \<le> Suc n \<and> Suc n \<le> hi \<and> P c \<and> list_all P (take n s) \<and> re_match rs (drop n s))"
      (is "?L \<longleftrightarrow> ?R")
    proof
      assume ?L
      then obtain n where "n \<le> length (c # s)" "lo \<le> n" "n \<le> hi"
        "list_all P (take n (c # s))" "re_match rs (drop n (c # s))" by blast
      then show ?R by (cases n) auto
    next
      assume ?R
      then consider "lo = 0" "re_match rs (c # s)"
        | n where "n \<le> length s" "lo \<le> Suc n" "Suc n \<le> hi" "P c" "list_all P (take n s)"
            "re_match rs (drop n s)" by blast
      then show ?L
      proof cases
        case 1
        then show ?thesis by (intro exI[of _ 0]) simp
      next
        case (2 n)
        then show ?thesis by (intro exI[of _ "Suc n"]) simp
      qed
    qed
    with IH False show ?thesis by (auto simp: le_diff_conv)
  qed
qed

lemma re_match_split:
  "lo \<le> hi \<Longrightarrow> re_match (Rep P lo hi # rs) s \<longleftrightarrow>
     (\<exists>u v. s = u @ v \<and> lo \<le> length u \<and> length u \<le> hi \<and> list_all P u \<and> re_match rs v)"
  (is "_ \<Longrightarrow> _ \<longleftrightarrow> ?R")
proof -
  assume le: "lo \<le> hi"
  show ?thesis
  proof
    assume "re_match (Rep P lo hi # rs) s"
    then obtain n where "n \<le> length s" "lo \<le> n" "n \<le> hi" "list_all P (take n s)" "re_match rs (drop n s)"
      using re_match_Rep[OF le] by blast
    then show ?R by (intro exI[of _ "take n s"] exI[of _ "drop n s"]) simp
  next
    assume ?R
    then obtain u v where "s = u @ v" "lo \<le> length u" "length u \<le> hi" "list_all P u" "re_match rs v"
      by blast
    then show "re_match (Rep P lo hi # rs) s"
      using re_match_Rep[OF le] by (intro iffD2[OF re_match_Rep[OF le]] exI[of _ "length u"]) simp
  qed
qed

lemma re_match_none [simp]: "re_match (Rep P 0 0 # rs) s = re_match rs s"
  by (cases s) auto

lemma re_match_one:
  "re_match (Rep P 1 1 # rs) s \<longleftrightarrow> (\<exists>c v. s = c # v \<and> P c \<and> re_match rs v)"
  by (cases s) auto

end
