(* ===== verification/Go_Json.thy ===== *)
theory Go_Json
  imports Go_Prelude
begin

text \<open>
  Package \<open>encoding/json\<close> as the services use it: a JSON document as a tree, and decoding into
  a Go struct driven by the list of its fields (the struct tags).  The text level of JSON
  (quoting, white space) is below this model: a document is what the parser reads, and input
  that is no JSON document is \<open>None\<close>.

  Two kinds of strings that the program only writes and passes on keep their meaning instead of
  their spelling: \<open>JTime t\<close> is the RFC 3339 text of the instant \<open>t\<close>, and \<open>JMsg m\<close> is the text
  of an error.  No struct of the program reads one of them into an ordinary string field.
  \<open>JInt\<close> is an integer literal, \<open>JNum\<close> any other number literal.
\<close>

datatype json =
    JNull
  | JBool bool
  | JInt int
  | JNum string
  | JStr string
  | JTime time
  | JMsg message
  | JArr "json list"
  | JObj "(string \<times> json) list"

text \<open>A Go string is written as valid UTF-8.\<close>

definition jstr :: "string \<Rightarrow> json" where
  "jstr s = JStr (utf8_fix s)"

section \<open>Fields\<close>

text \<open>
  A field is its name in the struct tag and what storing a JSON value into it does to the
  struct; \<open>None\<close> is an \<open>UnmarshalTypeError\<close>.  \<open>null\<close> leaves a string, number, bool or time
  field as it is, and sets a pointer field to nil.
\<close>

type_synonym 's field = "string \<times> (json \<Rightarrow> 's \<Rightarrow> 's option)"

fun string_field :: "(string \<Rightarrow> 's \<Rightarrow> 's) \<Rightarrow> json \<Rightarrow> 's \<Rightarrow> 's option" where
  "string_field upd (JStr x) s = Some (upd x s)"
| "string_field upd JNull s = Some s"
| "string_field upd _ s = None"

fun message_field :: "(message \<Rightarrow> 's \<Rightarrow> 's) \<Rightarrow> json \<Rightarrow> 's \<Rightarrow> 's option" where
  "message_field upd (JMsg m) s = Some (upd m s)"
| "message_field upd (JStr x) s = Some (upd [Lit x] s)"
| "message_field upd JNull s = Some s"
| "message_field upd _ s = None"

fun bool_field :: "(bool \<Rightarrow> 's \<Rightarrow> 's) \<Rightarrow> json \<Rightarrow> 's \<Rightarrow> 's option" where
  "bool_field upd (JBool b) s = Some (upd b s)"
| "bool_field upd JNull s = Some s"
| "bool_field upd _ s = None"

text \<open>An \<open>int64\<close> field takes an integer literal in range, nothing else.\<close>

definition int64_ok :: "int \<Rightarrow> bool" where
  "int64_ok n \<longleftrightarrow> - (2 ^ 63) \<le> n \<and> n < 2 ^ 63"

fun int64_field :: "(64 word \<Rightarrow> 's \<Rightarrow> 's) \<Rightarrow> json \<Rightarrow> 's \<Rightarrow> 's option" where
  "int64_field upd (JInt n) s = (if int64_ok n then Some (upd (word_of_int n) s) else None)"
| "int64_field upd JNull s = Some s"
| "int64_field upd _ s = None"

fun time_field :: "(time \<Rightarrow> 's \<Rightarrow> 's) \<Rightarrow> json \<Rightarrow> 's \<Rightarrow> 's option" where
  "time_field upd (JTime t) s = Some (upd t s)"
| "time_field upd JNull s = Some s"
| "time_field upd _ s = None"

fun time_ptr_field :: "(time option \<Rightarrow> 's \<Rightarrow> 's) \<Rightarrow> json \<Rightarrow> 's \<Rightarrow> 's option" where
  "time_ptr_field upd (JTime t) s = Some (upd (Some t) s)"
| "time_ptr_field upd JNull s = Some (upd None s)"
| "time_ptr_field upd _ s = None"

section \<open>Decoding a struct\<close>

text \<open>
  A member name selects the field of that very name, else the first field whose name is equal
  under case folding.  Besides the ASCII letters, the Kelvin sign folds to \<open>k\<close> and the long s
  to \<open>s\<close>; no other character folds to an ASCII letter.
\<close>

definition to_lower :: "char \<Rightarrow> char" where
  "to_lower c = (if byte_in 65 90 c then char_of (of_char c + 32 :: nat) else c)"

fun fold_name :: "bytes \<Rightarrow> bytes" where
  "fold_name [] = []"
| "fold_name (c # s) =
     (case s of
        d # e # s' \<Rightarrow>
          (if c = CHR 0xE2 \<and> d = CHR 0x84 \<and> e = CHR 0xAA then CHR ''k'' # fold_name s'
           else if c = CHR 0xC5 \<and> d = CHR 0xBF then CHR ''s'' # fold_name (e # s')
           else to_lower c # fold_name s)
      | [d] \<Rightarrow> (if c = CHR 0xC5 \<and> d = CHR 0xBF then ''s'' else to_lower c # fold_name s)
      | [] \<Rightarrow> [to_lower c])"

definition find_field :: "'s field list \<Rightarrow> string \<Rightarrow> (json \<Rightarrow> 's \<Rightarrow> 's option) option" where
  "find_field fs k =
     (case map_of fs k of
        Some f \<Rightarrow> Some f
      | None \<Rightarrow> map_option snd (find (\<lambda>f. fold_name (fst f) = fold_name k) fs))"

definition type_error :: go_error where
  "type_error = Plain [Lit ''json: cannot unmarshal value into Go struct field'']"

definition unknown_field :: "string \<Rightarrow> go_error" where
  "unknown_field k = Plain [Lit ''json: unknown field '', Quoted k]"

definition syntax_error :: go_error where
  "syntax_error = Plain [Lit ''invalid JSON'']"

text \<open>
  The members are stored in their order, so a repeated member overwrites the one before.  An
  error of one member is remembered (the first one is reported) and decoding goes on.  With
  \<open>strict\<close> (\<open>DisallowUnknownFields\<close>) an unknown member is such an error.
\<close>

fun decode_members ::
    "'s field list \<Rightarrow> bool \<Rightarrow> (string \<times> json) list \<Rightarrow> 's \<Rightarrow> go_error option \<Rightarrow> 's \<times> go_error option"
  where
  "decode_members fs strict [] s err = (s, err)"
| "decode_members fs strict ((k, v) # ms) s err =
     (case find_field fs k of
        None \<Rightarrow> decode_members fs strict ms s
                  (if strict \<and> err = None then Some (unknown_field k) else err)
      | Some store \<Rightarrow>
          (case store v s of
             None \<Rightarrow> decode_members fs strict ms s (if err = None then Some type_error else err)
           | Some s' \<Rightarrow> decode_members fs strict ms s' err))"

fun decode_struct :: "'s field list \<Rightarrow> bool \<Rightarrow> json \<Rightarrow> 's \<Rightarrow> 's \<times> go_error option" where
  "decode_struct fs strict (JObj ms) s = decode_members fs strict ms s None"
| "decode_struct fs strict JNull s = (s, None)"
| "decode_struct fs strict _ s = (s, Some type_error)"

text \<open>\<open>json.NewDecoder(body).Decode(&dst)\<close>, and the same into a slice of structs.\<close>

definition decode_body :: "'s field list \<Rightarrow> bool \<Rightarrow> 's \<Rightarrow> json option \<Rightarrow> go_error + 's" where
  "decode_body fs strict zero body =
     (case body of
        None \<Rightarrow> Inl syntax_error
      | Some j \<Rightarrow>
          (case decode_struct fs strict j zero of
             (s, None) \<Rightarrow> Inr s
           | (_, Some e) \<Rightarrow> Inl e))"

fun decode_elems :: "'s field list \<Rightarrow> 's \<Rightarrow> json list \<Rightarrow> go_error + 's list" where
  "decode_elems fs zero [] = Inr []"
| "decode_elems fs zero (j # js) =
     (case decode_struct fs False j zero of
        (s, e) \<Rightarrow>
          (case (e, decode_elems fs zero js) of
             (Some e, _) \<Rightarrow> Inl e
           | (None, Inl e) \<Rightarrow> Inl e
           | (None, Inr ss) \<Rightarrow> Inr (s # ss)))"

definition decode_list_body :: "'s field list \<Rightarrow> 's \<Rightarrow> json option \<Rightarrow> go_error + 's list" where
  "decode_list_body fs zero body =
     (case body of
        None \<Rightarrow> Inl syntax_error
      | Some (JArr js) \<Rightarrow> decode_elems fs zero js
      | Some JNull \<Rightarrow> Inr []
      | Some _ \<Rightarrow> Inl type_error)"

text \<open>The strings of a parsed document are valid UTF-8 (the parser replaces what is not).\<close>

fun json_utf8 :: "json \<Rightarrow> bool" where
  "json_utf8 (JStr s) = valid_utf8 s"
| "json_utf8 (JArr js) = (\<forall>j \<in> set js. json_utf8 j)"
| "json_utf8 (JObj ms) = (\<forall>m \<in> set ms. valid_utf8 (fst m) \<and> json_utf8 (snd m))"
| "json_utf8 _ = True"

section \<open>Lemmas\<close>

text \<open>What every setter keeps, decoding keeps.\<close>

lemma find_field_mem: "find_field fs k = Some f \<Longrightarrow> \<exists>n. (n, f) \<in> set fs"
  by (auto simp: find_field_def find_Some_iff split: option.splits dest: map_of_SomeD)
     (metis nth_mem prod.collapse)

lemma decode_members_inv:
  assumes "\<And>n f v s s'. (n, f) \<in> set fs \<Longrightarrow> json_utf8 v \<Longrightarrow> P s \<Longrightarrow> f v s = Some s' \<Longrightarrow> P s'"
  shows "\<forall>m \<in> set ms. json_utf8 (snd m) \<Longrightarrow> P s \<Longrightarrow> P (fst (decode_members fs strict ms s e))"
proof (induction ms arbitrary: s e)
  case Nil
  then show ?case by simp
next
  case (Cons m ms)
  obtain k v where m: "m = (k, v)" by (cases m)
  show ?case
  proof (cases "find_field fs k")
    case None
    with Cons m show ?thesis by simp
  next
    case (Some f)
    then obtain n where n: "(n, f) \<in> set fs" by (blast dest: find_field_mem)
    show ?thesis
    proof (cases "f v s")
      case None
      with Some Cons m show ?thesis by simp
    next
      case (Some s')
      from assms[OF n _ Cons.prems(2) Some] Cons.prems(1) m have "P s'" by simp
      with \<open>find_field fs k = Some f\<close> Some Cons m show ?thesis by simp
    qed
  qed
qed

lemma decode_body_Some: "decode_body fs strict zero (Some j) = Inr s
    \<longleftrightarrow> decode_struct fs strict j zero = (s, None)"
  by (auto simp: decode_body_def split: prod.splits option.splits)

lemma decode_body_inv:
  assumes "decode_body fs strict zero (Some j) = Inr s" and "json_utf8 j" and "P zero"
    and "\<And>n f v s s'. (n, f) \<in> set fs \<Longrightarrow> json_utf8 v \<Longrightarrow> P s \<Longrightarrow> f v s = Some s' \<Longrightarrow> P s'"
  shows "P s"
proof (cases j)
  case (JObj ms)
  with assms(2) have "\<forall>m \<in> set ms. json_utf8 (snd m)" by simp
  from decode_members_inv[where P = P, OF assms(4) this assms(3)]
  have "P (fst (decode_members fs strict ms zero None))" .
  with assms(1) JObj show ?thesis by (simp add: decode_body_Some)
qed (use assms(1,3) in \<open>auto simp: decode_body_Some\<close>)

lemma string_field_Some:
  "string_field upd v s = Some s' \<Longrightarrow> json_utf8 v \<Longrightarrow> s' = s \<or> (\<exists>x. valid_utf8 x \<and> s' = upd x s)"
  by (cases v) auto

lemma int64_field_Some:
  "int64_field upd v s = Some s' \<Longrightarrow> s' = s \<or> (\<exists>w. s' = upd w s)"
  by (cases v) (auto split: if_splits)

lemma int64_ok_sint [simp]: "int64_ok (sint (w :: 64 word))"
  using sint_greater_eq[of w] sint_less[of w] by (simp add: int64_ok_def)

lemma decode_elems_map:
  assumes "\<And>x. x \<in> set xs \<Longrightarrow> decode_struct fs False (enc x) zero = (dec x, None)"
  shows "decode_elems fs zero (map enc xs) = Inr (map dec xs)"
  using assms by (induction xs) auto

text \<open>
  The facts that evaluate the decoding of a concrete document: the lookup of each literal member
  name among the literal field names, and the setters.
\<close>

lemmas json_decode_simps =
  decode_body_def decode_members.simps decode_struct.simps find_field_def jstr_def

end
