(* ===== verification/Bolt_Store.thy ===== *)
theory Bolt_Store
  imports Go_Json "HOL-Library.AList"
begin

text \<open>
  The embedded key-value store bbolt (\<open>go.etcd.io/bbolt\<close>) that metadata-service and auth-service
  keep their state in.  bbolt is third-party code, so it is a parameter: the record \<open>bolt\<close> holds
  the operations the repositories call, over an abstract database \<open>'d\<close> seen inside one
  transaction, and the locale \<open>bolt_store\<close> states the documented laws they rely on:
  a bolt bucket maps keys to values, \<open>Put\<close> rejects a blank or oversized key or value, a cursor
  visits the keys of a bucket in byte order from the key it seeks.  A transaction is committed
  when its function returns nil and rolled back otherwise; the commit itself may fail.

  \<open>mem_bolt\<close> is an in-memory store with these laws, the concrete store of the witnesses.
\<close>

section \<open>Stored values\<close>

text \<open>
  A value is the JSON text of a document that \<open>json.Marshal\<close> wrote, or plain bytes (index
  entries, the schema version, or bytes that are no JSON document).
\<close>

datatype stored = Text json | Bytes bytes

definition unmarshal :: "'s field list \<Rightarrow> 's \<Rightarrow> stored \<Rightarrow> go_error + 's" where
  "unmarshal fs zero v =
     (case v of
        Text j \<Rightarrow> decode_body fs False zero (Some j)
      | Bytes _ \<Rightarrow> Inl syntax_error)"

section \<open>The operations of the store\<close>

record 'd bolt =
  bucket_exists :: "'d \<Rightarrow> string \<Rightarrow> bool"
  create_bucket :: "string \<Rightarrow> 'd \<Rightarrow> go_error + 'd"
  bget :: "'d \<Rightarrow> string \<Rightarrow> bytes \<Rightarrow> stored option"
  bput :: "string \<Rightarrow> bytes \<Rightarrow> stored \<Rightarrow> 'd \<Rightarrow> go_error + 'd"
  bdel :: "string \<Rightarrow> bytes \<Rightarrow> 'd \<Rightarrow> go_error + 'd"
  cursor :: "'d \<Rightarrow> string \<Rightarrow> bytes \<Rightarrow> (bytes \<times> stored) list"
  commit_error :: "'d \<Rightarrow> go_error option"
  fits :: "stored \<Rightarrow> bool"

text \<open>
  \<open>cursor B d b k\<close> is the sequence of entries that \<open>Seek(k)\<close> and then \<open>Next()\<close> return until
  the cursor is exhausted, \<open>fits\<close> says that a value is within bbolt's size limit, and
  \<open>commit_error\<close> is the error of writing the transaction to disk, if any.
\<close>

definition max_key_size :: nat where
  "max_key_size = 32768"

definition key_ok :: "bytes \<Rightarrow> bool" where
  "key_ok k \<longleftrightarrow> k \<noteq> [] \<and> length k \<le> max_key_size"

definition db_update :: "'d bolt \<Rightarrow> ('d \<Rightarrow> go_error + 'a \<times> 'd) \<Rightarrow> 'd \<Rightarrow> (go_error + 'a) \<times> 'd" where
  "db_update B f d =
     (case f d of
        Inl e \<Rightarrow> (Inl e, d)
      | Inr (x, d') \<Rightarrow>
          (case commit_error B d' of
             Some e \<Rightarrow> (Inl e, d)
           | None \<Rightarrow> (Inr x, d')))"

text \<open>A failed update leaves the database as it was.\<close>

lemma db_update_error: "db_update B f d = (Inl e, d') \<Longrightarrow> d' = d"
  by (auto simp: db_update_def split: sum.splits option.splits)

lemma db_update_ok:
  "db_update B f d = (Inr x, d') \<longleftrightarrow> f d = Inr (x, d') \<and> commit_error B d' = None"
  by (auto simp: db_update_def split: sum.splits option.splits)

lemma db_update_result:
  "fst (db_update B f d) = Inr x \<Longrightarrow> f d = Inr (x, snd (db_update B f d))"
  by (auto simp: db_update_def split: sum.splits option.splits)

text \<open>
  The entries that a loop over the cursor from \<open>p\<close> with the loop condition
  \<open>bytes.HasPrefix(k, p)\<close> visits.
\<close>

definition scan :: "'d bolt \<Rightarrow> 'd \<Rightarrow> string \<Rightarrow> bytes \<Rightarrow> (bytes \<times> stored) list" where
  "scan B d b p = takeWhile (\<lambda>e. prefix p (fst e)) (cursor B d b p)"

section \<open>The laws of the store\<close>

locale bolt_store =
  fixes B :: "'d bolt"
  assumes put_ok:
      "bucket_exists B d b \<Longrightarrow> key_ok k \<Longrightarrow> fits B v \<Longrightarrow> \<exists>d'. bput B b k v d = Inr d'"
    and put_bad: "\<not> key_ok k \<or> \<not> fits B v \<Longrightarrow> \<exists>e. bput B b k v d = Inl (Plain e)"
    and put_error: "bput B b k v d = Inl e \<Longrightarrow> \<exists>m. e = Plain m"
    and put_get: "bput B b k v d = Inr d' \<Longrightarrow>
      bget B d' b' k' = (if b' = b \<and> k' = k then Some v else bget B d b' k')"
    and put_exists: "bput B b k v d = Inr d' \<Longrightarrow> bucket_exists B d' b' = bucket_exists B d b'"
    and del_ok: "bucket_exists B d b \<Longrightarrow> \<exists>d'. bdel B b k d = Inr d'"
    and del_error: "bdel B b k d = Inl e \<Longrightarrow> \<exists>m. e = Plain m"
    and del_get: "bdel B b k d = Inr d' \<Longrightarrow>
      bget B d' b' k' = (if b' = b \<and> k' = k then None else bget B d b' k')"
    and del_exists: "bdel B b k d = Inr d' \<Longrightarrow> bucket_exists B d' b' = bucket_exists B d b'"
    and create_ok: "b \<noteq> [] \<Longrightarrow> \<exists>d'. create_bucket B b d = Inr d'"
    and create_exists: "create_bucket B b d = Inr d' \<Longrightarrow>
      bucket_exists B d' b' \<longleftrightarrow> b' = b \<or> bucket_exists B d b'"
    and create_get: "create_bucket B b d = Inr d' \<Longrightarrow> bget B d' b' k = bget B d b' k"
    and cursor_sorted: "sorted_wrt (<) (map fst (cursor B d b k))"
    and cursor_set: "set (cursor B d b k) = {(k', v). k \<le> k' \<and> bget B d b k' = Some v}"
    and commit_error_plain: "commit_error B d = Some e \<Longrightarrow> \<exists>m. e = Plain m"
begin

lemma scan_filter: "scan B d b p = filter (\<lambda>e. prefix p (fst e)) (cursor B d b p)"
  unfolding scan_def
  by (rule takeWhile_prefix_filter) (auto simp: cursor_sorted cursor_set)

lemma set_scan: "set (scan B d b p) = {(k, v). prefix p k \<and> bget B d b k = Some v}"
  by (auto simp: scan_filter cursor_set prefix_imp_le)

lemma sorted_scan: "sorted_wrt (<) (map fst (scan B d b p))"
proof -
  have "sorted_wrt (\<lambda>x y. fst x < fst y) (cursor B d b p)"
    using cursor_sorted by (simp add: sorted_wrt_map)
  then show ?thesis
    by (simp add: scan_filter sorted_wrt_map sorted_wrt_filter)
qed

lemma distinct_scan: "distinct (scan B d b p)"
  using sorted_scan[of d b p] by (auto dest: sorted_less_distinct simp: distinct_map)

text \<open>A scan is determined by the values of the keys with its prefix.\<close>

lemma scan_by_keys: "scan B d b p = map (\<lambda>k. (k, the (bget B d b k))) (map fst (scan B d b p))"
proof -
  have "(fst e, the (bget B d b (fst e))) = e" if "e \<in> set (scan B d b p)" for e
    using that by (auto simp: set_scan)
  then show ?thesis by (simp add: map_idI)
qed

lemma scan_cong:
  assumes "\<And>k. prefix p k \<Longrightarrow> bget B d b k = bget B d' b k"
  shows "scan B d b p = scan B d' b p"
proof -
  have s: "set (scan B d b p) = set (scan B d' b p)"
    using assms by (auto simp: set_scan)
  have keys: "map fst (scan B d b p) = map fst (scan B d' b p)"
    by (rule strict_sorted_equal) (simp_all add: sorted_scan s)
  have "map (\<lambda>k. (k, the (bget B d b k))) (map fst (scan B d' b p))
      = map (\<lambda>k. (k, the (bget B d' b k))) (map fst (scan B d' b p))"
    using assms by (auto simp: set_scan)
  with keys have "map (\<lambda>k. (k, the (bget B d b k))) (map fst (scan B d b p))
      = map (\<lambda>k. (k, the (bget B d' b k))) (map fst (scan B d' b p))"
    by (simp only:)
  then show ?thesis
    by (simp only: scan_by_keys[symmetric])
qed

lemma scan_Nil_iff: "scan B d b p = [] \<longleftrightarrow> (\<forall>k. prefix p k \<longrightarrow> bget B d b k = None)"
proof -
  have "scan B d b p = [] \<longleftrightarrow> set (scan B d b p) = {}" by simp
  also have "\<dots> \<longleftrightarrow> (\<forall>k. prefix p k \<longrightarrow> bget B d b k = None)"
    unfolding set_scan by auto
  finally show ?thesis .
qed

end

text \<open>A store whose disk does not fail.\<close>

locale bolt_healthy = bolt_store +
  assumes commit_ok: "commit_error B d = None"
begin

lemma db_update_healthy:
  "db_update B f d = (case f d of Inl e \<Rightarrow> (Inl e, d) | Inr (x, d') \<Rightarrow> (Inr x, d'))"
  by (simp add: db_update_def commit_ok split: sum.split)

end

section \<open>An in-memory store\<close>

type_synonym mem_db = "(string \<times> (bytes \<times> stored) list) list"

definition mem_get :: "mem_db \<Rightarrow> string \<Rightarrow> bytes \<Rightarrow> stored option" where
  "mem_get d b k = (case map_of d b of None \<Rightarrow> None | Some es \<Rightarrow> map_of es k)"

definition mem_put :: "string \<Rightarrow> bytes \<Rightarrow> stored \<Rightarrow> mem_db \<Rightarrow> go_error + mem_db" where
  "mem_put b k v d =
     (if \<not> key_ok k then Inl (Plain [Lit ''key required or too large''])
      else case map_of d b of
        None \<Rightarrow> Inl (Plain [Lit ''bucket not found''])
      | Some es \<Rightarrow> Inr (AList.update b (AList.update k v es) d))"

definition mem_del :: "string \<Rightarrow> bytes \<Rightarrow> mem_db \<Rightarrow> go_error + mem_db" where
  "mem_del b k d =
     (case map_of d b of
        None \<Rightarrow> Inl (Plain [Lit ''bucket not found''])
      | Some es \<Rightarrow> Inr (AList.update b (AList.delete k es) d))"

definition mem_create :: "string \<Rightarrow> mem_db \<Rightarrow> go_error + mem_db" where
  "mem_create b d =
     (if b = [] then Inl (Plain [Lit ''bucket name required''])
      else Inr (if map_of d b = None then (b, []) # d else d))"

definition mem_cursor :: "mem_db \<Rightarrow> string \<Rightarrow> bytes \<Rightarrow> (bytes \<times> stored) list" where
  "mem_cursor d b k =
     (case map_of d b of
        None \<Rightarrow> []
      | Some es \<Rightarrow> sort_key fst (filter (\<lambda>e. k \<le> fst e) (AList.clearjunk es)))"

definition mem_bolt :: "mem_db bolt" where
  "mem_bolt = \<lparr>bucket_exists = (\<lambda>d b. map_of d b \<noteq> None), create_bucket = mem_create,
     bget = mem_get, bput = mem_put, bdel = mem_del, cursor = mem_cursor,
     commit_error = (\<lambda>_. None), fits = (\<lambda>_. True)\<rparr>"

lemma mem_bolt_sel [simp]:
  "bucket_exists mem_bolt d b = (map_of d b \<noteq> None)" "create_bucket mem_bolt = mem_create"
  "bget mem_bolt = mem_get" "bput mem_bolt = mem_put" "bdel mem_bolt = mem_del"
  "cursor mem_bolt = mem_cursor" "commit_error mem_bolt d = None" "fits mem_bolt v"
  by (simp_all add: mem_bolt_def)

lemmas mem_simps = mem_get_def mem_put_def mem_del_def mem_create_def mem_cursor_def
  key_ok_def max_key_size_def

lemma sorted_wrt_sort_key:
  "distinct (map fst es) \<Longrightarrow> sorted_wrt (<) (map fst (sort_key fst es))"
  by (simp add: strict_sorted_iff distinct_map)

lemma distinct_filter_clearjunk: "distinct (map fst (filter P (AList.clearjunk es)))"
  by (simp add: distinct_map_filter distinct_clearjunk)

lemma map_of_clearjunk_mem: "(k, v) \<in> set (AList.clearjunk es) \<longleftrightarrow> map_of es k = Some v"
  using map_of_eq_Some_iff[OF distinct_clearjunk[of es], of k v] by (simp add: map_of_clearjunk)

interpretation mem: bolt_healthy mem_bolt
proof (unfold_locales, goal_cases)
  case (1 d b k v)
  then show ?case by (auto simp: mem_put_def)
next
  case (2 k v b d)
  then show ?case by (auto simp: mem_put_def)
next
  case (3 b k v d e)
  then show ?case by (auto simp: mem_put_def split: if_splits option.splits)
next
  case (4 b k v d d' b' k')
  then show ?case
    by (auto simp: mem_put_def mem_get_def update_conv' split: if_splits option.splits)
next
  case (5 b k v d d' b')
  then show ?case by (auto simp: mem_put_def update_conv' split: if_splits option.splits)
next
  case (6 d b k)
  then show ?case by (auto simp: mem_del_def)
next
  case (7 b k d e)
  then show ?case by (auto simp: mem_del_def split: option.splits)
next
  case (8 b k d d' b' k')
  then show ?case
    by (auto simp: mem_del_def mem_get_def update_conv' delete_conv' split: option.splits if_splits)
next
  case (9 b k d d' b')
  then show ?case by (auto simp: mem_del_def update_conv' split: option.splits if_splits)
next
  case (10 b d)
  then show ?case by (simp add: mem_create_def)
next
  case (11 b d d' b')
  then show ?case by (auto simp: mem_create_def split: if_splits)
next
  case (12 b d d' b' k)
  then show ?case by (auto simp: mem_create_def mem_get_def split: if_splits)
next
  case (13 d b k)
  then show ?case
    by (simp add: mem_cursor_def sorted_wrt_sort_key distinct_filter_clearjunk split: option.split)
next
  case (14 d b k)
  then show ?case
    by (cases "map_of d b") (auto simp: mem_cursor_def mem_get_def map_of_clearjunk_mem)
qed simp_all

end
