(* ===== verification/Db_Schema.thy ===== *)
theory Db_Schema
  imports Bolt_Store
begin

text \<open>
  Opening the database: \<open>internal/store\<close> of metadata-service and of auth-service, which are the
  same code over different lists of bolt buckets.  Opening creates the missing bolt buckets and
  checks (or stamps) the schema version in one transaction.  The version is eight bytes,
  big-endian (\<open>encoding/binary\<close>).
\<close>

definition encodeVersion :: "64 word \<Rightarrow> bytes" where
  "encodeVersion v = be_bytes 8 (unat v)"

definition decodeVersion :: "bytes \<Rightarrow> 64 word" where
  "decodeVersion b = word_of_nat (be_value b)"

lemma decode_encodeVersion [simp]: "decodeVersion (encodeVersion v) = v"
  using unsigned_less[of v, where ?'a = nat]
  by (simp add: decodeVersion_def encodeVersion_def be_value_bytes)

lemma encode_decodeVersion: "length b = 8 \<Longrightarrow> encodeVersion (decodeVersion b) = b"
  using be_value_less[of b] be_bytes_value[of b]
  by (simp add: decodeVersion_def encodeVersion_def unat_word_ariths take_bit_eq_mod unsigned_of_nat)

lemma decodeVersion_inject:
  "length a = 8 \<Longrightarrow> length b = 8 \<Longrightarrow> decodeVersion a = decodeVersion b \<longleftrightarrow> a = b"
  by (metis encode_decodeVersion)

section \<open>Schema version\<close>

definition currentSchemaVersion :: "64 word" where
  "currentSchemaVersion = 1"

definition schemaVersionKey :: bytes where
  "schemaVersionKey = ''schema_version''"

definition BoltBucketMeta :: string where
  "BoltBucketMeta = ''meta''"

text \<open>A version that is not stored as plain bytes has no valid encoding either.\<close>

definition checkSchemaVersion :: "'d bolt \<Rightarrow> 'd \<Rightarrow> go_error + 'd" where
  "checkSchemaVersion B d =
     (case bget B d BoltBucketMeta schemaVersionKey of
        None \<Rightarrow> bput B BoltBucketMeta schemaVersionKey (Bytes (encodeVersion currentSchemaVersion)) d
      | Some (Text _) \<Rightarrow> Inl (Plain [Lit ''invalid schema version encoding''])
      | Some (Bytes raw) \<Rightarrow>
          if length raw \<noteq> 8 then
            Inl (Plain [Lit ''invalid schema version encoding (len='', Dec (int (length raw)), Lit '')''])
          else
            (let version = decodeVersion raw
             in if version > currentSchemaVersion then
                  Inl (Plain [Lit ''db schema v'', Dec (uint version),
                    Lit '' is newer than this binary supports (v'', Dec (uint currentSchemaVersion),
                    Lit '') - refusing to start''])
                else if version < currentSchemaVersion then
                  Inl (Plain [Lit ''migration from schema v'', Dec (uint version), Lit '' to v'',
                    Dec (uint currentSchemaVersion), Lit '' not implemented yet''])
                else Inr d))"

fun create_buckets :: "'d bolt \<Rightarrow> string list \<Rightarrow> 'd \<Rightarrow> go_error + 'd" where
  "create_buckets B [] d = Inr d"
| "create_buckets B (name # names) d =
     (case create_bucket B name d of
        Inl e \<Rightarrow> Inl (Wrap [Lit ''create bolt-bucket '', Quoted name, Lit '': ''] e [])
      | Inr d' \<Rightarrow> create_buckets B names d')"

definition bootstrap_tx :: "'d bolt \<Rightarrow> string list \<Rightarrow> 'd \<Rightarrow> go_error + unit \<times> 'd" where
  "bootstrap_tx B names d =
     (case create_buckets B names d of
        Inl e \<Rightarrow> Inl e
      | Inr d1 \<Rightarrow>
          (case checkSchemaVersion B d1 of
             Inl e \<Rightarrow> Inl e
           | Inr d2 \<Rightarrow> Inr ((), d2)))"

definition bootstrap :: "'d bolt \<Rightarrow> string list \<Rightarrow> 'd \<Rightarrow> (go_error + unit) \<times> 'd" where
  "bootstrap B names = db_update B (bootstrap_tx B names)"

text \<open>
  \<open>Open\<close>: the results of \<open>os.MkdirAll\<close> and of \<open>bolt.Open\<close> (which reads the database file) come
  from the environment.  On success the caller gets the bootstrapped database.
\<close>

definition open_store ::
    "'d bolt \<Rightarrow> string list \<Rightarrow> string \<Rightarrow> go_error option \<Rightarrow> go_error + 'd \<Rightarrow> go_error + 'd" where
  "open_store B names path mkdir opened =
     (case mkdir of
        Some e \<Rightarrow> Inl (Wrap [Lit ''create db dir for '', Quoted path, Lit '': ''] e [])
      | None \<Rightarrow>
          (case opened of
             Inl e \<Rightarrow> Inl (Wrap [Lit ''open bbolt file '', Quoted path, Lit '': ''] e [])
           | Inr d \<Rightarrow>
               (case bootstrap B names d of
                  (Inl e, _) \<Rightarrow> Inl (Wrap [Lit ''bootstrap: ''] e [])
                | (Inr _, d') \<Rightarrow> Inr d')))"

text \<open>\<open>Ready\<close> polls the context, then runs an empty read transaction.\<close>

definition store_ready :: "ctx \<Rightarrow> go_error option" where
  "store_ready ctx = ctx 0"

text \<open>An opened database has its bolt buckets and the current schema version.\<close>

definition opened :: "'d bolt \<Rightarrow> string list \<Rightarrow> 'd \<Rightarrow> bool" where
  "opened B names d \<longleftrightarrow>
     (\<forall>b \<in> set names. bucket_exists B d b)
     \<and> bget B d BoltBucketMeta schemaVersionKey = Some (Bytes (encodeVersion currentSchemaVersion))"

section \<open>Lemmas\<close>

context bolt_store
begin

lemma create_buckets_get:
  "create_buckets B names d = Inr d' \<Longrightarrow> bget B d' b k = bget B d b k"
proof (induction names arbitrary: d)
  case Nil
  then show ?case by simp
next
  case (Cons n ns)
  then show ?case by (fastforce split: sum.splits dest: create_get)
qed

lemma create_buckets_exists:
  "create_buckets B names d = Inr d' \<Longrightarrow>
     bucket_exists B d' b \<longleftrightarrow> b \<in> set names \<or> bucket_exists B d b"
proof (induction names arbitrary: d)
  case Nil
  then show ?case by simp
next
  case (Cons n ns)
  from Cons.prems obtain d1 where d1: "create_bucket B n d = Inr d1" "create_buckets B ns d1 = Inr d'"
    by (auto split: sum.splits)
  with Cons.IH[OF d1(2)] create_exists[OF d1(1), of b] show ?case by auto
qed

lemma create_buckets_ok:
  "[] \<notin> set names \<Longrightarrow> \<exists>d'. create_buckets B names d = Inr d'"
proof (induction names arbitrary: d)
  case Nil
  then show ?case by simp
next
  case (Cons n ns)
  then show ?case using create_ok[of n d] by auto
qed

text \<open>The version check accepts only the current version, and stamps a new database with it.\<close>

lemma checkSchemaVersion_version:
  assumes "checkSchemaVersion B d = Inr d'"
  shows "bget B d' BoltBucketMeta schemaVersionKey = Some (Bytes (encodeVersion currentSchemaVersion))"
proof (cases "bget B d BoltBucketMeta schemaVersionKey")
  case None
  with assms have "bput B BoltBucketMeta schemaVersionKey (Bytes (encodeVersion currentSchemaVersion)) d = Inr d'"
    by (simp add: checkSchemaVersion_def)
  from put_get[OF this] show ?thesis by simp
next
  case (Some v)
  with assms obtain raw where raw: "v = Bytes raw" "length raw = 8" "d' = d"
    "decodeVersion raw = currentSchemaVersion"
    by (auto simp: checkSchemaVersion_def Let_def split: stored.splits if_splits)
  have "raw = encodeVersion currentSchemaVersion"
    using encode_decodeVersion[OF raw(2)] raw(4) by simp
  with Some raw show ?thesis by simp
qed

lemma checkSchemaVersion_get:
  "checkSchemaVersion B d = Inr d' \<Longrightarrow> b \<noteq> BoltBucketMeta \<or> k \<noteq> schemaVersionKey \<Longrightarrow>
     bget B d' b k = bget B d b k"
  by (auto simp: checkSchemaVersion_def Let_def put_get split: option.splits stored.splits if_splits)

lemma checkSchemaVersion_exists:
  "checkSchemaVersion B d = Inr d' \<Longrightarrow> bucket_exists B d' b = bucket_exists B d b"
  by (auto simp: checkSchemaVersion_def Let_def put_exists split: option.splits stored.splits if_splits)

lemma bootstrap_Inr:
  assumes "bootstrap B names d = (Inr (), d')"
  obtains d1 where "create_buckets B names d = Inr d1" "checkSchemaVersion B d1 = Inr d'"
  using assms by (auto simp: bootstrap_def db_update_ok bootstrap_tx_def split: sum.splits)

text \<open>
  After a successful bootstrap the database is open, and every entry but the version stamp is as
  it was before.
\<close>

lemma bootstrap_opened: "bootstrap B names d = (Inr (), d') \<Longrightarrow> opened B names d'"
  by (erule bootstrap_Inr)
    (auto simp: opened_def checkSchemaVersion_exists create_buckets_exists checkSchemaVersion_version)

lemma bootstrap_keeps:
  "bootstrap B names d = (Inr (), d') \<Longrightarrow> b \<noteq> BoltBucketMeta \<or> k \<noteq> schemaVersionKey \<Longrightarrow>
     bget B d' b k = bget B d b k"
  by (erule bootstrap_Inr) (simp add: checkSchemaVersion_get create_buckets_get)

text \<open>A database whose stamp is not the current version is refused and stays untouched.\<close>

lemma bootstrap_refuses:
  assumes "bget B d BoltBucketMeta schemaVersionKey = Some v"
    and "v \<noteq> Bytes (encodeVersion currentSchemaVersion)"
  shows "\<exists>e. bootstrap B names d = (Inl e, d)"
proof -
  have "\<exists>e. bootstrap_tx B names d = Inl e"
  proof (cases "create_buckets B names d")
    case (Inl e)
    then show ?thesis by (simp add: bootstrap_tx_def)
  next
    case (Inr d1)
    with assms(1) have g: "bget B d1 BoltBucketMeta schemaVersionKey = Some v"
      by (simp add: create_buckets_get)
    show ?thesis
    proof (cases "checkSchemaVersion B d1")
      case (Inl e)
      with Inr show ?thesis by (simp add: bootstrap_tx_def)
    next
      case (Inr d2)
      then have "d2 = d1"
        using g by (auto simp: checkSchemaVersion_def Let_def split: stored.splits if_splits)
      with checkSchemaVersion_version[OF Inr] g assms(2) show ?thesis by simp
    qed
  qed
  then show ?thesis by (auto simp: bootstrap_def db_update_def)
qed

end

text \<open>On a healthy disk, bootstrapping succeeds for a new database and for a current one.\<close>

context bolt_healthy
begin

lemma bootstrap_ok:
  assumes "[] \<notin> set names" and "BoltBucketMeta \<in> set names"
    and "fits B (Bytes (encodeVersion currentSchemaVersion))"
    and "bget B d BoltBucketMeta schemaVersionKey \<in> {None, Some (Bytes (encodeVersion currentSchemaVersion))}"
  shows "\<exists>d'. bootstrap B names d = (Inr (), d')"
proof -
  obtain d1 where d1: "create_buckets B names d = Inr d1"
    using create_buckets_ok[OF assms(1)] by blast
  have ex: "bucket_exists B d1 BoltBucketMeta"
    using create_buckets_exists[OF d1] assms(2) by simp
  have key: "key_ok schemaVersionKey"
    by (simp add: key_ok_def schemaVersionKey_def max_key_size_def)
  have "\<exists>d2. checkSchemaVersion B d1 = Inr d2"
    using assms(4) put_ok[OF ex key assms(3)]
    by (auto simp: checkSchemaVersion_def create_buckets_get[OF d1] Let_def encodeVersion_def[symmetric])
       (simp_all add: encodeVersion_def)
  with d1 show ?thesis
    by (auto simp: bootstrap_def db_update_healthy bootstrap_tx_def)
qed

end

end
