(* ===== verification/Meta_Model.thy ===== *)
theory Meta_Model
  imports Db_Schema
begin

text \<open>
  The data of metadata-service: the records of \<open>internal/model\<close>, their JSON form (struct tags,
  \<open>omitempty\<close>), the composite keys of \<open>internal/repository/bolt\<close> and the names of the bolt
  buckets of \<open>internal/store\<close>.
\<close>

section \<open>Bolt buckets\<close>

definition BoltBucketRecords :: string where
  "BoltBucketRecords = ''buckets''"

definition BoltBucketOwnerIdx :: string where
  "BoltBucketOwnerIdx = ''bucket_owner_index''"

definition BoltBucketObjects :: string where
  "BoltBucketObjects = ''objects''"

definition meta_bolt_buckets :: "string list" where
  "meta_bolt_buckets = [BoltBucketRecords, BoltBucketOwnerIdx, BoltBucketObjects, BoltBucketMeta]"

lemmas bolt_bucket_defs =
  BoltBucketRecords_def BoltBucketOwnerIdx_def BoltBucketObjects_def BoltBucketMeta_def

lemma bolt_buckets_distinct [simp]:
  "BoltBucketRecords \<noteq> BoltBucketOwnerIdx" "BoltBucketOwnerIdx \<noteq> BoltBucketRecords"
  "BoltBucketRecords \<noteq> BoltBucketObjects" "BoltBucketObjects \<noteq> BoltBucketRecords"
  "BoltBucketOwnerIdx \<noteq> BoltBucketObjects" "BoltBucketObjects \<noteq> BoltBucketOwnerIdx"
  "BoltBucketRecords \<noteq> BoltBucketMeta" "BoltBucketMeta \<noteq> BoltBucketRecords"
  "BoltBucketOwnerIdx \<noteq> BoltBucketMeta" "BoltBucketMeta \<noteq> BoltBucketOwnerIdx"
  "BoltBucketObjects \<noteq> BoltBucketMeta" "BoltBucketMeta \<noteq> BoltBucketObjects"
  by (simp_all add: bolt_bucket_defs)

definition meta_open ::
    "'d bolt \<Rightarrow> string \<Rightarrow> go_error option \<Rightarrow> go_error + 'd \<Rightarrow> go_error + 'd" where
  "meta_open B = open_store B meta_bolt_buckets"

section \<open>Records\<close>

record bucket =
  bID :: string
  bName :: string
  bOwnerID :: string
  bIsVersioned :: bool
  bDeletedAt :: "time option"
  bCreatedAt :: time

record object =
  oID :: string
  oObjectKey :: string
  oBucketName :: string
  oSizeBytes :: "64 word"
  oETag :: string
  oContentType :: string
  oStorageRef :: string
  oVersionID :: string
  oIsLatest :: bool
  oCreatedAt :: time
  oDeletedAt :: "time option"

definition zero_bucket :: bucket where
  "zero_bucket = \<lparr>bID = [], bName = [], bOwnerID = [], bIsVersioned = False,
     bDeletedAt = None, bCreatedAt = 0\<rparr>"

definition zero_object :: object where
  "zero_object = \<lparr>oID = [], oObjectKey = [], oBucketName = [], oSizeBytes = 0, oETag = [],
     oContentType = [], oStorageRef = [], oVersionID = [], oIsLatest = False, oCreatedAt = 0,
     oDeletedAt = None\<rparr>"

section \<open>JSON\<close>

fun omit_nil :: "string \<Rightarrow> time option \<Rightarrow> (string \<times> json) list" where
  "omit_nil name None = []"
| "omit_nil name (Some t) = [(name, JTime t)]"

definition bucket_json :: "bucket \<Rightarrow> json" where
  "bucket_json b = JObj
     ([(''id'', jstr (bID b)), (''name'', jstr (bName b)), (''owner_id'', jstr (bOwnerID b)),
       (''is_versioned'', JBool (bIsVersioned b))]
      @ omit_nil ''deleted_at'' (bDeletedAt b)
      @ [(''created_at'', JTime (bCreatedAt b))])"

definition bucket_fields :: "bucket field list" where
  "bucket_fields =
     [(''id'', string_field (\<lambda>x b. b\<lparr>bID := x\<rparr>)),
      (''name'', string_field (\<lambda>x b. b\<lparr>bName := x\<rparr>)),
      (''owner_id'', string_field (\<lambda>x b. b\<lparr>bOwnerID := x\<rparr>)),
      (''is_versioned'', bool_field (\<lambda>x b. b\<lparr>bIsVersioned := x\<rparr>)),
      (''deleted_at'', time_ptr_field (\<lambda>x b. b\<lparr>bDeletedAt := x\<rparr>)),
      (''created_at'', time_field (\<lambda>x b. b\<lparr>bCreatedAt := x\<rparr>))]"

definition object_json :: "object \<Rightarrow> json" where
  "object_json ob = JObj
     ([(''id'', jstr (oID ob)), (''object_key'', jstr (oObjectKey ob)),
       (''bucket_name'', jstr (oBucketName ob)), (''size_bytes'', JInt (sint (oSizeBytes ob))),
       (''etag'', jstr (oETag ob)), (''content_type'', jstr (oContentType ob)),
       (''storage_ref'', jstr (oStorageRef ob)), (''version_id'', jstr (oVersionID ob)),
       (''is_latest'', JBool (oIsLatest ob)), (''created_at'', JTime (oCreatedAt ob))]
      @ omit_nil ''deleted_at'' (oDeletedAt ob))"

definition object_fields :: "object field list" where
  "object_fields =
     [(''id'', string_field (\<lambda>x ob. ob\<lparr>oID := x\<rparr>)),
      (''object_key'', string_field (\<lambda>x ob. ob\<lparr>oObjectKey := x\<rparr>)),
      (''bucket_name'', string_field (\<lambda>x ob. ob\<lparr>oBucketName := x\<rparr>)),
      (''size_bytes'', int64_field (\<lambda>x ob. ob\<lparr>oSizeBytes := x\<rparr>)),
      (''etag'', string_field (\<lambda>x ob. ob\<lparr>oETag := x\<rparr>)),
      (''content_type'', string_field (\<lambda>x ob. ob\<lparr>oContentType := x\<rparr>)),
      (''storage_ref'', string_field (\<lambda>x ob. ob\<lparr>oStorageRef := x\<rparr>)),
      (''version_id'', string_field (\<lambda>x ob. ob\<lparr>oVersionID := x\<rparr>)),
      (''is_latest'', bool_field (\<lambda>x ob. ob\<lparr>oIsLatest := x\<rparr>)),
      (''created_at'', time_field (\<lambda>x ob. ob\<lparr>oCreatedAt := x\<rparr>)),
      (''deleted_at'', time_ptr_field (\<lambda>x ob. ob\<lparr>oDeletedAt := x\<rparr>))]"

definition unmarshal_bucket :: "stored \<Rightarrow> go_error + bucket" where
  "unmarshal_bucket = unmarshal bucket_fields zero_bucket"

definition unmarshal_object :: "stored \<Rightarrow> go_error + object" where
  "unmarshal_object = unmarshal object_fields zero_object"

text \<open>What a record is after it went through the store: its strings as valid UTF-8.\<close>

definition norm_bucket :: "bucket \<Rightarrow> bucket" where
  "norm_bucket b = b\<lparr>bID := utf8_fix (bID b), bName := utf8_fix (bName b),
     bOwnerID := utf8_fix (bOwnerID b)\<rparr>"

definition norm_object :: "object \<Rightarrow> object" where
  "norm_object ob = ob\<lparr>oID := utf8_fix (oID ob), oObjectKey := utf8_fix (oObjectKey ob),
     oBucketName := utf8_fix (oBucketName ob), oETag := utf8_fix (oETag ob),
     oContentType := utf8_fix (oContentType ob), oStorageRef := utf8_fix (oStorageRef ob),
     oVersionID := utf8_fix (oVersionID ob)\<rparr>"

lemma unmarshal_bucket_json [simp]: "unmarshal_bucket (Text (bucket_json b)) = Inr (norm_bucket b)"
  by (cases "bDeletedAt b")
    (simp_all add: unmarshal_bucket_def unmarshal_def bucket_json_def bucket_fields_def
      json_decode_simps norm_bucket_def zero_bucket_def)

lemma unmarshal_object_json [simp]: "unmarshal_object (Text (object_json ob)) = Inr (norm_object ob)"
  by (cases "oDeletedAt ob")
    (simp_all add: unmarshal_object_def unmarshal_def object_json_def object_fields_def
      json_decode_simps norm_object_def zero_object_def)

lemma norm_bucket_sel [simp]:
  "bDeletedAt (norm_bucket b) = bDeletedAt b" "bCreatedAt (norm_bucket b) = bCreatedAt b"
  "bIsVersioned (norm_bucket b) = bIsVersioned b" "bName (norm_bucket b) = utf8_fix (bName b)"
  "bOwnerID (norm_bucket b) = utf8_fix (bOwnerID b)" "bID (norm_bucket b) = utf8_fix (bID b)"
  by (simp_all add: norm_bucket_def)

lemma norm_object_sel [simp]:
  "oDeletedAt (norm_object ob) = oDeletedAt ob" "oCreatedAt (norm_object ob) = oCreatedAt ob"
  "oSizeBytes (norm_object ob) = oSizeBytes ob" "oIsLatest (norm_object ob) = oIsLatest ob"
  "oObjectKey (norm_object ob) = utf8_fix (oObjectKey ob)"
  "oBucketName (norm_object ob) = utf8_fix (oBucketName ob)"
  "oStorageRef (norm_object ob) = utf8_fix (oStorageRef ob)"
  "oID (norm_object ob) = utf8_fix (oID ob)" "oETag (norm_object ob) = utf8_fix (oETag ob)"
  "oContentType (norm_object ob) = utf8_fix (oContentType ob)"
  "oVersionID (norm_object ob) = utf8_fix (oVersionID ob)"
  by (simp_all add: norm_object_def)

text \<open>JSON loses nothing of a record whose strings are valid UTF-8.\<close>

definition utf8_bucket :: "bucket \<Rightarrow> bool" where
  "utf8_bucket b \<longleftrightarrow> valid_utf8 (bID b) \<and> valid_utf8 (bName b) \<and> valid_utf8 (bOwnerID b)"

definition utf8_object :: "object \<Rightarrow> bool" where
  "utf8_object ob \<longleftrightarrow> valid_utf8 (oID ob) \<and> valid_utf8 (oObjectKey ob) \<and> valid_utf8 (oBucketName ob)
     \<and> valid_utf8 (oETag ob) \<and> valid_utf8 (oContentType ob) \<and> valid_utf8 (oStorageRef ob)
     \<and> valid_utf8 (oVersionID ob)"

lemma norm_bucket_id [simp]: "utf8_bucket b \<Longrightarrow> norm_bucket b = b"
  by (simp add: norm_bucket_def utf8_bucket_def)

lemma norm_object_id [simp]: "utf8_object ob \<Longrightarrow> norm_object ob = ob"
  by (simp add: norm_object_def utf8_object_def)

section \<open>Keys\<close>

definition keySeparator :: char where
  "keySeparator = CHR 0x00"

definition ValidateKeyComponent :: "string \<Rightarrow> string \<Rightarrow> go_error option" where
  "ValidateKeyComponent fieldName value =
     (if keySeparator \<in> set value
      then Some (Plain [Lit fieldName, Lit '' must not contain a null byte: '', Quoted value])
      else None)"

definition ObjectKey :: "string \<Rightarrow> string \<Rightarrow> go_error + bytes" where
  "ObjectKey bucketName objectKeyName =
     (case ValidateKeyComponent ''bucket_name'' bucketName of
        Some err \<Rightarrow> Inl err
      | None \<Rightarrow>
          (case ValidateKeyComponent ''object_key'' objectKeyName of
             Some err \<Rightarrow> Inl err
           | None \<Rightarrow> Inr (bucketName @ [keySeparator] @ objectKeyName)))"

definition ObjectListPrefix :: "string \<Rightarrow> string \<Rightarrow> go_error + bytes" where
  "ObjectListPrefix bucketName userPrefix =
     (case ValidateKeyComponent ''bucket_name'' bucketName of
        Some err \<Rightarrow> Inl err
      | None \<Rightarrow>
          (case (if userPrefix \<noteq> [] then ValidateKeyComponent ''prefix'' userPrefix else None) of
             Some err \<Rightarrow> Inl err
           | None \<Rightarrow> Inr (bucketName @ [keySeparator] @ userPrefix)))"

definition OwnerIndexKey :: "string \<Rightarrow> string \<Rightarrow> go_error + bytes" where
  "OwnerIndexKey ownerID bucketName =
     (case ValidateKeyComponent ''owner_id'' ownerID of
        Some err \<Rightarrow> Inl err
      | None \<Rightarrow>
          (case ValidateKeyComponent ''bucket_name'' bucketName of
             Some err \<Rightarrow> Inl err
           | None \<Rightarrow> Inr (ownerID @ [keySeparator] @ bucketName)))"

definition OwnerIndexPrefix :: "string \<Rightarrow> go_error + bytes" where
  "OwnerIndexPrefix ownerID =
     (case ValidateKeyComponent ''owner_id'' ownerID of
        Some err \<Rightarrow> Inl err
      | None \<Rightarrow> Inr (ownerID @ [keySeparator]))"

text \<open>A string that may be part of a key.\<close>

definition no_nul :: "string \<Rightarrow> bool" where
  "no_nul s \<longleftrightarrow> keySeparator \<notin> set s"

lemmas key_defs = ObjectKey_def ObjectListPrefix_def OwnerIndexKey_def OwnerIndexPrefix_def
  ValidateKeyComponent_def

lemma ObjectKey_Inr [simp]:
  "ObjectKey b k = Inr key \<longleftrightarrow> no_nul b \<and> no_nul k \<and> key = b @ keySeparator # k"
  by (auto simp: key_defs no_nul_def)

lemma ObjectListPrefix_Inr [simp]:
  "ObjectListPrefix b p = Inr key \<longleftrightarrow> no_nul b \<and> no_nul p \<and> key = b @ keySeparator # p"
  by (auto simp: key_defs no_nul_def)

lemma OwnerIndexKey_Inr [simp]:
  "OwnerIndexKey o' b = Inr key \<longleftrightarrow> no_nul o' \<and> no_nul b \<and> key = o' @ keySeparator # b"
  by (auto simp: key_defs no_nul_def)

lemma OwnerIndexPrefix_Inr [simp]:
  "OwnerIndexPrefix o' = Inr key \<longleftrightarrow> no_nul o' \<and> key = o' @ [keySeparator]"
  by (auto simp: key_defs no_nul_def)

lemma key_no_nul [simp]:
  "no_nul b \<Longrightarrow> no_nul k \<Longrightarrow> ObjectKey b k = Inr (b @ keySeparator # k)"
  "no_nul b \<Longrightarrow> no_nul p \<Longrightarrow> ObjectListPrefix b p = Inr (b @ keySeparator # p)"
  "no_nul o' \<Longrightarrow> no_nul b \<Longrightarrow> OwnerIndexKey o' b = Inr (o' @ keySeparator # b)"
  "no_nul o' \<Longrightarrow> OwnerIndexPrefix o' = Inr (o' @ [keySeparator])"
  by simp_all

lemma no_nul_Nil [simp]: "no_nul []"
  by (simp add: no_nul_def)

lemma key_errors_plain:
  "ObjectKey b k = Inl e \<Longrightarrow> \<exists>m. e = Plain m"
  "ObjectListPrefix b p = Inl e \<Longrightarrow> \<exists>m. e = Plain m"
  "OwnerIndexKey o' b = Inl e \<Longrightarrow> \<exists>m. e = Plain m"
  "OwnerIndexPrefix o' = Inl e \<Longrightarrow> \<exists>m. e = Plain m"
  by (auto simp: key_defs split: if_splits)

lemma key_inject:
  "no_nul a \<Longrightarrow> no_nul b \<Longrightarrow> a @ keySeparator # x = b @ keySeparator # y \<longleftrightarrow> a = b \<and> x = y"
  unfolding no_nul_def by (rule append_sep_inject)

lemma key_prefix:
  "no_nul a \<Longrightarrow> no_nul b \<Longrightarrow> prefix (a @ keySeparator # x) (b @ keySeparator # y) \<longleftrightarrow> a = b \<and> prefix x y"
  unfolding no_nul_def by (rule prefix_sep_iff)

lemma key_prefix_dest:
  assumes "prefix (a @ keySeparator # x) k"
  obtains y where "k = a @ keySeparator # y" "prefix x y"
  using assms by (auto simp: prefix_def)

end
