(* ===== verification/Meta_Interfaces.thy ===== *)
theory Meta_Interfaces
  imports Meta_Model
begin

text \<open>
  The repository interfaces of metadata-service (\<open>internal/repository/repository.go\<close>) as records
  of operations over a database state, and the contracts the services rely on as locales: an
  invariant of the database, the live buckets and objects as finite maps, and what each operation
  does to them.  A call takes its context and, where the code reads the clock, the instant it
  reads.
\<close>

section \<open>Interfaces\<close>

record 'd bucket_repository =
  br_create :: "ctx \<Rightarrow> time \<Rightarrow> bucket \<Rightarrow> 'd \<Rightarrow> (go_error + bucket) \<times> 'd"
  br_get :: "ctx \<Rightarrow> string \<Rightarrow> 'd \<Rightarrow> go_error + bucket"
  br_list :: "ctx \<Rightarrow> string \<Rightarrow> 'd \<Rightarrow> go_error + bucket list"
  br_delete :: "ctx \<Rightarrow> time \<Rightarrow> string \<Rightarrow> 'd \<Rightarrow> (go_error + unit) \<times> 'd"

record 'd object_repository =
  or_put :: "ctx \<Rightarrow> time \<Rightarrow> object \<Rightarrow> 'd \<Rightarrow> (go_error + object) \<times> 'd"
  or_get :: "ctx \<Rightarrow> string \<Rightarrow> string \<Rightarrow> 'd \<Rightarrow> go_error + object"
  or_list :: "ctx \<Rightarrow> string \<Rightarrow> string \<Rightarrow> int \<Rightarrow> 'd \<Rightarrow> go_error + object list"
  or_delete :: "ctx \<Rightarrow> time \<Rightarrow> string \<Rightarrow> string \<Rightarrow> 'd \<Rightarrow> (go_error + unit) \<times> 'd"
  or_count :: "ctx \<Rightarrow> string \<Rightarrow> 'd \<Rightarrow> go_error + nat"

section \<open>Abstract state\<close>

text \<open>
  The creation time is filled in with the clock when the caller left it zero.
\<close>

definition stamp_bucket :: "time \<Rightarrow> bucket \<Rightarrow> bucket" where
  "stamp_bucket now b = (if time_is_zero (bCreatedAt b) then b\<lparr>bCreatedAt := now\<rparr> else b)"

definition stamp_object :: "time \<Rightarrow> object \<Rightarrow> object" where
  "stamp_object now ob = (if time_is_zero (oCreatedAt ob) then ob\<lparr>oCreatedAt := now\<rparr> else ob)"

lemma stamp_bucket_sel [simp]:
  "bID (stamp_bucket now b) = bID b" "bName (stamp_bucket now b) = bName b"
  "bOwnerID (stamp_bucket now b) = bOwnerID b" "bDeletedAt (stamp_bucket now b) = bDeletedAt b"
  "bIsVersioned (stamp_bucket now b) = bIsVersioned b"
  "utf8_bucket (stamp_bucket now b) = utf8_bucket b"
  by (simp_all add: stamp_bucket_def utf8_bucket_def)

lemma stamp_object_sel [simp]:
  "oID (stamp_object now ob) = oID ob" "oObjectKey (stamp_object now ob) = oObjectKey ob"
  "oBucketName (stamp_object now ob) = oBucketName ob" "oSizeBytes (stamp_object now ob) = oSizeBytes ob"
  "oETag (stamp_object now ob) = oETag ob" "oContentType (stamp_object now ob) = oContentType ob"
  "oStorageRef (stamp_object now ob) = oStorageRef ob" "oVersionID (stamp_object now ob) = oVersionID ob"
  "oIsLatest (stamp_object now ob) = oIsLatest ob" "oDeletedAt (stamp_object now ob) = oDeletedAt ob"
  "utf8_object (stamp_object now ob) = utf8_object ob"
  by (simp_all add: stamp_object_def utf8_object_def)

text \<open>
  A bucket record that can be stored and found again: its name and owner can be parts of a key,
  JSON keeps its strings, and it is not marked deleted.
\<close>

definition good_bucket :: "bucket \<Rightarrow> bool" where
  "good_bucket b \<longleftrightarrow> utf8_bucket b \<and> no_nul (bName b) \<and> no_nul (bOwnerID b) \<and> bDeletedAt b = None"

lemma good_bucket_stamp [simp]: "good_bucket (stamp_bucket now b) = good_bucket b"
  by (simp add: good_bucket_def)

text \<open>The buckets of one owner in the order of their names.\<close>

definition owner_listing :: "(string \<Rightarrow> bucket option) \<Rightarrow> string \<Rightarrow> bucket list \<Rightarrow> bool" where
  "owner_listing live owner bs \<longleftrightarrow>
     sorted_wrt (<) (map bName bs) \<and> set bs = {b. \<exists>n. live n = Some b \<and> bOwnerID b = owner}"

text \<open>
  A listing of one bucket: its live objects with keys that start with \<open>p\<close>, in the order of the
  keys, cut off after \<open>lim\<close> objects.
\<close>

definition object_listing :: "(string \<Rightarrow> object option) \<Rightarrow> string \<Rightarrow> nat \<Rightarrow> object list \<Rightarrow> bool" where
  "object_listing m p lim obs \<longleftrightarrow>
     (\<exists>ks. sorted_wrt (<) ks \<and> set ks = {k. m k \<noteq> None \<and> prefix p k}
           \<and> obs = take lim (map (\<lambda>k. the (m k)) ks))"

text \<open>A limit that is not positive stands for 1000.\<close>

definition list_limit :: "int \<Rightarrow> nat" where
  "list_limit limit = nat (if limit \<le> 0 then 1000 else limit)"

section \<open>Contracts\<close>

text \<open>
  \<open>live d n\<close> is the bucket of name \<open>n\<close>, \<open>occupied d n\<close> says that a live object is stored under
  the bucket name \<open>n\<close>.
\<close>

locale bucket_contract =
  fixes R :: "'d bucket_repository"
    and inv :: "'d \<Rightarrow> bool"
    and live :: "'d \<Rightarrow> string \<Rightarrow> bucket option"
    and occupied :: "'d \<Rightarrow> string \<Rightarrow> bool"
  assumes live_name: "inv d \<Longrightarrow> live d n = Some b \<Longrightarrow> bName b = n"
    and live_good: "inv d \<Longrightarrow> live d n = Some b \<Longrightarrow> good_bucket b"
    and get_eq: "inv d \<Longrightarrow> br_get R ctx n d =
      (case live d n of None \<Rightarrow> Inl (Sentinel ErrNotFound) | Some b \<Rightarrow> Inr b)"
    and create_taken: "inv d \<Longrightarrow> live d (bName b) \<noteq> None \<Longrightarrow>
      br_create R ctx now b d = (Inl (Sentinel ErrAlreadyExists), d)"
    and create_error: "br_create R ctx now b d = (Inl e, d') \<Longrightarrow> d' = d"
    and create_Inr: "inv d \<Longrightarrow> utf8_bucket b \<Longrightarrow> bDeletedAt b = None \<Longrightarrow>
      br_create R ctx now b d = (Inr b', d') \<Longrightarrow>
      inv d' \<and> good_bucket b' \<and> live d (bName b) = None \<and> b' = stamp_bucket now b
      \<and> live d' = (live d)(bName b \<mapsto> b') \<and> occupied d' = occupied d"
    and list_Inr: "inv d \<Longrightarrow> br_list R ctx owner d = Inr bs \<Longrightarrow> owner_listing (live d) owner bs"
    and delete_missing: "inv d \<Longrightarrow> live d n = None \<Longrightarrow>
      br_delete R ctx now n d = (Inl (Sentinel ErrNotFound), d)"
    and delete_error: "br_delete R ctx now n d = (Inl e, d') \<Longrightarrow> d' = d"
    and delete_Inr: "inv d \<Longrightarrow> br_delete R ctx now n d = (Inr u, d') \<Longrightarrow>
      inv d' \<and> live d n \<noteq> None \<and> \<not> occupied d n
      \<and> live d' = (live d)(n := None) \<and> occupied d' = occupied d"

text \<open>
  \<open>objs d b k\<close> is the live object with key \<open>k\<close> in bucket \<open>b\<close>.
\<close>

locale object_contract =
  fixes S :: "'d object_repository"
    and inv :: "'d \<Rightarrow> bool"
    and objs :: "'d \<Rightarrow> string \<Rightarrow> string \<Rightarrow> object option"
  assumes objs_no_nul: "inv d \<Longrightarrow> objs d b k = Some ob \<Longrightarrow> no_nul b \<and> no_nul k \<and> oDeletedAt ob = None"
    and oget_eq: "inv d \<Longrightarrow> no_nul b \<Longrightarrow> no_nul k \<Longrightarrow> or_get S ctx b k d =
      (case objs d b k of None \<Rightarrow> Inl (Sentinel ErrNotFound) | Some ob \<Rightarrow> Inr ob)"
    and oput_error: "or_put S ctx now ob d = (Inl e, d') \<Longrightarrow> d' = d"
    and oput_Inr: "inv d \<Longrightarrow> oDeletedAt ob = None \<Longrightarrow> or_put S ctx now ob d = (Inr ob', d') \<Longrightarrow>
      inv d' \<and> ob' = stamp_object now ob \<and> no_nul (oBucketName ob) \<and> no_nul (oObjectKey ob)
      \<and> objs d' = (objs d)(oBucketName ob := (objs d (oBucketName ob))(oObjectKey ob \<mapsto> norm_object ob'))"
    and olist_Inr: "inv d \<Longrightarrow> or_list S ctx b p limit d = Inr obs \<Longrightarrow>
      object_listing (objs d b) p (list_limit limit) obs"
    and odelete_missing: "inv d \<Longrightarrow> no_nul b \<Longrightarrow> no_nul k \<Longrightarrow> objs d b k = None \<Longrightarrow>
      or_delete S ctx now b k d = (Inl (Sentinel ErrNotFound), d)"
    and odelete_error: "or_delete S ctx now b k d = (Inl e, d') \<Longrightarrow> d' = d"
    and odelete_Inr: "inv d \<Longrightarrow> or_delete S ctx now b k d = (Inr u, d') \<Longrightarrow>
      inv d' \<and> objs d b k \<noteq> None \<and> objs d' = (objs d)(b := (objs d b)(k := None))"
    and ocount_Inr: "inv d \<Longrightarrow> or_count S ctx b d = Inr n \<Longrightarrow> n = card (dom (objs d b))"

end
