(* ===== verification/Meta_Bucket_Repo.thy ===== *)
theory Meta_Bucket_Repo
  imports Meta_Interfaces
begin

text \<open>
  The bucket repository on bbolt (\<open>internal/repository/bucket_repository.go\<close>): one transaction
  per operation over the bucket records, the owner index and, for the emptiness check of
  \<open>Delete\<close>, the object records.
\<close>

section \<open>Create\<close>

definition bucket_create_tx :: "'d bolt \<Rightarrow> time \<Rightarrow> bucket \<Rightarrow> 'd \<Rightarrow> go_error + bucket \<times> 'd" where
  "bucket_create_tx B now b d =
     (case
        (case bget B d BoltBucketRecords (bName b) of
           None \<Rightarrow> None
         | Some existing \<Rightarrow>
             (case unmarshal_bucket existing of
                Inl e \<Rightarrow> Some (Wrap [Lit ''unmarshal existing bucket '', Quoted (bName b), Lit '': ''] e [])
              | Inr current \<Rightarrow>
                  if bDeletedAt current = None then Some (Sentinel ErrAlreadyExists) else None))
      of
        Some err \<Rightarrow> Inl err
      | None \<Rightarrow>
          (let b' = stamp_bucket now b
           in case bput B BoltBucketRecords (bName b') (Text (bucket_json b')) d of
                Inl e \<Rightarrow> Inl (Wrap [Lit ''put bucket record: ''] e [])
              | Inr d1 \<Rightarrow>
                  (case OwnerIndexKey (bOwnerID b') (bName b') of
                     Inl e \<Rightarrow> Inl (Wrap [Lit ''build owner index key: ''] e [])
                   | Inr idxKey \<Rightarrow>
                       (case bput B BoltBucketOwnerIdx idxKey (Bytes (bName b')) d1 of
                          Inl e \<Rightarrow> Inl (Wrap [Lit ''put owner index: ''] e [])
                        | Inr d2 \<Rightarrow> Inr (b', d2)))))"

definition BucketRepo_Create ::
    "'d bolt \<Rightarrow> ctx \<Rightarrow> time \<Rightarrow> bucket \<Rightarrow> 'd \<Rightarrow> (go_error + bucket) \<times> 'd" where
  "BucketRepo_Create B ctx now b = db_update B (bucket_create_tx B now b)"

section \<open>GetByName\<close>

definition BucketRepo_GetByName :: "'d bolt \<Rightarrow> ctx \<Rightarrow> string \<Rightarrow> 'd \<Rightarrow> go_error + bucket" where
  "BucketRepo_GetByName B ctx name d =
     (case bget B d BoltBucketRecords name of
        None \<Rightarrow> Inl (Sentinel ErrNotFound)
      | Some raw \<Rightarrow>
          (case unmarshal_bucket raw of
             Inl e \<Rightarrow> Inl (Wrap [Lit ''unmarshal bucket '', Quoted name, Lit '': ''] e [])
           | Inr b \<Rightarrow> if bDeletedAt b \<noteq> None then Inl (Sentinel ErrNotFound) else Inr b))"

section \<open>ListByOwner\<close>

text \<open>
  The loop over the owner index: stop at the first key without the prefix, poll the context, look
  the record up, skip a missing or deleted one.  \<open>n\<close> counts the polls.  An index value is the
  bucket name as plain bytes; an entry that is none refers to no record.
\<close>

definition index_target :: "'d bolt \<Rightarrow> 'd \<Rightarrow> stored \<Rightarrow> stored option" where
  "index_target B d v =
     (case v of
        Bytes name \<Rightarrow> bget B d BoltBucketRecords name
      | Text _ \<Rightarrow> None)"

definition index_name :: "stored \<Rightarrow> string" where
  "index_name v = (case v of Bytes name \<Rightarrow> name | Text _ \<Rightarrow> [])"

fun owner_loop ::
    "'d bolt \<Rightarrow> ctx \<Rightarrow> 'd \<Rightarrow> bytes \<Rightarrow> nat \<Rightarrow> (bytes \<times> stored) list \<Rightarrow> bucket list
       \<Rightarrow> go_error + bucket list"
  where
  "owner_loop B ctx d p n [] buckets = Inr buckets"
| "owner_loop B ctx d p n ((k, v) # es) buckets =
     (if \<not> prefix p k then Inr buckets
      else case ctx n of
        Some err \<Rightarrow> Inl err
      | None \<Rightarrow>
          (case index_target B d v of
             None \<Rightarrow> owner_loop B ctx d p (Suc n) es buckets
           | Some raw \<Rightarrow>
               (case unmarshal_bucket raw of
                  Inl e \<Rightarrow> Inl (Wrap [Lit ''unmarshal bucket '', Quoted (index_name v), Lit '': ''] e [])
                | Inr b \<Rightarrow>
                    if bDeletedAt b \<noteq> None then owner_loop B ctx d p (Suc n) es buckets
                    else owner_loop B ctx d p (Suc n) es (buckets @ [b]))))"

definition BucketRepo_ListByOwner ::
    "'d bolt \<Rightarrow> ctx \<Rightarrow> string \<Rightarrow> 'd \<Rightarrow> go_error + bucket list" where
  "BucketRepo_ListByOwner B ctx ownerID d =
     (case OwnerIndexPrefix ownerID of
        Inl e \<Rightarrow> Inl (Wrap [Lit ''build owner index prefix: ''] e [])
      | Inr p \<Rightarrow> owner_loop B ctx d p 0 (cursor B d BoltBucketOwnerIdx p) [])"

section \<open>Delete\<close>

fun occupied_loop :: "ctx \<Rightarrow> bytes \<Rightarrow> nat \<Rightarrow> (bytes \<times> stored) list \<Rightarrow> go_error option" where
  "occupied_loop ctx p n [] = None"
| "occupied_loop ctx p n ((k, v) # es) =
     (if \<not> prefix p k then None
      else case ctx n of
        Some err \<Rightarrow> Some err
      | None \<Rightarrow>
          (case unmarshal_object v of
             Inl e \<Rightarrow> Some (Wrap [Lit ''unmarshal object at key '', Quoted k, Lit '': ''] e [])
           | Inr ob \<Rightarrow>
               if oDeletedAt ob = None then Some (Sentinel ErrBucketNotEmpty)
               else occupied_loop ctx p (Suc n) es))"

definition bucket_delete_tx ::
    "'d bolt \<Rightarrow> ctx \<Rightarrow> time \<Rightarrow> string \<Rightarrow> 'd \<Rightarrow> go_error + unit \<times> 'd" where
  "bucket_delete_tx B ctx now name d =
     (case bget B d BoltBucketRecords name of
        None \<Rightarrow> Inl (Sentinel ErrNotFound)
      | Some raw \<Rightarrow>
          (case unmarshal_bucket raw of
             Inl e \<Rightarrow> Inl (Wrap [Lit ''unmarshal bucket '', Quoted name, Lit '': ''] e [])
           | Inr b \<Rightarrow>
               if bDeletedAt b \<noteq> None then Inl (Sentinel ErrNotFound)
               else
                 (case OwnerIndexKey (bOwnerID b) name of
                    Inl e \<Rightarrow> Inl (Wrap [Lit ''build owner index key: ''] e [])
                  | Inr idxKey \<Rightarrow>
                      (case bdel B BoltBucketOwnerIdx idxKey d of
                         Inl e \<Rightarrow> Inl (Wrap [Lit ''delete owner index: ''] e [])
                       | Inr d1 \<Rightarrow>
                           (case ObjectListPrefix name [] of
                              Inl e \<Rightarrow> Inl (Wrap [Lit ''build object list prefix: ''] e [])
                            | Inr objPrefix \<Rightarrow>
                                (case occupied_loop ctx objPrefix 0 (cursor B d1 BoltBucketObjects objPrefix) of
                                   Some err \<Rightarrow> Inl err
                                 | None \<Rightarrow>
                                     (case bput B BoltBucketRecords name
                                             (Text (bucket_json (b\<lparr>bDeletedAt := Some now\<rparr>))) d1 of
                                        Inl e \<Rightarrow> Inl e
                                      | Inr d2 \<Rightarrow> Inr ((), d2))))))))"

definition BucketRepo_Delete ::
    "'d bolt \<Rightarrow> ctx \<Rightarrow> time \<Rightarrow> string \<Rightarrow> 'd \<Rightarrow> (go_error + unit) \<times> 'd" where
  "BucketRepo_Delete B ctx now name = db_update B (bucket_delete_tx B ctx now name)"

definition BoltBucketRepository :: "'d bolt \<Rightarrow> 'd bucket_repository" where
  "BoltBucketRepository B =
     \<lparr>br_create = BucketRepo_Create B, br_get = BucketRepo_GetByName B,
      br_list = BucketRepo_ListByOwner B, br_delete = BucketRepo_Delete B\<rparr>"

lemma BoltBucketRepository_sel [simp]:
  "br_create (BoltBucketRepository B) = BucketRepo_Create B"
  "br_get (BoltBucketRepository B) = BucketRepo_GetByName B"
  "br_list (BoltBucketRepository B) = BucketRepo_ListByOwner B"
  "br_delete (BoltBucketRepository B) = BucketRepo_Delete B"
  by (simp_all add: BoltBucketRepository_def)

section \<open>The state behind the repository\<close>

text \<open>The live buckets, and whether a bucket name has live objects.\<close>

definition live_bucket :: "'d bolt \<Rightarrow> 'd \<Rightarrow> string \<Rightarrow> bucket option" where
  "live_bucket B d n =
     (case bget B d BoltBucketRecords n of
        None \<Rightarrow> None
      | Some raw \<Rightarrow>
          (case unmarshal_bucket raw of
             Inl _ \<Rightarrow> None
           | Inr b \<Rightarrow> if bDeletedAt b = None then Some b else None))"

definition live_object :: "'d bolt \<Rightarrow> 'd \<Rightarrow> string \<Rightarrow> string \<Rightarrow> object option" where
  "live_object B d b k =
     (case bget B d BoltBucketObjects (b @ keySeparator # k) of
        None \<Rightarrow> None
      | Some raw \<Rightarrow>
          (case unmarshal_object raw of
             Inl _ \<Rightarrow> None
           | Inr ob \<Rightarrow> if no_nul b \<and> no_nul k \<and> oDeletedAt ob = None then Some ob else None))"

definition occupied_bucket :: "'d bolt \<Rightarrow> 'd \<Rightarrow> string \<Rightarrow> bool" where
  "occupied_bucket B d n \<longleftrightarrow> (\<exists>k. live_object B d n k \<noteq> None)"

text \<open>
  The invariant of the database: every record is the JSON of a bucket of its name, the owner index
  holds exactly one entry per live bucket, and every object record is the JSON of the object
  its key names.
\<close>

definition records_ok :: "'d bolt \<Rightarrow> 'd \<Rightarrow> bool" where
  "records_ok B d \<longleftrightarrow> (\<forall>n v. bget B d BoltBucketRecords n = Some v \<longrightarrow>
     (\<exists>b. v = Text (bucket_json b) \<and> bName b = n \<and> utf8_bucket b \<and> no_nul n \<and> no_nul (bOwnerID b)))"

definition index_ok :: "'d bolt \<Rightarrow> 'd \<Rightarrow> bool" where
  "index_ok B d \<longleftrightarrow> (\<forall>k v. bget B d BoltBucketOwnerIdx k = Some v \<longleftrightarrow>
     (\<exists>n b. live_bucket B d n = Some b \<and> k = bOwnerID b @ keySeparator # n \<and> v = Bytes n))"

definition objects_ok :: "'d bolt \<Rightarrow> 'd \<Rightarrow> bool" where
  "objects_ok B d \<longleftrightarrow> (\<forall>k v. bget B d BoltBucketObjects k = Some v \<longrightarrow>
     (\<exists>ob. v = Text (object_json ob) \<and> no_nul (oBucketName ob) \<and> no_nul (oObjectKey ob)
           \<and> k = oBucketName ob @ keySeparator # oObjectKey ob))"

definition meta_inv :: "'d bolt \<Rightarrow> 'd \<Rightarrow> bool" where
  "meta_inv B d \<longleftrightarrow> opened B meta_bolt_buckets d \<and> records_ok B d \<and> index_ok B d \<and> objects_ok B d"

section \<open>Reading the state\<close>

lemma live_bucket_cong:
  "(\<And>n. bget B d' BoltBucketRecords n = bget B d BoltBucketRecords n) \<Longrightarrow> live_bucket B d' = live_bucket B d"
  by (rule ext) (simp add: live_bucket_def)

lemma live_object_cong:
  "(\<And>k. bget B d' BoltBucketObjects k = bget B d BoltBucketObjects k) \<Longrightarrow> live_object B d' = live_object B d"
  by (intro ext) (simp add: live_object_def)

lemma occupied_bucket_cong:
  "live_object B d' = live_object B d \<Longrightarrow> occupied_bucket B d' = occupied_bucket B d"
  by (rule ext) (simp add: occupied_bucket_def)

lemma records_okE:
  assumes "records_ok B d" and "bget B d BoltBucketRecords n = Some v"
  obtains b where "v = Text (bucket_json b)" "unmarshal_bucket v = Inr b" "bName b = n"
    "utf8_bucket b" "no_nul n" "no_nul (bOwnerID b)"
  using assms unfolding records_ok_def by fastforce

lemma live_bucketE:
  assumes "records_ok B d" and "live_bucket B d n = Some b"
  obtains "bget B d BoltBucketRecords n = Some (Text (bucket_json b))" "bName b = n"
    "good_bucket b" "unmarshal_bucket (Text (bucket_json b)) = Inr b"
proof -
  from assms(2) obtain v where v: "bget B d BoltBucketRecords n = Some v"
    by (auto simp: live_bucket_def split: option.splits)
  from assms(1) v obtain b' where b': "v = Text (bucket_json b')" "unmarshal_bucket v = Inr b'"
    "bName b' = n" "utf8_bucket b'" "no_nul n" "no_nul (bOwnerID b')"
    by (rule records_okE)
  from assms(2) v b'(2) have "b' = b" "bDeletedAt b = None"
    by (auto simp: live_bucket_def split: if_splits)
  with v b' that show ?thesis by (auto simp: good_bucket_def)
qed

lemma live_bucket_stored:
  "utf8_bucket b \<Longrightarrow> bget B d BoltBucketRecords n = Some (Text (bucket_json b)) \<Longrightarrow>
     live_bucket B d n = (if bDeletedAt b = None then Some b else None)"
  by (simp add: live_bucket_def)

lemma live_bucket_missing: "bget B d BoltBucketRecords n = None \<Longrightarrow> live_bucket B d n = None"
  by (simp add: live_bucket_def)

lemma GetByName_eq:
  assumes "records_ok B d"
  shows "BucketRepo_GetByName B ctx n d =
    (case live_bucket B d n of None \<Rightarrow> Inl (Sentinel ErrNotFound) | Some b \<Rightarrow> Inr b)"
proof (cases "bget B d BoltBucketRecords n")
  case None
  then show ?thesis by (simp add: BucketRepo_GetByName_def live_bucket_def)
next
  case (Some v)
  with assms obtain b where "unmarshal_bucket v = Inr b"
    by (rule records_okE)
  with Some show ?thesis by (simp add: BucketRepo_GetByName_def live_bucket_def)
qed

lemma objects_okE:
  assumes "objects_ok B d" and "bget B d BoltBucketObjects k = Some v"
  obtains ob where "v = Text (object_json ob)" "unmarshal_object v = Inr (norm_object ob)"
    "no_nul (oBucketName ob)" "no_nul (oObjectKey ob)"
    "k = oBucketName ob @ keySeparator # oObjectKey ob"
  using assms unfolding objects_ok_def by fastforce

text \<open>The live bucket that an entry of the owner index refers to.\<close>

definition entry_bucket :: "'d bolt \<Rightarrow> 'd \<Rightarrow> bytes \<times> stored \<Rightarrow> bucket option" where
  "entry_bucket B d e = (case snd e of Bytes n \<Rightarrow> live_bucket B d n | Text _ \<Rightarrow> None)"

lemma index_target_entry:
  assumes "records_ok B d"
  shows "index_target B d v = None \<and> entry_bucket B d (k, v) = None
    \<or> (\<exists>raw b. index_target B d v = Some raw \<and> unmarshal_bucket raw = Inr b
         \<and> entry_bucket B d (k, v) = (if bDeletedAt b = None then Some b else None))"
proof (cases v)
  case (Text j)
  then show ?thesis by (simp add: index_target_def entry_bucket_def)
next
  case (Bytes n)
  show ?thesis
  proof (cases "bget B d BoltBucketRecords n")
    case None
    with Bytes show ?thesis by (simp add: index_target_def entry_bucket_def live_bucket_def)
  next
    case (Some raw)
    with assms obtain b where "unmarshal_bucket raw = Inr b" by (rule records_okE)
    with Some Bytes show ?thesis by (simp add: index_target_def entry_bucket_def live_bucket_def)
  qed
qed

section \<open>The invariant and the transactions\<close>

context bolt_store
begin

text \<open>Storing a bucket record, and the effect on the live buckets.\<close>

lemma records_put:
  assumes "bput B BoltBucketRecords (bName b) (Text (bucket_json b)) d = Inr d'"
    and "utf8_bucket b"
  shows "live_bucket B d' = (live_bucket B d)(bName b := (if bDeletedAt b = None then Some b else None))"
proof
  fix n
  show "live_bucket B d' n = ((live_bucket B d)(bName b := (if bDeletedAt b = None then Some b else None))) n"
    using put_get[OF assms(1), of BoltBucketRecords] assms(2)
    by (cases "n = bName b") (simp_all add: live_bucket_def)
qed

lemma records_ok_put:
  assumes "bput B BoltBucketRecords (bName b) (Text (bucket_json b)) d = Inr d'"
    and "records_ok B d" and "utf8_bucket b" "no_nul (bName b)" "no_nul (bOwnerID b)"
  shows "records_ok B d'"
  using assms(2-) unfolding records_ok_def put_get[OF assms(1)] by auto

lemma opened_put: "bput B b k v d = Inr d' \<Longrightarrow> b \<noteq> BoltBucketMeta \<Longrightarrow> opened B names d \<Longrightarrow> opened B names d'"
  by (simp add: opened_def put_exists put_get)

lemma opened_del: "bdel B b k d = Inr d' \<Longrightarrow> b \<noteq> BoltBucketMeta \<Longrightarrow> opened B names d \<Longrightarrow> opened B names d'"
  by (simp add: opened_def del_exists del_get)

text \<open>
  The index after one bucket became live or stopped being live: since a key determines owner and
  name, adding or removing the entry of that bucket is what the invariant asks for.
\<close>

lemma index_ok_add:
  assumes "index_ok B d" and "live_bucket B d n = None" and "no_nul n" and "no_nul (bOwnerID b)"
    and "\<And>m c. live_bucket B d m = Some c \<Longrightarrow> no_nul (bOwnerID c)"
    and live: "live_bucket B d' = (live_bucket B d)(n \<mapsto> b)"
    and get: "\<And>k. bget B d' BoltBucketOwnerIdx k =
      (if k = bOwnerID b @ keySeparator # n then Some (Bytes n) else bget B d BoltBucketOwnerIdx k)"
  shows "index_ok B d'"
  unfolding index_ok_def
proof (intro allI)
  fix k v
  let ?k = "bOwnerID b @ keySeparator # n"
  have old: "bget B d BoltBucketOwnerIdx k = Some v \<longleftrightarrow>
    (\<exists>m c. live_bucket B d m = Some c \<and> k = bOwnerID c @ keySeparator # m \<and> v = Bytes m)"
    using assms(1) by (simp add: index_ok_def)
  show "bget B d' BoltBucketOwnerIdx k = Some v \<longleftrightarrow>
    (\<exists>m c. live_bucket B d' m = Some c \<and> k = bOwnerID c @ keySeparator # m \<and> v = Bytes m)"
  proof (cases "k = ?k")
    case True
    have "m = n" if "live_bucket B d' m = Some c" "k = bOwnerID c @ keySeparator # m" for m c
    proof (rule ccontr)
      assume "m \<noteq> n"
      with that(1) live have "live_bucket B d m = Some c" by simp
      with True that(2) assms(4,5) \<open>m \<noteq> n\<close> show False
        by (auto simp: key_inject)
    qed
    moreover have "live_bucket B d' n = Some b" by (simp add: live)
    ultimately show ?thesis using True by (simp add: get) blast
  next
    case False
    then have "(\<exists>m c. live_bucket B d' m = Some c \<and> k = bOwnerID c @ keySeparator # m \<and> v = Bytes m)
      \<longleftrightarrow> (\<exists>m c. live_bucket B d m = Some c \<and> k = bOwnerID c @ keySeparator # m \<and> v = Bytes m)"
      unfolding live using assms(2) by (metis (mono_tags, lifting) fun_upd_apply option.inject option.simps(3))
    with False old show ?thesis by (simp add: get)
  qed
qed

lemma index_ok_remove:
  assumes "index_ok B d" and "live_bucket B d n = Some b" and "no_nul (bOwnerID b)"
    and "\<And>m c. live_bucket B d m = Some c \<Longrightarrow> no_nul (bOwnerID c)"
    and live: "live_bucket B d' = (live_bucket B d)(n := None)"
    and get: "\<And>k. bget B d' BoltBucketOwnerIdx k =
      (if k = bOwnerID b @ keySeparator # n then None else bget B d BoltBucketOwnerIdx k)"
  shows "index_ok B d'"
  unfolding index_ok_def
proof (intro allI)
  fix k v
  have old: "bget B d BoltBucketOwnerIdx k = Some v \<longleftrightarrow>
    (\<exists>m c. live_bucket B d m = Some c \<and> k = bOwnerID c @ keySeparator # m \<and> v = Bytes m)"
    using assms(1) by (simp add: index_ok_def)
  show "bget B d' BoltBucketOwnerIdx k = Some v \<longleftrightarrow>
    (\<exists>m c. live_bucket B d' m = Some c \<and> k = bOwnerID c @ keySeparator # m \<and> v = Bytes m)"
  proof (cases "k = bOwnerID b @ keySeparator # n")
    case True
    have "m = n" if "live_bucket B d m = Some c" "k = bOwnerID c @ keySeparator # m" for m c
      using key_inject[OF assms(3) assms(4)[OF that(1)], of n m] True that(2) by simp
    with True show ?thesis
      by (simp add: get live) (metis fun_upd_apply option.simps(3))
  next
    case False
    then have "(\<exists>m c. live_bucket B d' m = Some c \<and> k = bOwnerID c @ keySeparator # m \<and> v = Bytes m)
      \<longleftrightarrow> (\<exists>m c. live_bucket B d m = Some c \<and> k = bOwnerID c @ keySeparator # m \<and> v = Bytes m)"
      unfolding live using assms(2) by (metis (mono_tags, lifting) fun_upd_apply option.inject option.simps(3))
    with False old show ?thesis by (simp add: get)
  qed
qed

lemma live_no_nul:
  "records_ok B d \<Longrightarrow> live_bucket B d m = Some c \<Longrightarrow> no_nul (bOwnerID c)"
  by (erule live_bucketE) (auto simp: good_bucket_def)

subsection \<open>Create\<close>

lemma bucket_create_Inr:
  assumes inv: "meta_inv B d" and utf8: "utf8_bucket b" and fresh: "bDeletedAt b = None"
    and run: "BucketRepo_Create B ctx now b d = (Inr b', d')"
  shows "meta_inv B d' \<and> good_bucket b' \<and> live_bucket B d (bName b) = None \<and> b' = stamp_bucket now b
    \<and> live_bucket B d' = (live_bucket B d)(bName b \<mapsto> b') \<and> live_object B d' = live_object B d"
proof -
  from inv have r: "records_ok B d" and i: "index_ok B d" and ob: "objects_ok B d"
    and op: "opened B meta_bolt_buckets d" by (auto simp: meta_inv_def)
  from run obtain d1 where
    p1: "bput B BoltBucketRecords (bName b') (Text (bucket_json b')) d = Inr d1" and
    p2: "bput B BoltBucketOwnerIdx (bOwnerID b' @ keySeparator # bName b') (Bytes (bName b')) d1 = Inr d'" and
    b': "b' = stamp_bucket now b" and
    free: "live_bucket B d (bName b) = None" and
    nul: "no_nul (bOwnerID b')" "no_nul (bName b')"
    by (auto simp: BucketRepo_Create_def db_update_ok bucket_create_tx_def Let_def live_bucket_def
      split: option.splits sum.splits if_splits)
  from utf8 fresh nul b' have g: "utf8_bucket b'" "no_nul (bName b')" "no_nul (bOwnerID b')" "bDeletedAt b' = None"
    by simp_all
  have live: "live_bucket B d' = (live_bucket B d)(bName b' \<mapsto> b')"
    using records_put[OF p1 g(1)] g(4) live_bucket_cong[of B d' d1] put_get[OF p2] by simp
  have rec: "records_ok B d'"
    using records_ok_put[OF p1 r g(1-3)] by (simp add: records_ok_def put_get[OF p2])
  have idx: "index_ok B d'"
    by (rule index_ok_add[OF i _ g(2,3) live_no_nul[OF r] live])
      (use free b' in \<open>simp_all add: put_get[OF p2] put_get[OF p1]\<close>)
  have obj: "bget B d' BoltBucketObjects k = bget B d BoltBucketObjects k" for k
    by (simp add: put_get[OF p2] put_get[OF p1])
  have "opened B meta_bolt_buckets d'"
    using opened_put[OF p2] opened_put[OF p1] op by simp
  with rec idx ob obj have "meta_inv B d'"
    by (simp add: meta_inv_def objects_ok_def)
  with free b' g live live_object_cong[OF obj] show ?thesis by (simp add: good_bucket_def)
qed

lemma bucket_create_taken:
  assumes "records_ok B d" and "live_bucket B d (bName b) \<noteq> None"
  shows "BucketRepo_Create B ctx now b d = (Inl (Sentinel ErrAlreadyExists), d)"
proof -
  from assms(2) obtain c where c: "live_bucket B d (bName b) = Some c" by auto
  from live_bucketE[OF assms(1) c]
  have "bget B d BoltBucketRecords (bName b) = Some (Text (bucket_json c))" "good_bucket c"
    "unmarshal_bucket (Text (bucket_json c)) = Inr c" by auto
  then show ?thesis
    by (simp add: BucketRepo_Create_def db_update_def bucket_create_tx_def good_bucket_def)
qed

subsection \<open>ListByOwner\<close>

lemma owner_loop_Inr:
  assumes r: "records_ok B d" and "owner_loop B ctx d p n es acc = Inr bs"
  shows "bs = acc @ List.map_filter (entry_bucket B d) (takeWhile (\<lambda>e. prefix p (fst e)) es)"
  using assms(2)
proof (induction es arbitrary: n acc)
  case Nil
  then show ?case by simp
next
  case (Cons e es)
  obtain k v where e: "e = (k, v)" by (cases e)
  show ?case
  proof (cases "prefix p k")
    case False
    with Cons.prems e show ?thesis by simp
  next
    case True
    with Cons.prems e have ctx: "ctx n = None" by (auto split: option.splits)
    from index_target_entry[OF r, of v] show ?thesis
    proof
      assume "index_target B d v = None \<and> entry_bucket B d (k, v) = None"
      with Cons True ctx e show ?thesis by (auto simp: map_filter_simps)
    next
      assume "\<exists>raw b. index_target B d v = Some raw \<and> unmarshal_bucket raw = Inr b
        \<and> entry_bucket B d (k, v) = (if bDeletedAt b = None then Some b else None)"
      with Cons True ctx e show ?thesis
        by (fastforce simp: map_filter_simps split: if_splits)
    qed
  qed
qed

lemma owner_loop_background:
  assumes r: "records_ok B d"
  shows "\<exists>bs. owner_loop B background d p n es acc = Inr bs"
proof (induction es arbitrary: n acc)
  case Nil
  then show ?case by simp
next
  case (Cons e es)
  obtain k v where e: "e = (k, v)" by (cases e)
  from index_target_entry[OF r, of v k] Cons e show ?case by auto
qed

lemma map_filter_Some: "(\<And>x. x \<in> set xs \<Longrightarrow> f x = Some (g x)) \<Longrightarrow> List.map_filter f xs = map g xs"
  by (induction xs) (auto simp: map_filter_simps)

text \<open>
  With the index in order, every visited entry is the entry of a live bucket of the owner, the
  names come in increasing order because the keys do, and none is missing.
\<close>

lemma list_by_owner_Inr:
  assumes inv: "meta_inv B d" and run: "BucketRepo_ListByOwner B ctx owner d = Inr bs"
  shows "owner_listing (live_bucket B d) owner bs"
proof -
  from inv have r: "records_ok B d" and i: "index_ok B d" by (auto simp: meta_inv_def)
  let ?p = "owner @ [keySeparator]"
  let ?es = "scan B d BoltBucketOwnerIdx ?p"
  from run have o': "no_nul owner"
    and l: "owner_loop B ctx d ?p 0 (cursor B d BoltBucketOwnerIdx ?p) [] = Inr bs"
    by (auto simp: BucketRepo_ListByOwner_def split: sum.splits)
  from owner_loop_Inr[OF r l] have bs: "bs = List.map_filter (entry_bucket B d) ?es"
    by (simp add: scan_def)
  have entry: "\<exists>n b. e = (owner @ keySeparator # n, Bytes n) \<and> live_bucket B d n = Some b
      \<and> bOwnerID b = owner \<and> bName b = n"
    if "e \<in> set ?es" for e
  proof -
    obtain k v where e: "e = (k, v)" by (cases e)
    from that e have p: "prefix ?p k" and g: "bget B d BoltBucketOwnerIdx k = Some v"
      by (auto simp: set_scan)
    from i g obtain n b where nb: "live_bucket B d n = Some b" "k = bOwnerID b @ keySeparator # n"
      "v = Bytes n" by (auto simp: index_ok_def)
    from p nb(2) o' live_no_nul[OF r nb(1)] have "owner = bOwnerID b"
      by (auto simp: key_prefix)
    moreover from r nb(1) have "bName b = n" by (rule live_bucketE)
    ultimately show ?thesis using e nb by auto
  qed
  let ?b = "\<lambda>e. the (entry_bucket B d e)"
  have bs': "bs = map ?b ?es"
    unfolding bs by (rule map_filter_Some) (use entry in \<open>force simp: entry_bucket_def\<close>)
  have key: "fst e = owner @ keySeparator # bName (?b e)" if "e \<in> set ?es" for e
    using entry[OF that] by (auto simp: entry_bucket_def)
  have "sorted_wrt (\<lambda>x y. fst x < fst y) ?es"
    using sorted_scan[of d BoltBucketOwnerIdx ?p] by (simp add: sorted_wrt_map)
  then have "sorted_wrt (\<lambda>x y. bName (?b x) < bName (?b y)) ?es"
  proof (rule sorted_wrt_mono_rel[rotated])
    fix x y
    assume "x \<in> set ?es" "y \<in> set ?es" "fst x < fst y"
    then show "bName (?b x) < bName (?b y)"
      using key[of x] key[of y] by (simp add: append_less_same)
  qed
  then have "sorted_wrt (<) (map bName bs)"
    unfolding bs' by (simp add: sorted_wrt_map)
  moreover have "set bs = {b. \<exists>n. live_bucket B d n = Some b \<and> bOwnerID b = owner}"
  proof (intro set_eqI iffI)
    fix b
    assume "b \<in> set bs"
    then show "b \<in> {b. \<exists>n. live_bucket B d n = Some b \<and> bOwnerID b = owner}"
      unfolding bs' using entry by (fastforce simp: entry_bucket_def)
  next
    fix b
    assume "b \<in> {b. \<exists>n. live_bucket B d n = Some b \<and> bOwnerID b = owner}"
    then obtain n where n: "live_bucket B d n = Some b" "bOwnerID b = owner" by auto
    with i have "bget B d BoltBucketOwnerIdx (owner @ keySeparator # n) = Some (Bytes n)"
      by (auto simp: index_ok_def)
    then have "(owner @ keySeparator # n, Bytes n) \<in> set ?es"
      by (simp add: set_scan)
    moreover have "?b (owner @ keySeparator # n, Bytes n) = b"
      using n(1) by (simp add: entry_bucket_def)
    ultimately show "b \<in> set bs" unfolding bs' by force
  qed
  ultimately show ?thesis by (simp add: owner_listing_def)
qed

lemma list_by_owner_background:
  assumes "meta_inv B d" and "no_nul owner"
  shows "\<exists>bs. BucketRepo_ListByOwner B background owner d = Inr bs"
  using assms owner_loop_background by (simp add: BucketRepo_ListByOwner_def meta_inv_def)

subsection \<open>Delete\<close>

text \<open>The emptiness check over the object records of the bucket.\<close>

lemma occupied_loop_None:
  "occupied_loop ctx p n es = None \<Longrightarrow> (k, v) \<in> set (takeWhile (\<lambda>e. prefix p (fst e)) es) \<Longrightarrow>
     \<exists>ob. unmarshal_object v = Inr ob \<and> oDeletedAt ob \<noteq> None"
proof (induction ctx p n es rule: occupied_loop.induct)
  case (1 ctx p n)
  then show ?case by simp
next
  case (2 ctx p n k' v' es)
  then show ?case
    by (auto split: if_splits option.splits sum.splits)
qed

lemma occupied_loop_background:
  assumes "\<And>k v. (k, v) \<in> set es \<Longrightarrow> prefix p k \<Longrightarrow> \<exists>ob. unmarshal_object v = Inr ob"
  shows "occupied_loop background p n es \<in> {None, Some (Sentinel ErrBucketNotEmpty)}"
  using assms
proof (induction es arbitrary: n)
  case Nil
  then show ?case by simp
next
  case (Cons e es)
  obtain k v where e: "e = (k, v)" by (cases e)
  have IH: "occupied_loop background p (Suc n) es \<in> {None, Some (Sentinel ErrBucketNotEmpty)}"
    by (rule Cons.IH) (use Cons.prems in auto)
  show ?case
  proof (cases "prefix p k")
    case True
    with Cons.prems[of k v] e obtain ob where "unmarshal_object v = Inr ob" by auto
    with IH e show ?thesis by simp
  next
    case False
    with e show ?thesis by simp
  qed
qed

lemma occupied_loop_empty:
  assumes "objects_ok B d"
    and "occupied_loop ctx (n @ [keySeparator]) i (cursor B d BoltBucketObjects (n @ [keySeparator])) = None"
  shows "\<not> occupied_bucket B d n"
proof
  assume "occupied_bucket B d n"
  then obtain k ob where "live_object B d n k = Some ob" by (auto simp: occupied_bucket_def)
  then obtain v where v: "bget B d BoltBucketObjects (n @ keySeparator # k) = Some v"
    "unmarshal_object v = Inr ob" "oDeletedAt ob = None"
    by (auto simp: live_object_def split: option.splits sum.splits if_splits)
  then have "(n @ keySeparator # k, v) \<in> set (scan B d BoltBucketObjects (n @ [keySeparator]))"
    by (simp add: set_scan)
  with occupied_loop_None[OF assms(2)] v show False by (fastforce simp: scan_def)
qed

lemma bucket_delete_Inr:
  assumes inv: "meta_inv B d" and run: "BucketRepo_Delete B ctx now n d = (Inr u, d')"
  shows "meta_inv B d' \<and> live_bucket B d n \<noteq> None \<and> \<not> occupied_bucket B d n
    \<and> live_bucket B d' = (live_bucket B d)(n := None) \<and> live_object B d' = live_object B d"
proof -
  from inv have r: "records_ok B d" and i: "index_ok B d" and ob: "objects_ok B d"
    and op: "opened B meta_bolt_buckets d" by (auto simp: meta_inv_def)
  from run obtain b d1 where
    live: "live_bucket B d n = Some b" and
    p1: "bdel B BoltBucketOwnerIdx (bOwnerID b @ keySeparator # n) d = Inr d1" and
    empty: "occupied_loop ctx (n @ [keySeparator]) 0 (cursor B d1 BoltBucketObjects (n @ [keySeparator])) = None" and
    p2: "bput B BoltBucketRecords n (Text (bucket_json (b\<lparr>bDeletedAt := Some now\<rparr>))) d1 = Inr d'"
    by (auto simp: BucketRepo_Delete_def db_update_ok bucket_delete_tx_def live_bucket_def
      split: option.splits sum.splits if_splits)
  let ?b = "b\<lparr>bDeletedAt := Some now\<rparr>"
  from r live have name: "bName b = n" and good: "good_bucket b" by (auto elim: live_bucketE)
  then have g: "utf8_bucket ?b" "no_nul (bName ?b)" "no_nul (bOwnerID ?b)"
    by (simp_all add: good_bucket_def utf8_bucket_def)
  have p2': "bput B BoltBucketRecords (bName ?b) (Text (bucket_json ?b)) d1 = Inr d'"
    using p2 name by simp
  have live1: "live_bucket B d1 = live_bucket B d" by (rule live_bucket_cong) (simp add: del_get[OF p1])
  have live': "live_bucket B d' = (live_bucket B d)(n := None)"
    using records_put[OF p2' g(1)] live1 name by simp
  have "records_ok B d1" using r by (simp add: records_ok_def del_get[OF p1])
  then have rec: "records_ok B d'" by (rule records_ok_put[OF p2' _ g])
  have idx: "index_ok B d'"
    by (rule index_ok_remove[OF i live _ live_no_nul[OF r] live'])
      (use g in \<open>simp_all add: put_get[OF p2] del_get[OF p1]\<close>)
  have obj: "bget B d' BoltBucketObjects k = bget B d BoltBucketObjects k" for k
    by (simp add: put_get[OF p2] del_get[OF p1])
  have obj1: "live_object B d1 = live_object B d" by (rule live_object_cong) (simp add: del_get[OF p1])
  have "objects_ok B d1" using ob by (simp add: objects_ok_def del_get[OF p1])
  from occupied_loop_empty[OF this empty] have "\<not> occupied_bucket B d n"
    by (simp add: occupied_bucket_def obj1)
  moreover have "opened B meta_bolt_buckets d'"
    using opened_put[OF p2] opened_del[OF p1] op by simp
  ultimately show ?thesis
    using rec idx ob obj live live' live_object_cong[of B d' d, OF obj]
    by (simp add: meta_inv_def objects_ok_def)
qed

lemma bucket_delete_missing:
  assumes "records_ok B d" and "live_bucket B d n = None"
  shows "BucketRepo_Delete B ctx now n d = (Inl (Sentinel ErrNotFound), d)"
proof (cases "bget B d BoltBucketRecords n")
  case None
  then show ?thesis by (simp add: BucketRepo_Delete_def db_update_def bucket_delete_tx_def)
next
  case (Some v)
  with assms(1) obtain b where "unmarshal_bucket v = Inr b" by (rule records_okE)
  with Some assms(2) show ?thesis
    by (auto simp: BucketRepo_Delete_def db_update_def bucket_delete_tx_def live_bucket_def)
qed

end

section \<open>The contract\<close>

text \<open>The repository on bbolt keeps the contract of its interface, over every store with the laws.\<close>

sublocale bolt_store \<subseteq> buckets: bucket_contract "BoltBucketRepository B" "meta_inv B"
  "live_bucket B" "occupied_bucket B"
proof (unfold_locales, goal_cases)
  case (1 d n b)
  then show ?case by (auto simp: meta_inv_def elim: live_bucketE)
next
  case (2 d n b)
  then show ?case by (auto simp: meta_inv_def elim: live_bucketE)
next
  case (3 d ctx n)
  then show ?case by (simp add: meta_inv_def GetByName_eq)
next
  case (4 d b ctx now)
  then show ?case by (simp add: meta_inv_def bucket_create_taken)
next
  case (5 ctx now b d e d')
  then show ?case by (auto simp: BucketRepo_Create_def dest: db_update_error)
next
  case (6 d b ctx now b' d')
  then show ?case
    using bucket_create_Inr[of d b ctx now b' d'] occupied_bucket_cong[of B d' d] by auto
next
  case (7 d ctx owner bs)
  then show ?case by (simp add: list_by_owner_Inr)
next
  case (8 d n ctx now)
  then show ?case by (simp add: meta_inv_def bucket_delete_missing)
next
  case (9 ctx now n d e d')
  then show ?case by (auto simp: BucketRepo_Delete_def dest: db_update_error)
next
  case (10 d ctx now n u d')
  then show ?case
    using bucket_delete_Inr[of d ctx now n u d'] occupied_bucket_cong[of B d' d] by simp
qed

end
