(* ===== verification/Meta_Object_Repo.thy ===== *)
theory Meta_Object_Repo
  imports Meta_Bucket_Repo
begin

text \<open>
  The object repository on bbolt (\<open>internal/repository/object_repository.go\<close>): object records
  under composite keys, soft deletion, prefix listing with a limit, and counting.
\<close>

section \<open>Put and Get\<close>

definition object_put_tx :: "'d bolt \<Rightarrow> time \<Rightarrow> object \<Rightarrow> 'd \<Rightarrow> go_error + object \<times> 'd" where
  "object_put_tx B now ob d =
     (case ObjectKey (oBucketName ob) (oObjectKey ob) of
        Inl e \<Rightarrow> Inl (Wrap [Lit ''build object key: ''] e [])
      | Inr key \<Rightarrow>
          (let ob' = stamp_object now ob
           in case bput B BoltBucketObjects key (Text (object_json ob')) d of
                Inl e \<Rightarrow> Inl e
              | Inr d' \<Rightarrow> Inr (ob', d')))"

definition ObjectRepo_Put ::
    "'d bolt \<Rightarrow> ctx \<Rightarrow> time \<Rightarrow> object \<Rightarrow> 'd \<Rightarrow> (go_error + object) \<times> 'd" where
  "ObjectRepo_Put B ctx now ob = db_update B (object_put_tx B now ob)"

definition ObjectRepo_Get ::
    "'d bolt \<Rightarrow> ctx \<Rightarrow> string \<Rightarrow> string \<Rightarrow> 'd \<Rightarrow> go_error + object" where
  "ObjectRepo_Get B ctx bucketName key d =
     (case ObjectKey bucketName key of
        Inl e \<Rightarrow> Inl (Wrap [Lit ''build object key: ''] e [])
      | Inr objKey \<Rightarrow>
          (case bget B d BoltBucketObjects objKey of
             None \<Rightarrow> Inl (Sentinel ErrNotFound)
           | Some raw \<Rightarrow>
               (case unmarshal_object raw of
                  Inl e \<Rightarrow> Inl (Wrap [Lit ''unmarshal object at key '', Quoted objKey, Lit '': ''] e [])
                | Inr ob \<Rightarrow> if oDeletedAt ob \<noteq> None then Inl (Sentinel ErrNotFound) else Inr ob)))"

section \<open>List and CountByBucketName\<close>

text \<open>
  The listing loop: stop at the first key without the prefix, then at the limit, then poll the
  context, then read the object and skip a deleted one.
\<close>

fun list_loop ::
    "ctx \<Rightarrow> bytes \<Rightarrow> int \<Rightarrow> nat \<Rightarrow> (bytes \<times> stored) list \<Rightarrow> object list \<Rightarrow> go_error + object list"
  where
  "list_loop ctx p limit n [] objects = Inr objects"
| "list_loop ctx p limit n ((k, v) # es) objects =
     (if \<not> prefix p k then Inr objects
      else if int (length objects) \<ge> limit then Inr objects
      else case ctx n of
        Some err \<Rightarrow> Inl err
      | None \<Rightarrow>
          (case unmarshal_object v of
             Inl e \<Rightarrow> Inl (Wrap [Lit ''unmarshal object at key '', Quoted k, Lit '': ''] e [])
           | Inr ob \<Rightarrow>
               if oDeletedAt ob \<noteq> None then list_loop ctx p limit (Suc n) es objects
               else list_loop ctx p limit (Suc n) es (objects @ [ob])))"

definition ObjectRepo_List ::
    "'d bolt \<Rightarrow> ctx \<Rightarrow> string \<Rightarrow> string \<Rightarrow> int \<Rightarrow> 'd \<Rightarrow> go_error + object list" where
  "ObjectRepo_List B ctx bucketName pref limit d =
     (let limit = (if limit \<le> 0 then 1000 else limit)
      in case ObjectListPrefix bucketName pref of
           Inl e \<Rightarrow> Inl (Wrap [Lit ''build object list prefix: ''] e [])
         | Inr scanPrefix \<Rightarrow>
             list_loop ctx scanPrefix limit 0 (cursor B d BoltBucketObjects scanPrefix) [])"

fun count_loop :: "ctx \<Rightarrow> bytes \<Rightarrow> nat \<Rightarrow> (bytes \<times> stored) list \<Rightarrow> nat \<Rightarrow> go_error + nat" where
  "count_loop ctx p n [] count = Inr count"
| "count_loop ctx p n ((k, v) # es) count =
     (if \<not> prefix p k then Inr count
      else case ctx n of
        Some err \<Rightarrow> Inl err
      | None \<Rightarrow>
          (case unmarshal_object v of
             Inl e \<Rightarrow> Inl (Wrap [Lit ''unmarshal object at key '', Quoted k, Lit '': ''] e [])
           | Inr ob \<Rightarrow>
               count_loop ctx p (Suc n) es (if oDeletedAt ob = None then Suc count else count)))"

definition ObjectRepo_CountByBucketName :: "'d bolt \<Rightarrow> ctx \<Rightarrow> string \<Rightarrow> 'd \<Rightarrow> go_error + nat" where
  "ObjectRepo_CountByBucketName B ctx bucketName d =
     (case ObjectListPrefix bucketName [] of
        Inl e \<Rightarrow> Inl (Wrap [Lit ''build object list prefix: ''] e [])
      | Inr scanPrefix \<Rightarrow> count_loop ctx scanPrefix 0 (cursor B d BoltBucketObjects scanPrefix) 0)"

section \<open>Delete\<close>

definition object_delete_tx ::
    "'d bolt \<Rightarrow> time \<Rightarrow> string \<Rightarrow> string \<Rightarrow> 'd \<Rightarrow> go_error + unit \<times> 'd" where
  "object_delete_tx B now bucketName key d =
     (case ObjectKey bucketName key of
        Inl e \<Rightarrow> Inl (Wrap [Lit ''build object key: ''] e [])
      | Inr objKey \<Rightarrow>
          (case bget B d BoltBucketObjects objKey of
             None \<Rightarrow> Inl (Sentinel ErrNotFound)
           | Some raw \<Rightarrow>
               (case unmarshal_object raw of
                  Inl e \<Rightarrow> Inl (Wrap [Lit ''unmarshal object at key '', Quoted objKey, Lit '': ''] e [])
                | Inr ob \<Rightarrow>
                    if oDeletedAt ob \<noteq> None then Inl (Sentinel ErrNotFound)
                    else
                      (case bput B BoltBucketObjects objKey
                              (Text (object_json (ob\<lparr>oDeletedAt := Some now\<rparr>))) d of
                         Inl e \<Rightarrow> Inl e
                       | Inr d' \<Rightarrow> Inr ((), d')))))"

definition ObjectRepo_Delete ::
    "'d bolt \<Rightarrow> ctx \<Rightarrow> time \<Rightarrow> string \<Rightarrow> string \<Rightarrow> 'd \<Rightarrow> (go_error + unit) \<times> 'd" where
  "ObjectRepo_Delete B ctx now bucketName key = db_update B (object_delete_tx B now bucketName key)"

definition BoltObjectRepository :: "'d bolt \<Rightarrow> 'd object_repository" where
  "BoltObjectRepository B =
     \<lparr>or_put = ObjectRepo_Put B, or_get = ObjectRepo_Get B, or_list = ObjectRepo_List B,
      or_delete = ObjectRepo_Delete B, or_count = ObjectRepo_CountByBucketName B\<rparr>"

lemma BoltObjectRepository_sel [simp]:
  "or_put (BoltObjectRepository B) = ObjectRepo_Put B"
  "or_get (BoltObjectRepository B) = ObjectRepo_Get B"
  "or_list (BoltObjectRepository B) = ObjectRepo_List B"
  "or_delete (BoltObjectRepository B) = ObjectRepo_Delete B"
  "or_count (BoltObjectRepository B) = ObjectRepo_CountByBucketName B"
  by (simp_all add: BoltObjectRepository_def)

section \<open>Reading the state\<close>

lemma live_object_no_nul:
  "live_object B d b k = Some ob \<Longrightarrow> no_nul b \<and> no_nul k \<and> oDeletedAt ob = None"
  by (auto simp: live_object_def split: option.splits sum.splits if_splits)

lemma ObjectRepo_Get_eq:
  assumes "objects_ok B d" and "no_nul b" and "no_nul k"
  shows "ObjectRepo_Get B ctx b k d =
    (case live_object B d b k of None \<Rightarrow> Inl (Sentinel ErrNotFound) | Some ob \<Rightarrow> Inr ob)"
proof (cases "bget B d BoltBucketObjects (b @ keySeparator # k)")
  case None
  with assms show ?thesis by (simp add: ObjectRepo_Get_def live_object_def)
next
  case (Some v)
  with assms(1) obtain ob where "unmarshal_object v = Inr (norm_object ob)" by (rule objects_okE)
  with Some assms(2,3) show ?thesis by (auto simp: ObjectRepo_Get_def live_object_def)
qed

text \<open>The live object an entry of the object records holds.\<close>

definition entry_object :: "bytes \<times> stored \<Rightarrow> object option" where
  "entry_object e =
     (case unmarshal_object (snd e) of
        Inl _ \<Rightarrow> None
      | Inr ob \<Rightarrow> if oDeletedAt ob = None then Some ob else None)"

lemma list_loop_Inr:
  "list_loop ctx p limit n es acc = Inr obs \<Longrightarrow> int (length acc) \<le> limit \<Longrightarrow>
     obs = take (nat limit) (acc @ List.map_filter entry_object (takeWhile (\<lambda>e. prefix p (fst e)) es))"
proof (induction es arbitrary: n acc)
  case Nil
  then show ?case by simp
next
  case (Cons e es)
  obtain k v where e: "e = (k, v)" by (cases e)
  consider "\<not> prefix p k" | "prefix p k" "int (length acc) = limit"
    | "prefix p k" "int (length acc) < limit"
    using Cons.prems(2) by linarith
  then show ?case
  proof cases
    case 1
    with Cons.prems e show ?thesis by simp
  next
    case 2
    with Cons.prems e show ?thesis by auto
  next
    case 3
    from Cons.prems(1) e 3 obtain ob where u: "unmarshal_object v = Inr ob"
      by (auto split: option.splits sum.splits)
    show ?thesis
    proof (cases "oDeletedAt ob = None")
      case True
      with Cons.prems(1) e 3 u have "list_loop ctx p limit (Suc n) es (acc @ [ob]) = Inr obs"
        by (auto split: option.splits)
      moreover have "entry_object e = Some ob" using e u True by (simp add: entry_object_def)
      ultimately show ?thesis using Cons.IH[of "Suc n" "acc @ [ob]"] 3 e
        by (simp add: map_filter_simps)
    next
      case False
      with Cons.prems(1) e 3 u have "list_loop ctx p limit (Suc n) es acc = Inr obs"
        by (auto split: option.splits)
      moreover have "entry_object e = None" using e u False by (auto simp: entry_object_def)
      ultimately show ?thesis using Cons.IH[of "Suc n" acc] 3 e
        by (simp add: map_filter_simps)
    qed
  qed
qed

lemma count_loop_Inr:
  "count_loop ctx p n es c = Inr r \<Longrightarrow>
     r = c + length (List.map_filter entry_object (takeWhile (\<lambda>e. prefix p (fst e)) es))"
proof (induction es arbitrary: n c)
  case Nil
  then show ?case by simp
next
  case (Cons e es)
  obtain k v where e: "e = (k, v)" by (cases e)
  show ?case
  proof (cases "prefix p k")
    case False
    with Cons.prems e show ?thesis by simp
  next
    case True
    with Cons.prems e obtain ob where u: "unmarshal_object v = Inr ob"
      and r: "count_loop ctx p (Suc n) es (if oDeletedAt ob = None then Suc c else c) = Inr r"
      by (auto split: option.splits sum.splits)
    from Cons.IH[OF r] True e u show ?thesis
      by (simp add: map_filter_simps entry_object_def)
  qed
qed

section \<open>The transactions\<close>

context bolt_store
begin

text \<open>
  The live objects that a scan of a bucket visits: the object keys in increasing order, each
  once, with their live objects.
\<close>

lemma scan_objects:
  assumes "no_nul b" and "no_nul p" and ok: "objects_ok B d"
  shows "\<exists>ks. sorted_wrt (<) ks \<and> set ks = {k. live_object B d b k \<noteq> None \<and> prefix p k}
    \<and> List.map_filter entry_object (scan B d BoltBucketObjects (b @ keySeparator # p))
      = map (\<lambda>k. the (live_object B d b k)) ks"
proof -
  let ?es = "scan B d BoltBucketObjects (b @ keySeparator # p)"
  let ?live = "filter (\<lambda>e. entry_object e \<noteq> None) ?es"
  define key where "key e = drop (Suc (length b)) (fst e)" for e :: "bytes \<times> stored"
  have entry: "fst e = b @ keySeparator # key e \<and> prefix p (key e) \<and> no_nul (key e)
      \<and> bget B d BoltBucketObjects (fst e) = Some (snd e)" if "e \<in> set ?es" for e
  proof -
    obtain k v where e: "e = (k, v)" by (cases e)
    from that e have g: "bget B d BoltBucketObjects k = Some v" and pk: "prefix (b @ keySeparator # p) k"
      by (auto simp: set_scan)
    from pk obtain y where y: "k = b @ keySeparator # y" "prefix p y" by (rule key_prefix_dest)
    from ok g obtain ob :: object where ob: "no_nul (oBucketName ob)" "no_nul (oObjectKey ob)"
      "k = oBucketName ob @ keySeparator # oObjectKey ob" by (rule objects_okE) blast
    with y assms(1) have "y = oObjectKey ob" by (simp add: key_inject)
    with y ob e g show ?thesis by (simp add: key_def)
  qed
  have live: "entry_object e = live_object B d b (key e)" if "e \<in> set ?es" for e
    using entry[OF that] assms(1)
    by (auto simp: entry_object_def live_object_def split: sum.split)
  have "sorted_wrt (\<lambda>x y. fst x < fst y) ?es"
    using sorted_scan by (simp add: sorted_wrt_map)
  then have "sorted_wrt (\<lambda>x y. key x < key y) ?es"
  proof (rule sorted_wrt_mono_rel[rotated])
    fix x y
    assume xy: "x \<in> set ?es" "y \<in> set ?es" "fst x < fst y"
    have "b @ keySeparator # key x < b @ keySeparator # key y"
      using entry[OF xy(1)] entry[OF xy(2)] xy(3) by metis
    then show "key x < key y" by simp
  qed
  then have sorted: "sorted_wrt (<) (map key ?live)"
    by (simp add: sorted_wrt_map sorted_wrt_filter)
  have set: "set (map key ?live) = {k. live_object B d b k \<noteq> None \<and> prefix p k}"
  proof (intro set_eqI iffI)
    fix k
    assume "k \<in> set (map key ?live)"
    then show "k \<in> {k. live_object B d b k \<noteq> None \<and> prefix p k}"
      using entry live by fastforce
  next
    fix k
    assume "k \<in> {k. live_object B d b k \<noteq> None \<and> prefix p k}"
    then obtain v where v: "bget B d BoltBucketObjects (b @ keySeparator # k) = Some v" "prefix p k"
      "live_object B d b k \<noteq> None"
      by (auto simp: live_object_def split: option.splits)
    then have e: "(b @ keySeparator # k, v) \<in> set ?es" by (simp add: set_scan)
    moreover have "key (b @ keySeparator # k, v) = k" by (simp add: key_def)
    ultimately show "k \<in> set (map key ?live)" using live[OF e] v(3) by force
  qed
  have "List.map_filter entry_object ?es = map (\<lambda>e. the (entry_object e)) ?live"
    by (simp add: List.map_filter_def comp_def)
  also have "\<dots> = map (\<lambda>k. the (live_object B d b k)) (map key ?live)"
    using live by simp
  finally show ?thesis using sorted set by blast
qed

lemma object_list_Inr:
  assumes "objects_ok B d" and run: "ObjectRepo_List B ctx b p limit d = Inr obs"
  shows "object_listing (live_object B d b) p (list_limit limit) obs"
proof -
  let ?lim = "if limit \<le> 0 then 1000 else limit"
  from run have n: "no_nul b" "no_nul p"
    and l: "list_loop ctx (b @ keySeparator # p) ?lim 0
      (cursor B d BoltBucketObjects (b @ keySeparator # p)) [] = Inr obs"
    by (auto simp: ObjectRepo_List_def Let_def split: sum.splits)
  from list_loop_Inr[OF l]
  have "obs = take (nat ?lim) (List.map_filter entry_object (scan B d BoltBucketObjects (b @ keySeparator # p)))"
    by (simp add: scan_def)
  with scan_objects[OF n assms(1)] show ?thesis
    by (auto simp: object_listing_def list_limit_def)
qed

lemma object_count_Inr:
  assumes "objects_ok B d" and run: "ObjectRepo_CountByBucketName B ctx b d = Inr c"
  shows "c = card (dom (live_object B d b))"
proof -
  from run have n: "no_nul b"
    and l: "count_loop ctx (b @ [keySeparator]) 0 (cursor B d BoltBucketObjects (b @ [keySeparator])) 0 = Inr c"
    by (auto simp: ObjectRepo_CountByBucketName_def split: sum.splits)
  obtain ks where ks: "sorted_wrt (<) ks" "set ks = {k. live_object B d b k \<noteq> None \<and> prefix [] k}"
    "List.map_filter entry_object (scan B d BoltBucketObjects (b @ [keySeparator]))
      = map (\<lambda>k. the (live_object B d b k)) ks"
    using scan_objects[OF n no_nul_Nil assms(1)] by auto
  from count_loop_Inr[OF l] ks(3) have "c = length ks" by (simp add: scan_def)
  also have "\<dots> = card (set ks)"
    using sorted_less_distinct[OF ks(1)] by (simp add: distinct_card)
  also have "set ks = dom (live_object B d b)"
    by (auto simp: ks(2))
  finally show ?thesis .
qed

text \<open>Storing an object record.\<close>

lemma objects_put:
  assumes p: "bput B BoltBucketObjects (b @ keySeparator # k) (Text (object_json ob)) d = Inr d'"
    and inv: "meta_inv B d" and key: "oBucketName ob = b" "oObjectKey ob = k" "no_nul b" "no_nul k"
  shows "meta_inv B d' \<and> live_object B d' = (live_object B d)
     (b := (live_object B d b)(k := if oDeletedAt ob = None then Some (norm_object ob) else None))
    \<and> live_bucket B d' = live_bucket B d"
proof -
  have rec: "bget B d' BoltBucketRecords n = bget B d BoltBucketRecords n" for n
    by (simp add: put_get[OF p])
  have live: "live_bucket B d' = live_bucket B d" by (rule live_bucket_cong) (rule rec)
  have "index_ok B d'" using inv by (simp add: meta_inv_def index_ok_def live put_get[OF p])
  moreover have "records_ok B d'" using inv by (simp add: meta_inv_def records_ok_def rec)
  moreover have "objects_ok B d'"
    using inv key by (auto simp: meta_inv_def objects_ok_def put_get[OF p])
  moreover have "opened B meta_bolt_buckets d'"
    using inv opened_put[OF p] by (simp add: meta_inv_def)
  moreover have "live_object B d' x y = ((live_object B d)
     (b := (live_object B d b)(k := if oDeletedAt ob = None then Some (norm_object ob) else None))) x y"
    for x y
  proof (cases "no_nul x \<and> no_nul y")
    case True
    with key have "x @ keySeparator # y = b @ keySeparator # k \<longleftrightarrow> x = b \<and> y = k"
      by (simp add: key_inject)
    with True key show ?thesis by (auto simp: live_object_def put_get[OF p])
  next
    case False
    then have "live_object B e x y = None" for e
      using live_object_no_nul[of B e x y] by (cases "live_object B e x y") auto
    with False key show ?thesis by auto
  qed
  ultimately show ?thesis using live by (simp add: meta_inv_def fun_eq_iff)
qed

lemma object_put_Inr:
  assumes "meta_inv B d" and "oDeletedAt ob = None"
    and run: "ObjectRepo_Put B ctx now ob d = (Inr ob', d')"
  shows "meta_inv B d' \<and> ob' = stamp_object now ob \<and> no_nul (oBucketName ob) \<and> no_nul (oObjectKey ob)
    \<and> live_object B d' = (live_object B d)
        (oBucketName ob := (live_object B d (oBucketName ob))(oObjectKey ob \<mapsto> norm_object ob'))
    \<and> live_bucket B d' = live_bucket B d"
proof -
  from run have ob': "ob' = stamp_object now ob" and n: "no_nul (oBucketName ob)" "no_nul (oObjectKey ob)"
    and p: "bput B BoltBucketObjects (oBucketName ob @ keySeparator # oObjectKey ob)
      (Text (object_json ob')) d = Inr d'"
    by (auto simp: ObjectRepo_Put_def db_update_ok object_put_tx_def Let_def split: sum.splits)
  from objects_put[OF p assms(1)] ob' n assms(2) show ?thesis by simp
qed

lemma object_delete_Inr:
  assumes inv: "meta_inv B d" and run: "ObjectRepo_Delete B ctx now b k d = (Inr u, d')"
  shows "meta_inv B d' \<and> live_object B d b k \<noteq> None
    \<and> live_object B d' = (live_object B d)(b := (live_object B d b)(k := None))
    \<and> live_bucket B d' = live_bucket B d"
proof -
  from run obtain v ob where n: "no_nul b" "no_nul k"
    and g: "bget B d BoltBucketObjects (b @ keySeparator # k) = Some v"
    and u: "unmarshal_object v = Inr ob" "oDeletedAt ob = None"
    and p: "bput B BoltBucketObjects (b @ keySeparator # k)
      (Text (object_json (ob\<lparr>oDeletedAt := Some now\<rparr>))) d = Inr d'"
    by (auto simp: ObjectRepo_Delete_def db_update_ok object_delete_tx_def
      split: sum.splits option.splits if_splits)
  from inv g obtain ob0 where ob0: "v = Text (object_json ob0)" "unmarshal_object v = Inr (norm_object ob0)"
    "no_nul (oBucketName ob0)" "no_nul (oObjectKey ob0)"
    "b @ keySeparator # k = oBucketName ob0 @ keySeparator # oObjectKey ob0"
    by (auto simp: meta_inv_def elim: objects_okE)
  with n have key: "oBucketName ob0 = b" "oObjectKey ob0 = k" by (auto simp: key_inject)
  from ob0(2) u(1) have "ob = norm_object ob0" by simp
  then have j: "object_json (ob\<lparr>oDeletedAt := Some now\<rparr>) = object_json (ob0\<lparr>oDeletedAt := Some now\<rparr>)"
    by (simp add: object_json_def jstr_def)
  from objects_put[OF p[unfolded j] inv] key n g u show ?thesis
    by (simp add: live_object_def)
qed

lemma object_delete_missing:
  assumes "objects_ok B d" and "no_nul b" "no_nul k" and "live_object B d b k = None"
  shows "ObjectRepo_Delete B ctx now b k d = (Inl (Sentinel ErrNotFound), d)"
proof (cases "bget B d BoltBucketObjects (b @ keySeparator # k)")
  case None
  with assms show ?thesis by (simp add: ObjectRepo_Delete_def db_update_def object_delete_tx_def)
next
  case (Some v)
  with assms(1) obtain ob where "unmarshal_object v = Inr (norm_object ob)" by (rule objects_okE)
  with Some assms(2-) show ?thesis
    by (auto simp: ObjectRepo_Delete_def db_update_def object_delete_tx_def live_object_def)
qed

end

section \<open>The contract\<close>

sublocale bolt_store \<subseteq> objects: object_contract "BoltObjectRepository B" "meta_inv B" "live_object B"
proof (unfold_locales, goal_cases)
  case (1 d b k ob)
  then show ?case by (simp add: live_object_no_nul)
next
  case (2 d b k ctx)
  then show ?case by (simp add: meta_inv_def ObjectRepo_Get_eq)
next
  case (3 ctx now ob d e d')
  then show ?case by (auto simp: ObjectRepo_Put_def dest: db_update_error)
next
  case (4 d ob ctx now ob' d')
  then show ?case using object_put_Inr[of d ob ctx now ob' d'] by simp
next
  case (5 d ctx b p limit obs)
  then show ?case by (simp add: meta_inv_def object_list_Inr)
next
  case (6 d b k ctx now)
  then show ?case by (simp add: meta_inv_def object_delete_missing)
next
  case (7 ctx now b k d e d')
  then show ?case by (auto simp: ObjectRepo_Delete_def dest: db_update_error)
next
  case (8 d ctx now b k u d')
  then show ?case using object_delete_Inr[of d ctx now b k u d'] by simp
next
  case (9 d ctx b n)
  then show ?case by (simp add: meta_inv_def object_count_Inr)
qed

end
