(* ===== verification/Meta_Service.thy ===== *)
theory Meta_Service
  imports Meta_Object_Repo
begin

text \<open>
  The services of metadata-service (\<open>internal/service\<close>): validation of the input, then the
  repositories.  The services see the repositories through their interfaces, so the lemmas are
  proved once against the contracts and hold for the bbolt repositories by the sublocale at the
  end.  A fresh identifier (\<open>uuid.NewString()\<close>, third-party) is an argument.
\<close>

section \<open>Bucket names\<close>

definition lower_alnum :: "char \<Rightarrow> bool" where
  "lower_alnum c \<longleftrightarrow> byte_in 97 122 c \<or> byte_in 48 57 c"

definition name_char :: "char \<Rightarrow> bool" where
  "name_char c \<longleftrightarrow> lower_alnum c \<or> c = CHR ''-''"

text \<open>\<open>^[a-z0-9][a-z0-9-]{1,61}[a-z0-9]$\<close>\<close>

definition bucketNameRE :: "re_item list" where
  "bucketNameRE = [Rep lower_alnum 1 1, Rep name_char 1 61, Rep lower_alnum 1 1]"

definition invalid_input :: "message \<Rightarrow> go_error" where
  "invalid_input m = Wrap [] (Sentinel ErrInvalidInput) m"

section \<open>Bucket service\<close>

definition CreateBucket ::
    "'d bucket_repository \<Rightarrow> ctx \<Rightarrow> time \<Rightarrow> string \<Rightarrow> string \<Rightarrow> string \<Rightarrow> 'd
       \<Rightarrow> (go_error + bucket) \<times> 'd"
  where
  "CreateBucket R ctx now uuid name ownerID d =
     (if \<not> re_match bucketNameRE name then
        (Inl (invalid_input [Lit '': bucket name must be 3-63 lowercase alphanumeric/hyphen characters, got '',
           Quoted name]), d)
      else if ownerID = [] then (Inl (invalid_input [Lit '': owner_id is required'']), d)
      else
        (let b = \<lparr>bID = uuid, bName = name, bOwnerID = ownerID, bIsVersioned = False,
                   bDeletedAt = None, bCreatedAt = 0\<rparr>
         in br_create R ctx now b d))"

definition GetBucket :: "'d bucket_repository \<Rightarrow> ctx \<Rightarrow> string \<Rightarrow> 'd \<Rightarrow> go_error + bucket" where
  "GetBucket R ctx name d =
     (if name = [] then Inl (invalid_input [Lit '': bucket name is required''])
      else br_get R ctx name d)"

definition ListBuckets :: "'d bucket_repository \<Rightarrow> ctx \<Rightarrow> string \<Rightarrow> 'd \<Rightarrow> go_error + bucket list" where
  "ListBuckets R ctx ownerID d =
     (if ownerID = [] then Inl (invalid_input [Lit '': owner_id is required''])
      else br_list R ctx ownerID d)"

definition DeleteBucket ::
    "'d bucket_repository \<Rightarrow> ctx \<Rightarrow> time \<Rightarrow> string \<Rightarrow> 'd \<Rightarrow> (go_error + unit) \<times> 'd" where
  "DeleteBucket R ctx now name d =
     (if name = [] then (Inl (invalid_input [Lit '': bucket name is required'']), d)
      else br_delete R ctx now name d)"

section \<open>Object service\<close>

text \<open>
  \<open>PutObject\<close> in the two transactions the code runs: the validation and the check that the
  bucket exists (a read transaction), then the write of the record.  Between them other requests
  can run.
\<close>

definition put_object_check ::
    "'d bucket_repository \<Rightarrow> ctx \<Rightarrow> string \<Rightarrow> string \<Rightarrow> 64 word \<Rightarrow> string \<Rightarrow> 'd \<Rightarrow> go_error option"
  where
  "put_object_check R ctx bucketName key sizeBytes storageRef d =
     (if bucketName = [] then Some (invalid_input [Lit '': bucket name is required''])
      else if key = [] then Some (invalid_input [Lit '': object key is required''])
      else if sint sizeBytes < 0 then
        Some (invalid_input [Lit '': size_bytes must be non-negative, got '', Dec (sint sizeBytes)])
      else if storageRef = [] then Some (invalid_input [Lit '': storage_ref is required''])
      else case br_get R ctx bucketName d of Inl err \<Rightarrow> Some err | Inr _ \<Rightarrow> None)"

definition put_object_record ::
    "string \<Rightarrow> string \<Rightarrow> string \<Rightarrow> 64 word \<Rightarrow> string \<Rightarrow> string \<Rightarrow> string \<Rightarrow> object" where
  "put_object_record uuid bucketName key sizeBytes etag contentType storageRef =
     \<lparr>oID = uuid, oObjectKey = key, oBucketName = bucketName, oSizeBytes = sizeBytes, oETag = etag,
      oContentType = contentType, oStorageRef = storageRef, oVersionID = ''null'', oIsLatest = True,
      oCreatedAt = 0, oDeletedAt = None\<rparr>"

definition PutObject ::
    "'d object_repository \<Rightarrow> 'd bucket_repository \<Rightarrow> ctx \<Rightarrow> time \<Rightarrow> string \<Rightarrow> string \<Rightarrow> string
       \<Rightarrow> 64 word \<Rightarrow> string \<Rightarrow> string \<Rightarrow> string \<Rightarrow> 'd \<Rightarrow> (go_error + object) \<times> 'd"
  where
  "PutObject S R ctx now uuid bucketName key sizeBytes etag contentType storageRef d =
     (case put_object_check R ctx bucketName key sizeBytes storageRef d of
        Some err \<Rightarrow> (Inl err, d)
      | None \<Rightarrow>
          or_put S ctx now
            (put_object_record uuid bucketName key sizeBytes etag contentType storageRef) d)"

definition GetObject ::
    "'d object_repository \<Rightarrow> ctx \<Rightarrow> string \<Rightarrow> string \<Rightarrow> 'd \<Rightarrow> go_error + object" where
  "GetObject S ctx bucketName key d =
     (if bucketName = [] then Inl (invalid_input [Lit '': bucket name is required''])
      else if key = [] then Inl (invalid_input [Lit '': object key is required''])
      else or_get S ctx bucketName key d)"

definition ListObjects ::
    "'d object_repository \<Rightarrow> ctx \<Rightarrow> string \<Rightarrow> string \<Rightarrow> int \<Rightarrow> 'd \<Rightarrow> go_error + object list" where
  "ListObjects S ctx bucketName pref limit d =
     (if bucketName = [] then Inl (invalid_input [Lit '': bucket name is required''])
      else or_list S ctx bucketName pref limit d)"

definition DeleteObject ::
    "'d object_repository \<Rightarrow> ctx \<Rightarrow> time \<Rightarrow> string \<Rightarrow> string \<Rightarrow> 'd \<Rightarrow> (go_error + unit) \<times> 'd" where
  "DeleteObject S ctx now bucketName key d =
     (if bucketName = [] then (Inl (invalid_input [Lit '': bucket name is required'']), d)
      else if key = [] then (Inl (invalid_input [Lit '': object key is required'']), d)
      else or_delete S ctx now bucketName key d)"

section \<open>What the name check accepts\<close>

lemma bucketNameRE_iff:
  "re_match bucketNameRE s \<longleftrightarrow>
     3 \<le> length s \<and> length s \<le> 63 \<and> list_all name_char s \<and> lower_alnum (hd s) \<and> lower_alnum (last s)"
  (is "_ \<longleftrightarrow> ?R")
proof -
  have mid: "re_match [Rep name_char 1 61, Rep lower_alnum 1 1] v \<longleftrightarrow>
    (\<exists>m z. v = m @ [z] \<and> lower_alnum z \<and> list_all name_char m \<and> 1 \<le> length m \<and> length m \<le> 61)" for v
    by (subst re_match_split) (auto simp: re_match_one simp del: One_nat_def)
  have "re_match bucketNameRE s \<longleftrightarrow>
    (\<exists>a m z. s = a # m @ [z] \<and> lower_alnum a \<and> lower_alnum z \<and> list_all name_char m
       \<and> 1 \<le> length m \<and> length m \<le> 61)" (is "_ \<longleftrightarrow> ?M")
    unfolding bucketNameRE_def re_match_one mid by auto
  also have "\<dots> \<longleftrightarrow> ?R"
  proof
    assume ?M
    then show ?R by (auto simp: name_char_def)
  next
    assume r: ?R
    then obtain a t where s: "s = a # t" by (cases s) auto
    with r have "t \<noteq> []" by auto
    with s obtain m z where "s = a # m @ [z]" by (cases t rule: rev_cases) auto
    with r show ?M by auto
  qed
  finally show ?thesis .
qed

text \<open>An accepted name is ASCII, so it is stored as it is and can be part of a key.\<close>

lemma name_char_ascii: "name_char c \<Longrightarrow> byte_in 0 127 c \<and> c \<noteq> keySeparator"
  by (auto simp: name_char_def lower_alnum_def byte_in_def keySeparator_def)

lemma bucketNameRE_good: "re_match bucketNameRE s \<Longrightarrow> valid_utf8 s \<and> no_nul s \<and> s \<noteq> []"
  unfolding bucketNameRE_iff
  by (auto simp: list_all_iff no_nul_def intro!: valid_utf8_ascii dest: name_char_ascii)

section \<open>The services against the contracts\<close>

text \<open>
  Both repositories over one database: the operations of one leave the state of the other alone.
\<close>

locale meta_contract = bucket_contract R inv live occupied + object_contract S inv objs
  for R :: "'d bucket_repository" and S :: "'d object_repository" and inv live occupied objs +
  assumes occupied_iff: "occupied d n \<longleftrightarrow> (\<exists>k. objs d n k \<noteq> None)"
    and create_objs: "inv d \<Longrightarrow> utf8_bucket b \<Longrightarrow> bDeletedAt b = None \<Longrightarrow> br_create R ctx now b d = (Inr b', d') \<Longrightarrow>
      objs d' = objs d"
    and delete_objs: "inv d \<Longrightarrow> br_delete R ctx now n d = (Inr u, d') \<Longrightarrow> objs d' = objs d"
    and oput_live: "inv d \<Longrightarrow> oDeletedAt ob = None \<Longrightarrow> or_put S ctx now ob d = (Inr ob', d') \<Longrightarrow>
      live d' = live d"
    and odelete_live: "inv d \<Longrightarrow> or_delete S ctx now bn k d = (Inr u, d') \<Longrightarrow> live d' = live d"
begin

lemma CreateBucket_error: "CreateBucket R ctx now uuid n owner d = (Inl e, d') \<Longrightarrow> d' = d"
  by (auto simp: CreateBucket_def Let_def split: if_splits dest: create_error)

lemma CreateBucket_Inr:
  assumes inv: "inv d" and utf8: "valid_utf8 uuid" "valid_utf8 owner"
    and run: "CreateBucket R ctx now uuid n owner d = (Inr b, d')"
  shows "inv d' \<and> re_match bucketNameRE n \<and> owner \<noteq> [] \<and> no_nul owner \<and> live d n = None
    \<and> bName b = n \<and> bOwnerID b = owner \<and> bID b = uuid \<and> bCreatedAt b = now \<and> bDeletedAt b = None
    \<and> live d' = (live d)(n \<mapsto> b) \<and> objs d' = objs d"
proof -
  let ?b = "\<lparr>bID = uuid, bName = n, bOwnerID = owner, bIsVersioned = False, bDeletedAt = None,
    bCreatedAt = 0\<rparr>"
  from run have name: "re_match bucketNameRE n" "owner \<noteq> []"
    and run': "br_create R ctx now ?b d = (Inr b, d')"
    by (auto simp: CreateBucket_def Let_def split: if_splits)
  from bucketNameRE_good[OF name(1)] utf8 have good: "utf8_bucket ?b" "bDeletedAt ?b = None"
    by (simp_all add: utf8_bucket_def)
  from create_Inr[OF inv good run'] create_objs[OF inv good run'] name show ?thesis
    by (auto simp: stamp_bucket_def time_is_zero_def good_bucket_def)
qed

lemma CreateBucket_inv:
  "inv d \<Longrightarrow> valid_utf8 uuid \<Longrightarrow> valid_utf8 owner \<Longrightarrow>
     inv (snd (CreateBucket R ctx now uuid n owner d))"
  by (cases "CreateBucket R ctx now uuid n owner d"; cases "fst (CreateBucket R ctx now uuid n owner d)")
    (auto dest: CreateBucket_error CreateBucket_Inr)

lemma DeleteBucket_error: "DeleteBucket R ctx now n d = (Inl e, d') \<Longrightarrow> d' = d"
  by (auto simp: DeleteBucket_def split: if_splits dest: delete_error)

lemma DeleteBucket_Inr:
  "inv d \<Longrightarrow> DeleteBucket R ctx now n d = (Inr u, d') \<Longrightarrow>
     inv d' \<and> live d n \<noteq> None \<and> (\<forall>k. objs d n k = None) \<and> live d' = (live d)(n := None)
     \<and> objs d' = objs d"
  using delete_Inr[of d ctx now n u d'] delete_objs[of d ctx now n u d']
  by (auto simp: DeleteBucket_def occupied_iff split: if_splits)

lemma put_object_check_None:
  "inv d \<Longrightarrow> put_object_check R ctx bn k sz ref d = None \<Longrightarrow>
     bn \<noteq> [] \<and> k \<noteq> [] \<and> 0 \<le> sint sz \<and> ref \<noteq> [] \<and> live d bn \<noteq> None"
  by (auto simp: put_object_check_def get_eq split: if_splits option.splits)

lemma PutObject_error: "PutObject S R ctx now uuid bn k sz etag ct ref d = (Inl e, d') \<Longrightarrow> d' = d"
  by (auto simp: PutObject_def split: option.splits dest: oput_error)

lemma put_record_Inr:
  "inv d \<Longrightarrow> or_put S ctx now (put_object_record uuid bn k sz etag ct ref) d = (Inr ob, d') \<Longrightarrow>
     inv d' \<and> no_nul bn \<and> no_nul k \<and> live d' = live d
     \<and> ob = (put_object_record uuid bn k sz etag ct ref)\<lparr>oCreatedAt := now\<rparr>
     \<and> objs d' = (objs d)(bn := (objs d bn)(k \<mapsto> norm_object ob))"
  using oput_Inr[of d "put_object_record uuid bn k sz etag ct ref" ctx now ob d']
    oput_live[of d "put_object_record uuid bn k sz etag ct ref" ctx now ob d']
  by (auto simp: put_object_record_def stamp_object_def time_is_zero_def)

lemma PutObject_Inr:
  "inv d \<Longrightarrow> PutObject S R ctx now uuid bn k sz etag ct ref d = (Inr ob, d') \<Longrightarrow>
     inv d' \<and> live d bn \<noteq> None \<and> live d' = live d \<and> k \<noteq> [] \<and> 0 \<le> sint sz \<and> ref \<noteq> []
     \<and> no_nul bn \<and> no_nul k
     \<and> ob = (put_object_record uuid bn k sz etag ct ref)\<lparr>oCreatedAt := now\<rparr>
     \<and> objs d' = (objs d)(bn := (objs d bn)(k \<mapsto> norm_object ob))"
  using put_object_check_None[of d ctx bn k sz ref] put_record_Inr[of d ctx now uuid bn k sz etag ct ref ob d']
  by (auto simp: PutObject_def split: option.splits)

lemma DeleteObject_error: "DeleteObject S ctx now bn k d = (Inl e, d') \<Longrightarrow> d' = d"
  by (auto simp: DeleteObject_def split: if_splits dest: odelete_error)

lemma DeleteObject_Inr:
  "inv d \<Longrightarrow> DeleteObject S ctx now bn k d = (Inr u, d') \<Longrightarrow>
     inv d' \<and> objs d bn k \<noteq> None \<and> objs d' = (objs d)(bn := (objs d bn)(k := None)) \<and> live d' = live d"
  using odelete_Inr[of d ctx now bn k u d'] odelete_live[of d ctx now bn k u d']
  by (auto simp: DeleteObject_def split: if_splits)

lemma GetObject_eq:
  "inv d \<Longrightarrow> bn \<noteq> [] \<Longrightarrow> k \<noteq> [] \<Longrightarrow> no_nul bn \<Longrightarrow> no_nul k \<Longrightarrow>
     GetObject S ctx bn k d = (case objs d bn k of None \<Rightarrow> Inl (Sentinel ErrNotFound) | Some ob \<Rightarrow> Inr ob)"
  by (simp add: GetObject_def oget_eq)

text \<open>What is put can be read back, and no other object is affected.\<close>

lemma PutObject_GetObject:
  assumes "inv d" and run: "PutObject S R ctx now uuid bn k sz etag ct ref d = (Inr ob, d')"
  shows "GetObject S ctx' bn k d' = Inr (norm_object ob)"
    and "(bn', k') \<noteq> (bn, k) \<Longrightarrow> no_nul bn' \<Longrightarrow> no_nul k' \<Longrightarrow>
      GetObject S ctx' bn' k' d' = GetObject S ctx' bn' k' d"
proof -
  note p = PutObject_Inr[OF assms]
  from p have "bn \<noteq> []"
    using run put_object_check_None[OF assms(1), of ctx bn k sz ref]
    by (auto simp: PutObject_def split: option.splits)
  with p show "GetObject S ctx' bn k d' = Inr (norm_object ob)" by (simp add: GetObject_eq)
  assume "(bn', k') \<noteq> (bn, k)" "no_nul bn'" "no_nul k'"
  with p assms(1) show "GetObject S ctx' bn' k' d' = GetObject S ctx' bn' k' d"
    by (auto simp: GetObject_def oget_eq)
qed

end

sublocale bolt_store \<subseteq> meta: meta_contract "BoltBucketRepository B" "BoltObjectRepository B"
  "meta_inv B" "live_bucket B" "occupied_bucket B" "live_object B"
proof (unfold_locales, goal_cases)
  case (1 d n)
  then show ?case by (simp add: occupied_bucket_def)
next
  case (2 d b ctx now b' d')
  then show ?case using bucket_create_Inr[of d b ctx now b' d'] by simp
next
  case (3 d ctx now n u d')
  then show ?case using bucket_delete_Inr[of d ctx now n u d'] by simp
next
  case (4 d ob ctx now ob' d')
  then show ?case using object_put_Inr[of d ob ctx now ob' d'] by simp
next
  case (5 d ctx now b k u d')
  then show ?case using object_delete_Inr[of d ctx now b k u d'] by simp
qed

end
