(* ===== verification/Go_Http.thy ===== *)
theory Go_Http
  imports Go_Json
begin

text \<open>
  Responses of package \<open>net/http\<close> as the handlers write them, the status codes they use, and
  \<open>strconv.Atoi\<close> for numbers in a query.
\<close>

datatype http_body = NoBody | JsonBody json | RawBody bytes

record response =
  status :: nat
  headers :: "(string \<times> string) list"
  body :: http_body

abbreviation StatusOK :: nat where "StatusOK \<equiv> 200"
abbreviation StatusCreated :: nat where "StatusCreated \<equiv> 201"
abbreviation StatusNoContent :: nat where "StatusNoContent \<equiv> 204"
abbreviation StatusBadRequest :: nat where "StatusBadRequest \<equiv> 400"
abbreviation StatusUnauthorized :: nat where "StatusUnauthorized \<equiv> 401"
abbreviation StatusForbidden :: nat where "StatusForbidden \<equiv> 403"
abbreviation StatusNotFound :: nat where "StatusNotFound \<equiv> 404"
abbreviation StatusConflict :: nat where "StatusConflict \<equiv> 409"
abbreviation StatusInternalServerError :: nat where "StatusInternalServerError \<equiv> 500"
abbreviation StatusBadGateway :: nat where "StatusBadGateway \<equiv> 502"
abbreviation StatusServiceUnavailable :: nat where "StatusServiceUnavailable \<equiv> 503"

definition json_header :: "(string \<times> string) list" where
  "json_header = [(''Content-Type'', ''application/json'')]"

definition write_json :: "nat \<Rightarrow> json \<Rightarrow> response" where
  "write_json st v = \<lparr>status = st, headers = json_header, body = JsonBody v\<rparr>"

definition write_header :: "nat \<Rightarrow> response" where
  "write_header st = \<lparr>status = st, headers = [], body = NoBody\<rparr>"

text \<open>\<open>errorResponse{Error: msg}\<close>, and the body of the health endpoints.\<close>

definition error_json :: "message \<Rightarrow> json" where
  "error_json msg = JObj [(''error'', JMsg msg)]"

definition status_ok_json :: json where
  "status_ok_json = JObj [(''status'', JStr ''ok'')]"

definition unavailable_json :: "message \<Rightarrow> json" where
  "unavailable_json msg = JObj [(''error'', JMsg msg), (''status'', JStr ''unavailable'')]"

lemma response_sel [simp]:
  "status (write_json st v) = st" "body (write_json st v) = JsonBody v"
  "headers (write_json st v) = json_header"
  "status (write_header st) = st" "body (write_header st) = NoBody" "headers (write_header st) = []"
  by (simp_all add: write_json_def write_header_def)

section \<open>Numbers\<close>

definition digit_value :: "char \<Rightarrow> nat option" where
  "digit_value c = (if byte_in 48 57 c then Some (of_char c - 48) else None)"

fun digits_value :: "nat \<Rightarrow> string \<Rightarrow> nat option" where
  "digits_value acc [] = Some acc"
| "digits_value acc (c # s) =
     (case digit_value c of None \<Rightarrow> None | Some v \<Rightarrow> digits_value (10 * acc + v) s)"

text \<open>\<open>strconv.Atoi\<close>: an optional sign, at least one digit, nothing else, within 64 bits.\<close>

definition atoi :: "string \<Rightarrow> int option" where
  "atoi s =
     (let (neg, ds) = (case s of
          c # r \<Rightarrow> if c = CHR ''-'' then (True, r) else if c = CHR ''+'' then (False, r) else (False, s)
        | [] \<Rightarrow> (False, []))
      in if ds = [] then None
         else case digits_value 0 ds of
           None \<Rightarrow> None
         | Some v \<Rightarrow>
             let n = (if neg then - int v else int v)
             in if int64_ok n then Some n else None)"

end
