(* ===== verification/Meta_Api.thy ===== *)
theory Meta_Api
  imports Meta_Service Go_Http
begin

text \<open>
  The HTTP layer of metadata-service (\<open>internal/api\<close>): the request and response structs of
  \<open>dto.go\<close> with their JSON form, the mapping of errors to statuses, the handlers, and the
  dispatch of a routed request to its handler.  The router itself (chi, third-party) is not
  modelled: a request is given after routing, with its path parameters, its query values and its
  body.
\<close>

text \<open>What a request reads from its surroundings: its context, the clock, a fresh identifier.\<close>

record env =
  e_ctx :: ctx
  e_now :: time
  e_uuid :: string

section \<open>Requests and responses\<close>

record createBucketRequest =
  cbName :: string
  cbOwnerID :: string

definition createBucketRequest_fields :: "createBucketRequest field list" where
  "createBucketRequest_fields =
     [(''name'', string_field (\<lambda>x r. r\<lparr>cbName := x\<rparr>)),
      (''owner_id'', string_field (\<lambda>x r. r\<lparr>cbOwnerID := x\<rparr>))]"

record bucketResponse =
  brID :: string
  brName :: string
  brOwnerID :: string
  brVersioning :: bool
  brCreatedAt :: time

definition toBucketResponse :: "bucket \<Rightarrow> bucketResponse" where
  "toBucketResponse b = \<lparr>brID = bID b, brName = bName b, brOwnerID = bOwnerID b,
     brVersioning = bIsVersioned b, brCreatedAt = bCreatedAt b\<rparr>"

definition bucketResponse_json :: "bucketResponse \<Rightarrow> json" where
  "bucketResponse_json r = JObj
     [(''id'', jstr (brID r)), (''name'', jstr (brName r)), (''owner_id'', jstr (brOwnerID r)),
      (''versioning'', JBool (brVersioning r)), (''created_at'', JTime (brCreatedAt r))]"

record putObjectRequest =
  poKey :: string
  poSizeBytes :: "64 word"
  poETag :: string
  poContentType :: string
  poStorageRef :: string

definition putObjectRequest_fields :: "putObjectRequest field list" where
  "putObjectRequest_fields =
     [(''key'', string_field (\<lambda>x r. r\<lparr>poKey := x\<rparr>)),
      (''size_bytes'', int64_field (\<lambda>x r. r\<lparr>poSizeBytes := x\<rparr>)),
      (''etag'', string_field (\<lambda>x r. r\<lparr>poETag := x\<rparr>)),
      (''content_type'', string_field (\<lambda>x r. r\<lparr>poContentType := x\<rparr>)),
      (''storage_ref'', string_field (\<lambda>x r. r\<lparr>poStorageRef := x\<rparr>))]"

record objectResponse =
  orID :: string
  orBucketName :: string
  orKey :: string
  orSizeBytes :: "64 word"
  orETag :: string
  orContentType :: string
  orStorageRef :: string
  orVersionID :: string
  orCreatedAt :: time

definition toObjectResponse :: "object \<Rightarrow> objectResponse" where
  "toObjectResponse ob = \<lparr>orID = oID ob, orBucketName = oBucketName ob, orKey = oObjectKey ob,
     orSizeBytes = oSizeBytes ob, orETag = oETag ob, orContentType = oContentType ob,
     orStorageRef = oStorageRef ob, orVersionID = oVersionID ob, orCreatedAt = oCreatedAt ob\<rparr>"

definition objectResponse_json :: "objectResponse \<Rightarrow> json" where
  "objectResponse_json r = JObj
     [(''id'', jstr (orID r)), (''bucket_name'', jstr (orBucketName r)), (''key'', jstr (orKey r)),
      (''size_bytes'', JInt (sint (orSizeBytes r))), (''etag'', jstr (orETag r)),
      (''content_type'', jstr (orContentType r)), (''storage_ref'', jstr (orStorageRef r)),
      (''version_id'', jstr (orVersionID r)), (''created_at'', JTime (orCreatedAt r))]"

section \<open>Errors\<close>

definition meta_writeError :: "go_error \<Rightarrow> response" where
  "meta_writeError err =
     (if errors_is err ErrNotFound then write_json StatusNotFound (error_json (error_text err))
      else if errors_is err ErrAlreadyExists then write_json StatusConflict (error_json (error_text err))
      else if errors_is err ErrBucketNotEmpty then write_json StatusConflict (error_json (error_text err))
      else if errors_is err ErrInvalidInput then write_json StatusBadRequest (error_json (error_text err))
      else write_json StatusInternalServerError (error_json [Lit ''internal server error'']))"

definition bad_request :: "string \<Rightarrow> response" where
  "bad_request msg = write_json StatusBadRequest (error_json [Lit msg])"

section \<open>Handlers\<close>

definition meta_healthz :: response where
  "meta_healthz = write_json StatusOK status_ok_json"

definition meta_healthzReady :: "ctx \<Rightarrow> response" where
  "meta_healthzReady ctx =
     (case store_ready ctx of
        Some err \<Rightarrow> write_json StatusServiceUnavailable (unavailable_json (error_text err))
      | None \<Rightarrow> write_json StatusOK status_ok_json)"

definition h_createBucket ::
    "'d bucket_repository \<Rightarrow> env \<Rightarrow> json option \<Rightarrow> 'd \<Rightarrow> response \<times> 'd" where
  "h_createBucket R e bdy d =
     (case decode_body createBucketRequest_fields False \<lparr>cbName = [], cbOwnerID = []\<rparr> bdy of
        Inl _ \<Rightarrow> (bad_request ''invalid JSON body'', d)
      | Inr req \<Rightarrow>
          (case CreateBucket R (e_ctx e) (e_now e) (e_uuid e) (cbName req) (cbOwnerID req) d of
             (Inl err, d') \<Rightarrow> (meta_writeError err, d')
           | (Inr b, d') \<Rightarrow> (write_json StatusCreated (bucketResponse_json (toBucketResponse b)), d')))"

definition h_listBuckets :: "'d bucket_repository \<Rightarrow> env \<Rightarrow> string \<Rightarrow> 'd \<Rightarrow> response" where
  "h_listBuckets R e ownerID d =
     (case ListBuckets R (e_ctx e) ownerID d of
        Inl err \<Rightarrow> meta_writeError err
      | Inr buckets \<Rightarrow>
          write_json StatusOK (JArr (map (\<lambda>b. bucketResponse_json (toBucketResponse b)) buckets)))"

definition h_getBucket :: "'d bucket_repository \<Rightarrow> env \<Rightarrow> string \<Rightarrow> 'd \<Rightarrow> response" where
  "h_getBucket R e name d =
     (case GetBucket R (e_ctx e) name d of
        Inl err \<Rightarrow> meta_writeError err
      | Inr b \<Rightarrow> write_json StatusOK (bucketResponse_json (toBucketResponse b)))"

definition h_deleteBucket :: "'d bucket_repository \<Rightarrow> env \<Rightarrow> string \<Rightarrow> 'd \<Rightarrow> response \<times> 'd" where
  "h_deleteBucket R e name d =
     (case DeleteBucket R (e_ctx e) (e_now e) name d of
        (Inl err, d') \<Rightarrow> (meta_writeError err, d')
      | (Inr _, d') \<Rightarrow> (write_header StatusNoContent, d'))"

definition zero_putObjectRequest :: putObjectRequest where
  "zero_putObjectRequest = \<lparr>poKey = [], poSizeBytes = 0, poETag = [], poContentType = [],
     poStorageRef = []\<rparr>"

definition h_putObject ::
    "'d object_repository \<Rightarrow> 'd bucket_repository \<Rightarrow> env \<Rightarrow> string \<Rightarrow> json option \<Rightarrow> 'd
       \<Rightarrow> response \<times> 'd" where
  "h_putObject S R e bucket bdy d =
     (case decode_body putObjectRequest_fields False zero_putObjectRequest bdy of
        Inl _ \<Rightarrow> (bad_request ''invalid JSON body'', d)
      | Inr req \<Rightarrow>
          (case PutObject S R (e_ctx e) (e_now e) (e_uuid e) bucket (poKey req) (poSizeBytes req)
                  (poETag req) (poContentType req) (poStorageRef req) d of
             (Inl err, d') \<Rightarrow> (meta_writeError err, d')
           | (Inr ob, d') \<Rightarrow> (write_json StatusCreated (objectResponse_json (toObjectResponse ob)), d')))"

definition h_listObjects ::
    "'d object_repository \<Rightarrow> env \<Rightarrow> string \<Rightarrow> string \<Rightarrow> string \<Rightarrow> 'd \<Rightarrow> response" where
  "h_listObjects S e bucket pref raw d =
     (case (if raw \<noteq> [] then
              (case atoi raw of
                 None \<Rightarrow> None
               | Some v \<Rightarrow> if v < 0 then None else Some v)
            else Some 0) of
        None \<Rightarrow> bad_request ''limit must be a non-negative integer''
      | Some limit \<Rightarrow>
          (case ListObjects S (e_ctx e) bucket pref limit d of
             Inl err \<Rightarrow> meta_writeError err
           | Inr objects \<Rightarrow>
               write_json StatusOK
                 (JArr (map (\<lambda>ob. objectResponse_json (toObjectResponse ob)) objects))))"

definition h_getObject :: "'d object_repository \<Rightarrow> env \<Rightarrow> string \<Rightarrow> string \<Rightarrow> 'd \<Rightarrow> response" where
  "h_getObject S e bucket key d =
     (case GetObject S (e_ctx e) bucket key d of
        Inl err \<Rightarrow> meta_writeError err
      | Inr ob \<Rightarrow> write_json StatusOK (objectResponse_json (toObjectResponse ob)))"

definition h_deleteObject ::
    "'d object_repository \<Rightarrow> env \<Rightarrow> string \<Rightarrow> string \<Rightarrow> 'd \<Rightarrow> response \<times> 'd" where
  "h_deleteObject S e bucket key d =
     (case DeleteObject S (e_ctx e) (e_now e) bucket key d of
        (Inl err, d') \<Rightarrow> (meta_writeError err, d')
      | (Inr _, d') \<Rightarrow> (write_header StatusNoContent, d'))"

section \<open>Dispatch\<close>

text \<open>
  A request after routing.  Path parameters come first, then query values, then the body
  (\<open>None\<close> when it is no JSON document).
\<close>

datatype meta_request =
    MHealthz | MHealthzLive | MHealthzReady | MHealthzStartup
  | MCreateBucket "json option"
  | MListBuckets string
  | MGetBucket string
  | MDeleteBucket string
  | MPutObject string "json option"
  | MListObjects string string string
  | MGetObject string string
  | MDeleteObject string string

fun meta_serve :: "'d bolt \<Rightarrow> env \<Rightarrow> meta_request \<Rightarrow> 'd \<Rightarrow> response \<times> 'd" where
  "meta_serve B e MHealthz d = (meta_healthz, d)"
| "meta_serve B e MHealthzLive d = (meta_healthz, d)"
| "meta_serve B e MHealthzReady d = (meta_healthzReady (e_ctx e), d)"
| "meta_serve B e MHealthzStartup d = (meta_healthzReady (e_ctx e), d)"
| "meta_serve B e (MCreateBucket bdy) d = h_createBucket (BoltBucketRepository B) e bdy d"
| "meta_serve B e (MListBuckets owner) d = (h_listBuckets (BoltBucketRepository B) e owner d, d)"
| "meta_serve B e (MGetBucket name) d = (h_getBucket (BoltBucketRepository B) e name d, d)"
| "meta_serve B e (MDeleteBucket name) d = h_deleteBucket (BoltBucketRepository B) e name d"
| "meta_serve B e (MPutObject bucket bdy) d =
     h_putObject (BoltObjectRepository B) (BoltBucketRepository B) e bucket bdy d"
| "meta_serve B e (MListObjects bucket pref limit) d =
     (h_listObjects (BoltObjectRepository B) e bucket pref limit d, d)"
| "meta_serve B e (MGetObject bucket key) d = (h_getObject (BoltObjectRepository B) e bucket key d, d)"
| "meta_serve B e (MDeleteObject bucket key) d = h_deleteObject (BoltObjectRepository B) e bucket key d"

section \<open>The invariant over requests\<close>

text \<open>
  The environment of a request: fresh identifiers are ASCII, and the strings of a parsed body are
  valid UTF-8.
\<close>

definition env_ok :: "env \<Rightarrow> bool" where
  "env_ok e \<longleftrightarrow> valid_utf8 (e_uuid e)"

fun request_body :: "meta_request \<Rightarrow> json option" where
  "request_body (MCreateBucket bdy) = bdy"
| "request_body (MPutObject _ bdy) = bdy"
| "request_body _ = None"

definition request_ok :: "meta_request \<Rightarrow> bool" where
  "request_ok r \<longleftrightarrow> (case request_body r of None \<Rightarrow> True | Some j \<Rightarrow> json_utf8 j)"

lemma decoded_createBucketRequest:
  assumes "decode_body createBucketRequest_fields False \<lparr>cbName = [], cbOwnerID = []\<rparr> (Some j) = Inr req"
    and "json_utf8 j"
  shows "valid_utf8 (cbOwnerID req)"
  using assms
  by (rule decode_body_inv[where P = "\<lambda>r. valid_utf8 (cbOwnerID r)"])
    (auto simp: createBucketRequest_fields_def dest!: string_field_Some)

context bolt_store
begin

abbreviation (input) "bkts \<equiv> BoltBucketRepository B"
abbreviation (input) "objts \<equiv> BoltObjectRepository B"

lemma h_createBucket_inv:
  assumes "meta_inv B d" and "env_ok e" and "\<And>j. bdy = Some j \<Longrightarrow> json_utf8 j"
  shows "meta_inv B (snd (h_createBucket bkts e bdy d))"
proof (cases bdy)
  case None
  with assms show ?thesis by (simp add: h_createBucket_def decode_body_def)
next
  case (Some j)
  show ?thesis
  proof (cases "decode_body createBucketRequest_fields False \<lparr>cbName = [], cbOwnerID = []\<rparr> (Some j)")
    case (Inl err)
    with Some assms show ?thesis by (simp add: h_createBucket_def)
  next
    case (Inr req)
    from decoded_createBucketRequest[OF this] assms(3) Some have "valid_utf8 (cbOwnerID req)" by simp
    with meta.CreateBucket_inv[OF assms(1)] assms(2)
    have "meta_inv B (snd (CreateBucket bkts (e_ctx e) (e_now e) (e_uuid e) (cbName req) (cbOwnerID req) d))"
      by (simp add: env_ok_def)
    with Inr Some show ?thesis
      by (auto simp: h_createBucket_def split: prod.splits sum.splits)
  qed
qed

lemma h_deleteBucket_inv: "meta_inv B d \<Longrightarrow> meta_inv B (snd (h_deleteBucket bkts e n d))"
  by (auto simp: h_deleteBucket_def split: prod.splits sum.splits
      dest: meta.DeleteBucket_error meta.DeleteBucket_Inr)

lemma h_putObject_inv: "meta_inv B d \<Longrightarrow> meta_inv B (snd (h_putObject objts bkts e b bdy d))"
  by (auto simp: h_putObject_def split: prod.splits sum.splits
      dest: meta.PutObject_error meta.PutObject_Inr)

lemma h_deleteObject_inv: "meta_inv B d \<Longrightarrow> meta_inv B (snd (h_deleteObject objts e b k d))"
  by (auto simp: h_deleteObject_def split: prod.splits sum.splits
      dest: meta.DeleteObject_error meta.DeleteObject_Inr)

lemma meta_serve_inv:
  "meta_inv B d \<Longrightarrow> env_ok e \<Longrightarrow> request_ok r \<Longrightarrow> meta_inv B (snd (meta_serve B e r d))"
  by (cases r)
    (auto simp: request_ok_def h_deleteBucket_inv h_putObject_inv h_deleteObject_inv
      intro!: h_createBucket_inv)

end

section \<open>Reachable databases\<close>

text \<open>A new database file holds nothing.\<close>

definition empty_db :: "'d bolt \<Rightarrow> 'd \<Rightarrow> bool" where
  "empty_db B d \<longleftrightarrow> (\<forall>b k. bget B d b k = None)"

text \<open>
  The databases metadata-service can leave behind: one it opened on a new file, one after a
  request, one reopened after a restart.
\<close>

inductive meta_reachable :: "'d bolt \<Rightarrow> 'd \<Rightarrow> bool" for B :: "'d bolt" where
  created: "empty_db B d0 \<Longrightarrow> meta_open B path mkdir (Inr d0) = Inr d \<Longrightarrow> meta_reachable B d"
| served: "meta_reachable B d \<Longrightarrow> env_ok e \<Longrightarrow> request_ok r \<Longrightarrow> meta_serve B e r d = (resp, d') \<Longrightarrow>
    meta_reachable B d'"
| reopened: "meta_reachable B d \<Longrightarrow> meta_open B path mkdir (Inr d) = Inr d' \<Longrightarrow> meta_reachable B d'"

lemma meta_open_bootstrap:
  "meta_open B path mkdir (Inr d) = Inr d' \<Longrightarrow> bootstrap B meta_bolt_buckets d = (Inr (), d')"
  by (auto simp: meta_open_def open_store_def split: option.splits prod.splits sum.splits)

context bolt_store
begin

lemma meta_inv_open:
  assumes "records_ok B d" "index_ok B d" "objects_ok B d"
    and "bootstrap B meta_bolt_buckets d = (Inr (), d')"
  shows "meta_inv B d'"
proof -
  have g: "bget B d' b k = bget B d b k" if "b \<noteq> BoltBucketMeta" for b k
    using bootstrap_keeps[OF assms(4)] that by blast
  have "live_bucket B d' = live_bucket B d" by (rule live_bucket_cong) (simp add: g)
  with assms(1-3) bootstrap_opened[OF assms(4)] show ?thesis
    by (simp add: meta_inv_def records_ok_def index_ok_def objects_ok_def g)
qed

lemma empty_db_ok:
  "empty_db B d \<Longrightarrow> records_ok B d \<and> index_ok B d \<and> objects_ok B d"
  by (simp add: empty_db_def records_ok_def index_ok_def objects_ok_def live_bucket_def)

lemma meta_reachable_inv: "meta_reachable B d \<Longrightarrow> meta_inv B d"
proof (induction rule: meta_reachable.induct)
  case (created d0 path mkdir d)
  from empty_db_ok[OF created(1)] meta_open_bootstrap[OF created(2)] show ?case
    by (intro meta_inv_open) simp_all
next
  case (served d e r resp d')
  then show ?case using meta_serve_inv[of d e r] by simp
next
  case (reopened d path mkdir d')
  from reopened.IH meta_open_bootstrap[OF reopened.hyps(2)] show ?case
    by (intro meta_inv_open) (simp_all add: meta_inv_def)
qed

end

end
