(* ===== verification/Meta_Spec.thy ===== *)
theory Meta_Spec
  imports Meta_Api
begin

text \<open>
  What metadata-service promises as a whole: an abstract state (the live buckets by name and the
  live objects by bucket and key), an abstract step relation, and the simulation: every request
  is one abstract step.  The second half splits \<open>PutObject\<close> into the two transactions the code
  runs, so that requests interleave between the check of the bucket and the write of the record.
\<close>

section \<open>Abstract steps\<close>

record meta_abs =
  abs_buckets :: "string \<Rightarrow> bucket option"
  abs_objects :: "string \<Rightarrow> string \<Rightarrow> object option"

definition meta_view :: "'d bolt \<Rightarrow> 'd \<Rightarrow> meta_abs" where
  "meta_view B d = \<lparr>abs_buckets = live_bucket B d, abs_objects = live_object B d\<rparr>"

datatype meta_event =
    Unchanged
  | BucketCreated string
  | BucketDeleted string
  | ObjectStored string string
  | ObjectDeleted string string

inductive spec_step :: "meta_event \<Rightarrow> meta_abs \<Rightarrow> meta_abs \<Rightarrow> bool" where
  stay: "spec_step Unchanged a a"
| create_bkt: "re_match bucketNameRE n \<Longrightarrow> abs_buckets a n = None \<Longrightarrow> bName b = n \<Longrightarrow> bOwnerID b \<noteq> [] \<Longrightarrow>
    spec_step (BucketCreated n) a (a\<lparr>abs_buckets := (abs_buckets a)(n \<mapsto> b)\<rparr>)"
| delete_bkt: "abs_buckets a n \<noteq> None \<Longrightarrow> \<forall>k. abs_objects a n k = None \<Longrightarrow>
    spec_step (BucketDeleted n) a (a\<lparr>abs_buckets := (abs_buckets a)(n := None)\<rparr>)"
| put_obj: "abs_buckets a n \<noteq> None \<Longrightarrow> k \<noteq> [] \<Longrightarrow> 0 \<le> sint (oSizeBytes ob) \<Longrightarrow> oDeletedAt ob = None \<Longrightarrow>
    spec_step (ObjectStored n k) a
      (a\<lparr>abs_objects := (abs_objects a)(n := (abs_objects a n)(k \<mapsto> ob))\<rparr>)"
| delete_obj: "abs_objects a n k \<noteq> None \<Longrightarrow>
    spec_step (ObjectDeleted n k) a
      (a\<lparr>abs_objects := (abs_objects a)(n := (abs_objects a n)(k := None))\<rparr>)"

text \<open>
  The events a request may cause, with the response it gives: a request that changes the state
  causes its event exactly when it succeeds.
\<close>

fun mutating :: "meta_request \<Rightarrow> bool" where
  "mutating (MCreateBucket _) = True"
| "mutating (MDeleteBucket _) = True"
| "mutating (MPutObject _ _) = True"
| "mutating (MDeleteObject _ _) = True"
| "mutating _ = False"

fun may_cause :: "meta_request \<Rightarrow> response \<Rightarrow> meta_event \<Rightarrow> bool" where
  "may_cause r resp Unchanged = (mutating r \<longrightarrow> StatusBadRequest \<le> status resp)"
| "may_cause r resp (BucketCreated n) = ((\<exists>bdy. r = MCreateBucket bdy) \<and> status resp = StatusCreated)"
| "may_cause r resp (BucketDeleted n) = (r = MDeleteBucket n \<and> status resp = StatusNoContent)"
| "may_cause r resp (ObjectStored n k) = ((\<exists>bdy. r = MPutObject n bdy) \<and> status resp = StatusCreated)"
| "may_cause r resp (ObjectDeleted n k) = (r = MDeleteObject n k \<and> status resp = StatusNoContent)"

lemma writeError_status: "StatusBadRequest \<le> status (meta_writeError err)"
  by (simp add: meta_writeError_def)

text \<open>No object outlives its bucket.\<close>

definition no_orphans :: "meta_abs \<Rightarrow> bool" where
  "no_orphans a \<longleftrightarrow> (\<forall>n k. abs_objects a n k \<noteq> None \<longrightarrow> abs_buckets a n \<noteq> None)"

lemma spec_step_no_orphans: "spec_step ev a a' \<Longrightarrow> no_orphans a \<Longrightarrow> no_orphans a'"
  by (induction rule: spec_step.induct) (auto simp: no_orphans_def)

text \<open>Only its deletion takes a bucket away.\<close>

lemma spec_step_keeps_bucket:
  "spec_step ev a a' \<Longrightarrow> abs_buckets a n \<noteq> None \<Longrightarrow> ev \<noteq> BucketDeleted n \<Longrightarrow> abs_buckets a' n \<noteq> None"
  by (induction rule: spec_step.induct) auto

section \<open>Every request is one abstract step\<close>

definition simulates :: "'d bolt \<Rightarrow> meta_request \<Rightarrow> response \<Rightarrow> 'd \<Rightarrow> 'd \<Rightarrow> bool" where
  "simulates B r resp d d' \<longleftrightarrow>
     (\<exists>ev. may_cause r resp ev \<and> spec_step ev (meta_view B d) (meta_view B d'))"

lemma simulates_error:
  "StatusBadRequest \<le> status resp \<Longrightarrow> simulates B r resp d d"
  using stay by (auto simp: simulates_def intro: exI[of _ Unchanged])

lemma simulates_read: "\<not> mutating r \<Longrightarrow> simulates B r resp d d"
  using stay by (auto simp: simulates_def intro: exI[of _ Unchanged])

lemma simulates_event:
  "spec_step ev (meta_view B d) (meta_view B d') \<Longrightarrow> may_cause r resp ev \<Longrightarrow> simulates B r resp d d'"
  by (auto simp: simulates_def)

context bolt_store
begin

lemma h_createBucket_step:
  assumes inv: "meta_inv B d" and "env_ok e" and "\<And>j. bdy = Some j \<Longrightarrow> json_utf8 j"
    and run: "h_createBucket bkts e bdy d = (resp, d')"
  shows "simulates B (MCreateBucket bdy) resp d d'"
proof (cases "decode_body createBucketRequest_fields False \<lparr>cbName = [], cbOwnerID = []\<rparr> bdy")
  case (Inl err)
  with run show ?thesis by (auto simp: h_createBucket_def bad_request_def intro!: simulates_error)
next
  case (Inr req)
  then obtain j where j: "bdy = Some j" by (cases bdy) (auto simp: decode_body_def)
  with Inr assms(3) have u: "valid_utf8 (cbOwnerID req)"
    using decoded_createBucketRequest by blast
  obtain res d1 where
    c: "CreateBucket bkts (e_ctx e) (e_now e) (e_uuid e) (cbName req) (cbOwnerID req) d = (res, d1)"
    by (meson prod.exhaust)
  show ?thesis
  proof (cases res)
    case (Inl err)
    with c Inr run meta.CreateBucket_error[OF c[unfolded Inl]] show ?thesis
      by (auto simp: h_createBucket_def writeError_status intro: simulates_error)
  next
    case (Inr b)
    from meta.CreateBucket_Inr[OF inv _ u c[unfolded Inr]] assms(2)
    have p: "re_match bucketNameRE (cbName req)" "live_bucket B d (cbName req) = None"
      "bName b = cbName req" "bOwnerID b \<noteq> []"
      "live_bucket B d1 = (live_bucket B d)(cbName req \<mapsto> b)" "live_object B d1 = live_object B d"
      by (auto simp: env_ok_def)
    from create_bkt[of "cbName req" "meta_view B d" b] p
    have "spec_step (BucketCreated (cbName req)) (meta_view B d) (meta_view B d1)"
      by (simp add: meta_view_def)
    with run c Inr \<open>decode_body _ _ _ _ = _\<close> show ?thesis
      by (auto simp: h_createBucket_def intro: simulates_event)
  qed
qed

lemma h_deleteBucket_step:
  assumes inv: "meta_inv B d" and run: "h_deleteBucket bkts e n d = (resp, d')"
  shows "simulates B (MDeleteBucket n) resp d d'"
proof -
  obtain res d1 where c: "DeleteBucket bkts (e_ctx e) (e_now e) n d = (res, d1)"
    by (meson prod.exhaust)
  show ?thesis
  proof (cases res)
    case (Inl err)
    with c run meta.DeleteBucket_error[OF c[unfolded Inl]] show ?thesis
      by (auto simp: h_deleteBucket_def writeError_status intro: simulates_error)
  next
    case (Inr u)
    from meta.DeleteBucket_Inr[OF inv c[unfolded Inr]] delete_bkt[of "meta_view B d" n]
    have "spec_step (BucketDeleted n) (meta_view B d) (meta_view B d1)"
      by (auto simp: meta_view_def)
    with run c Inr show ?thesis by (auto simp: h_deleteBucket_def intro: simulates_event)
  qed
qed

lemma PutObject_step:
  assumes inv: "meta_inv B d"
    and c: "PutObject objts bkts ctx now uuid bn k sz etag ct ref d = (Inr ob, d')"
  shows "spec_step (ObjectStored bn k) (meta_view B d) (meta_view B d')"
  using meta.PutObject_Inr[OF assms] put_obj[of "meta_view B d" bn k "norm_object ob"]
  by (auto simp: meta_view_def put_object_record_def)

lemma h_putObject_step:
  assumes inv: "meta_inv B d" and run: "h_putObject objts bkts e n bdy d = (resp, d')"
  shows "simulates B (MPutObject n bdy) resp d d'"
proof (cases "decode_body putObjectRequest_fields False zero_putObjectRequest bdy")
  case (Inl err)
  with run show ?thesis by (auto simp: h_putObject_def bad_request_def intro!: simulates_error)
next
  case (Inr req)
  obtain res d1 where c: "PutObject objts bkts (e_ctx e) (e_now e) (e_uuid e) n (poKey req)
    (poSizeBytes req) (poETag req) (poContentType req) (poStorageRef req) d = (res, d1)"
    by (meson prod.exhaust)
  show ?thesis
  proof (cases res)
    case (Inl err)
    with c Inr run meta.PutObject_error[OF c[unfolded Inl]] show ?thesis
      by (auto simp: h_putObject_def writeError_status intro: simulates_error)
  next
    case (Inr ob)
    from PutObject_step[OF inv c[unfolded Inr]] run c Inr \<open>decode_body _ _ _ _ = _\<close> show ?thesis
      by (auto simp: h_putObject_def intro: simulates_event)
  qed
qed

lemma h_deleteObject_step:
  assumes inv: "meta_inv B d" and run: "h_deleteObject objts e n k d = (resp, d')"
  shows "simulates B (MDeleteObject n k) resp d d'"
proof -
  obtain res d1 where c: "DeleteObject objts (e_ctx e) (e_now e) n k d = (res, d1)"
    by (meson prod.exhaust)
  show ?thesis
  proof (cases res)
    case (Inl err)
    with c run meta.DeleteObject_error[OF c[unfolded Inl]] show ?thesis
      by (auto simp: h_deleteObject_def writeError_status intro: simulates_error)
  next
    case (Inr u)
    from meta.DeleteObject_Inr[OF inv c[unfolded Inr]] delete_obj[of "meta_view B d" n k]
    have "spec_step (ObjectDeleted n k) (meta_view B d) (meta_view B d1)"
      by (auto simp: meta_view_def)
    with run c Inr show ?thesis by (auto simp: h_deleteObject_def intro: simulates_event)
  qed
qed

lemma meta_serve_simulates:
  assumes "meta_inv B d" and "env_ok e" and "request_ok r" and run: "meta_serve B e r d = (resp, d')"
  shows "simulates B r resp d d'"
proof (cases r)
  case (MCreateBucket bdy)
  with assms show ?thesis
    by (auto simp: request_ok_def intro: h_createBucket_step)
qed (use assms in \<open>auto intro: simulates_read h_deleteBucket_step h_putObject_step h_deleteObject_step\<close>)

lemma view_open:
  assumes "bootstrap B meta_bolt_buckets d = (Inr (), d')"
  shows "meta_view B d' = meta_view B d"
  using live_bucket_cong[of B d' d] live_object_cong[of B d' d] bootstrap_keeps[OF assms]
  by (simp add: meta_view_def)

lemma empty_db_no_orphans: "empty_db B d \<Longrightarrow> no_orphans (meta_view B d)"
  by (simp add: empty_db_def no_orphans_def meta_view_def live_object_def)

lemma meta_reachable_orphans: "meta_reachable B d \<Longrightarrow> no_orphans (meta_view B d)"
proof (induction rule: meta_reachable.induct)
  case (created d0 path mkdir d)
  then show ?case using meta_open_bootstrap view_open empty_db_no_orphans by metis
next
  case (served d e r resp d')
  with meta_serve_simulates[OF meta_reachable_inv served(2,3,4)] show ?case
    by (auto simp: simulates_def dest: spec_step_no_orphans)
next
  case (reopened d path mkdir d')
  then show ?case using meta_open_bootstrap view_open by metis
qed

end

section \<open>Interleaved requests\<close>

text \<open>
  bbolt runs one write transaction at a time, and each transaction is atomic.  \<open>PutObject\<close> uses
  two: between the check of the bucket and the write of the record other requests run.  The state
  of the server is its database and the records that were checked and are not yet written.
\<close>

record 'd meta_conc =
  c_db :: 'd
  c_pending :: "object list"

datatype conc_action = Served meta_request | Checked string | Written string

inductive conc_step :: "'d bolt \<Rightarrow> conc_action \<Rightarrow> 'd meta_conc \<Rightarrow> 'd meta_conc \<Rightarrow> bool"
  for B :: "'d bolt" where
  serve: "env_ok e \<Longrightarrow> request_ok r \<Longrightarrow> meta_serve B e r (c_db s) = (resp, d') \<Longrightarrow>
    conc_step B (Served r) s (s\<lparr>c_db := d'\<rparr>)"
| put_checked: "put_object_check (BoltBucketRepository B) ctx bn k sz ref (c_db s) = None \<Longrightarrow>
    conc_step B (Checked bn) s
      (s\<lparr>c_pending := put_object_record uuid bn k sz etag ct ref # c_pending s\<rparr>)"
| put_written: "c_pending s = obs1 @ ob # obs2 \<Longrightarrow>
    or_put (BoltObjectRepository B) ctx now ob (c_db s) = (res, d') \<Longrightarrow>
    conc_step B (Written (oBucketName ob)) s (s\<lparr>c_db := d', c_pending := obs1 @ obs2\<rparr>)"

inductive conc_reachable :: "'d bolt \<Rightarrow> 'd meta_conc \<Rightarrow> bool" for B :: "'d bolt" where
  start: "meta_reachable B d \<Longrightarrow> conc_reachable B \<lparr>c_db = d, c_pending = []\<rparr>"
| step: "conc_reachable B s \<Longrightarrow> conc_step B act s s' \<Longrightarrow> conc_reachable B s'"

definition conc_inv :: "'d bolt \<Rightarrow> 'd meta_conc \<Rightarrow> bool" where
  "conc_inv B s \<longleftrightarrow> meta_inv B (c_db s) \<and> (\<forall>ob \<in> set (c_pending s). oDeletedAt ob = None)"

context bolt_store
begin

lemma conc_step_inv: "conc_step B act s s' \<Longrightarrow> conc_inv B s \<Longrightarrow> conc_inv B s'"
proof (induction rule: conc_step.induct)
  case (serve e r s resp d')
  then show ?case using meta_serve_inv[of "c_db s" e r] by (simp add: conc_inv_def)
next
  case (put_checked ctx bn k sz ref s uuid etag ct)
  then show ?case by (simp add: conc_inv_def put_object_record_def)
next
  case (put_written s obs1 ob obs2 ctx now res d')
  then show ?case
    using objects.oput_error[of ctx now ob "c_db s"] objects.oput_Inr[of "c_db s" ob ctx now]
    by (cases res) (auto simp: conc_inv_def)
qed

lemma conc_reachable_inv: "conc_reachable B s \<Longrightarrow> conc_inv B s"
  by (induction rule: conc_reachable.induct)
    (auto simp: conc_inv_def meta_reachable_inv dest: conc_step_inv)

end

text \<open>
  When a delete never runs on a bucket with a checked, unwritten record, the check stays valid
  until the write, and no object is orphaned.
\<close>

definition checked_live :: "'d bolt \<Rightarrow> 'd meta_conc \<Rightarrow> bool" where
  "checked_live B s \<longleftrightarrow> no_orphans (meta_view B (c_db s))
     \<and> (\<forall>ob \<in> set (c_pending s). live_bucket B (c_db s) (oBucketName ob) \<noteq> None)"

context bolt_store
begin

lemma conc_step_checked:
  assumes "conc_step B act s s'" and "conc_inv B s" and "checked_live B s"
    and "\<And>n. act = Served (MDeleteBucket n) \<Longrightarrow> n \<notin> oBucketName ` set (c_pending s)"
  shows "checked_live B s'"
  using assms
proof (induction rule: conc_step.induct)
  case (serve e r s resp d')
  from serve.prems(1) have "meta_inv B (c_db s)" by (simp add: conc_inv_def)
  from meta_serve_simulates[OF this serve.hyps] obtain ev
    where ev: "may_cause r resp ev" "spec_step ev (meta_view B (c_db s)) (meta_view B d')"
    by (auto simp: simulates_def)
  have "live_bucket B d' (oBucketName ob) \<noteq> None" if ob: "ob \<in> set (c_pending s)" for ob
  proof -
    have "ev \<noteq> BucketDeleted (oBucketName ob)"
    proof
      assume e: "ev = BucketDeleted (oBucketName ob)"
      with ev(1) have "r = MDeleteBucket (oBucketName ob)" by simp
      with serve.prems(3)[of "oBucketName ob"] ob show False by blast
    qed
    with spec_step_keeps_bucket[OF ev(2)] serve.prems(2) ob show ?thesis
      by (auto simp: checked_live_def meta_view_def)
  qed
  with spec_step_no_orphans[OF ev(2)] serve.prems(2) show ?case
    by (simp add: checked_live_def)
next
  case (put_checked ctx bn k sz ref s uuid etag ct)
  then show ?case
    using meta.put_object_check_None[of "c_db s" ctx bn k sz ref]
    by (auto simp: checked_live_def conc_inv_def put_object_record_def)
next
  case (put_written s obs1 ob obs2 ctx now res d')
  show ?case
  proof (cases res)
    case (Inl err)
    with put_written.hyps(2) have "d' = c_db s" using objects.oput_error[of ctx now ob "c_db s" err d'] by simp
    with put_written show ?thesis by (simp add: checked_live_def)
  next
    case (Inr ob')
    with put_written have p: "or_put objts ctx now ob (c_db s) = (Inr ob', d')"
      "meta_inv B (c_db s)" "oDeletedAt ob = None" "live_bucket B (c_db s) (oBucketName ob) \<noteq> None"
      by (simp_all add: conc_inv_def checked_live_def)
    from objects.oput_Inr[OF p(2,3,1)] meta.oput_live[OF p(2,3,1)] p(4) put_written show ?thesis
      by (auto simp: checked_live_def no_orphans_def meta_view_def)
  qed
qed

end

end
