(* ===== verification/Meta_Total.thy ===== *)
theory Meta_Total
  imports Meta_Spec
begin

text \<open>
  When the requests of metadata-service succeed: on a store whose disk does not fail and that has
  room for every record, with a context that is not cancelled, each operation returns its result
  or one of the errors of the code, and which one is determined by the abstract state.
\<close>

locale bolt_roomy = bolt_healthy +
  assumes fits_all: "fits B v"
begin

lemma put_total: "opened B names d \<Longrightarrow> b \<in> set names \<Longrightarrow> key_ok k \<Longrightarrow> \<exists>d'. bput B b k v d = Inr d'"
  using put_ok[of d b k v] fits_all by (simp add: opened_def)

lemma del_total: "opened B names d \<Longrightarrow> b \<in> set names \<Longrightarrow> \<exists>d'. bdel B b k d = Inr d'"
  using del_ok[of d b k] by (simp add: opened_def)

end

lemma meta_names [simp]:
  "BoltBucketRecords \<in> set meta_bolt_buckets" "BoltBucketOwnerIdx \<in> set meta_bolt_buckets"
  "BoltBucketObjects \<in> set meta_bolt_buckets" "BoltBucketMeta \<in> set meta_bolt_buckets"
  by (simp_all add: meta_bolt_buckets_def)

text \<open>The loops end with a result when every entry is readable.\<close>

lemma list_loop_background:
  assumes "\<And>k v. (k, v) \<in> set es \<Longrightarrow> prefix p k \<Longrightarrow> \<exists>ob. unmarshal_object v = Inr ob"
  shows "\<exists>obs. list_loop background p limit n es acc = Inr obs"
  using assms
proof (induction es arbitrary: n acc)
  case Nil
  then show ?case by simp
next
  case (Cons e es)
  obtain k v where e: "e = (k, v)" by (cases e)
  have IH: "\<exists>obs. list_loop background p limit (Suc n) es a = Inr obs" for a
    by (rule Cons.IH) (use Cons.prems in auto)
  show ?case
  proof (cases "prefix p k")
    case True
    with Cons.prems[of k v] e obtain ob where "unmarshal_object v = Inr ob" by auto
    with IH e show ?thesis by auto
  next
    case False
    with e show ?thesis by simp
  qed
qed

lemma count_loop_background:
  assumes "\<And>k v. (k, v) \<in> set es \<Longrightarrow> prefix p k \<Longrightarrow> \<exists>ob. unmarshal_object v = Inr ob"
  shows "\<exists>r. count_loop background p n es c = Inr r"
  using assms
proof (induction es arbitrary: n c)
  case Nil
  then show ?case by simp
next
  case (Cons e es)
  obtain k v where e: "e = (k, v)" by (cases e)
  have IH: "\<exists>r. count_loop background p (Suc n) es a = Inr r" for a
    by (rule Cons.IH) (use Cons.prems in auto)
  show ?case
  proof (cases "prefix p k")
    case True
    with Cons.prems[of k v] e obtain ob where "unmarshal_object v = Inr ob" by auto
    with IH e True show ?thesis by simp
  next
    case False
    with e show ?thesis by simp
  qed
qed

context bolt_store
begin

lemma cursor_objects_readable:
  assumes "objects_ok B d" and "(k, v) \<in> set (cursor B d BoltBucketObjects q)"
  shows "\<exists>ob. unmarshal_object v = Inr ob"
proof -
  from assms(2) have "bget B d BoltBucketObjects k = Some v" by (simp add: cursor_set)
  with assms(1) obtain ob where "unmarshal_object v = Inr (norm_object ob)" by (rule objects_okE)
  then show ?thesis ..
qed

lemma list_objects_background:
  assumes "meta_inv B d" and "no_nul b" and "no_nul p"
  shows "\<exists>obs. ObjectRepo_List B background b p limit d = Inr obs"
proof -
  from assms(1) have ok: "objects_ok B d" by (simp add: meta_inv_def)
  have "\<exists>obs. list_loop background q lim 0 (cursor B d BoltBucketObjects q) [] = Inr obs" for q lim
    by (rule list_loop_background) (rule cursor_objects_readable[OF ok])
  with assms(2,3) show ?thesis by (simp add: ObjectRepo_List_def Let_def)
qed

lemma count_objects_background:
  assumes "meta_inv B d" and "no_nul b"
  shows "\<exists>r. ObjectRepo_CountByBucketName B background b d = Inr r"
proof -
  from assms(1) have ok: "objects_ok B d" by (simp add: meta_inv_def)
  have "\<exists>r. count_loop background q 0 (cursor B d BoltBucketObjects q) 0 = Inr r" for q
    by (rule count_loop_background) (rule cursor_objects_readable[OF ok])
  with assms(2) show ?thesis by (simp add: ObjectRepo_CountByBucketName_def)
qed

lemma occupied_loop_full:
  assumes "objects_ok B d" and "occupied_bucket B d n"
  shows "occupied_loop background (n @ [keySeparator]) i
      (cursor B d BoltBucketObjects (n @ [keySeparator])) = Some (Sentinel ErrBucketNotEmpty)"
proof -
  have "occupied_loop background (n @ [keySeparator]) i
      (cursor B d BoltBucketObjects (n @ [keySeparator])) \<in> {None, Some (Sentinel ErrBucketNotEmpty)}"
    by (rule occupied_loop_background) (rule cursor_objects_readable[OF assms(1)])
  with occupied_loop_empty[OF assms(1)] assms(2) show ?thesis by blast
qed

lemma occupied_loop_free:
  assumes "objects_ok B d" and "\<not> occupied_bucket B d n" and n: "no_nul n"
  shows "occupied_loop background (n @ [keySeparator]) i
      (cursor B d BoltBucketObjects (n @ [keySeparator])) = None"
proof -
  have "occupied_loop background (n @ [keySeparator]) i es = None"
    if "\<forall>(k, v) \<in> set es. bget B d BoltBucketObjects k = Some v" for es
    using that
  proof (induction es arbitrary: i)
    case Nil
    then show ?case by simp
  next
    case (Cons e es)
    obtain k v where e: "e = (k, v)" by (cases e)
    with Cons.prems have g: "bget B d BoltBucketObjects k = Some v" by simp
    from objects_okE[OF assms(1) g] obtain ob where ob: "unmarshal_object v = Inr (norm_object ob)"
      "no_nul (oBucketName ob)" "no_nul (oObjectKey ob)"
      "k = oBucketName ob @ keySeparator # oObjectKey ob" by blast
    have "oDeletedAt ob \<noteq> None" if p: "prefix (n @ [keySeparator]) k"
    proof
      assume live: "oDeletedAt ob = None"
      from p ob(2,4) n have "oBucketName ob = n" using key_prefix[of n "oBucketName ob" "[]"] by simp
      with g ob live have "live_object B d n (oObjectKey ob) \<noteq> None" by (simp add: live_object_def)
      with assms(2) show False by (auto simp: occupied_bucket_def)
    qed
    with ob(1) e Cons.IH Cons.prems show ?case by (cases "prefix (n @ [keySeparator]) k") auto
  qed
  then show ?thesis by (simp add: cursor_set)
qed

end

context bolt_roomy
begin

lemma create_total:
  assumes inv: "meta_inv B d" and free: "live_bucket B d (bName b) = None"
    and nul: "no_nul (bName b)" "no_nul (bOwnerID b)"
    and key: "key_ok (bName b)" "key_ok (bOwnerID b @ keySeparator # bName b)"
  shows "\<exists>d'. BucketRepo_Create B ctx now b d = (Inr (stamp_bucket now b), d')"
proof -
  from inv have op: "opened B meta_bolt_buckets d" and r: "records_ok B d" by (auto simp: meta_inv_def)
  obtain d1 where d1: "bput B BoltBucketRecords (bName b) (Text (bucket_json (stamp_bucket now b))) d = Inr d1"
    using put_total[OF op _ key(1)] meta_names by blast
  have "opened B meta_bolt_buckets d1" by (rule opened_put[OF d1 _ op]) simp
  then obtain d2 where d2: "bput B BoltBucketOwnerIdx (bOwnerID b @ keySeparator # bName b) (Bytes (bName b)) d1 = Inr d2"
    using put_total[OF _ _ key(2)] meta_names by blast
  have run: "bucket_create_tx B now b d = Inr (stamp_bucket now b, d2)"
  proof (cases "bget B d BoltBucketRecords (bName b)")
    case None
    with d1 d2 nul show ?thesis by (simp add: bucket_create_tx_def Let_def)
  next
    case (Some v)
    with r obtain c where c: "unmarshal_bucket v = Inr c" by (rule records_okE)
    with free Some have "bDeletedAt c \<noteq> None" by (auto simp: live_bucket_def split: if_splits)
    with c Some d1 d2 nul show ?thesis by (simp add: bucket_create_tx_def Let_def)
  qed
  then show ?thesis by (simp add: BucketRepo_Create_def db_update_healthy)
qed

lemma delete_total:
  assumes inv: "meta_inv B d" and live: "live_bucket B d n = Some b" and key: "key_ok n"
  shows "if occupied_bucket B d n
    then BucketRepo_Delete B background now n d = (Inl (Sentinel ErrBucketNotEmpty), d)
    else \<exists>d'. BucketRepo_Delete B background now n d = (Inr (), d')"
proof -
  from inv have op: "opened B meta_bolt_buckets d" and r: "records_ok B d" and ob: "objects_ok B d"
    by (auto simp: meta_inv_def)
  have rec: "bget B d BoltBucketRecords n = Some (Text (bucket_json b))"
    "unmarshal_bucket (Text (bucket_json b)) = Inr b" "bDeletedAt b = None" "no_nul n" "no_nul (bOwnerID b)"
    by (rule live_bucketE[OF r live]; simp add: good_bucket_def; blast?)+
  obtain d1 where d1: "bdel B BoltBucketOwnerIdx (bOwnerID b @ keySeparator # n) d = Inr d1"
    using del_total[OF op] meta_names by blast
  have ob1: "objects_ok B d1" using ob by (simp add: objects_ok_def del_get[OF d1])
  have occ: "occupied_bucket B d1 n = occupied_bucket B d n"
    by (rule fun_cong[OF occupied_bucket_cong], rule live_object_cong) (simp add: del_get[OF d1])
  have "opened B meta_bolt_buckets d1" by (rule opened_del[OF d1 _ op]) simp
  then obtain d2 where
    "bput B BoltBucketRecords n (Text (bucket_json (b\<lparr>bDeletedAt := Some now\<rparr>))) d1 = Inr d2"
    using put_total[OF _ _ key] meta_names by blast
  with rec d1 occ occupied_loop_full[OF ob1] occupied_loop_free[OF ob1 _ rec(4)] show ?thesis
    by (auto simp: BucketRepo_Delete_def db_update_healthy bucket_delete_tx_def)
qed

lemma object_put_total:
  assumes inv: "meta_inv B d" and "no_nul (oBucketName ob)" "no_nul (oObjectKey ob)"
    and "key_ok (oBucketName ob @ keySeparator # oObjectKey ob)"
  shows "\<exists>d'. ObjectRepo_Put B ctx now ob d = (Inr (stamp_object now ob), d')"
proof -
  from inv have "opened B meta_bolt_buckets d" by (simp add: meta_inv_def)
  from put_total[OF this _ assms(4), of BoltBucketObjects "Text (object_json (stamp_object now ob))"]
  obtain d' where "bput B BoltBucketObjects (oBucketName ob @ keySeparator # oObjectKey ob)
    (Text (object_json (stamp_object now ob))) d = Inr d'" by auto
  with assms(2,3) show ?thesis
    by (simp add: ObjectRepo_Put_def db_update_healthy object_put_tx_def)
qed

text \<open>An accepted name is short, so it is a key, also behind an owner of reasonable length.\<close>

lemma name_key_ok: "re_match bucketNameRE n \<Longrightarrow> key_ok n"
  by (auto simp: bucketNameRE_iff key_ok_def max_key_size_def)

lemma owner_key_ok:
  "re_match bucketNameRE n \<Longrightarrow> length owner \<le> 32704 \<Longrightarrow> key_ok (owner @ keySeparator # n)"
  by (auto simp: bucketNameRE_iff key_ok_def max_key_size_def)

lemma CreateBucket_total:
  assumes inv: "meta_inv B d" and "re_match bucketNameRE n" and "owner \<noteq> []" "no_nul owner"
    and "length owner \<le> 32704" and "live_bucket B d n = None"
  shows "\<exists>b d'. CreateBucket bkts ctx now uuid n owner d = (Inr b, d')"
  using create_total[of d "\<lparr>bID = uuid, bName = n, bOwnerID = owner, bIsVersioned = False,
      bDeletedAt = None, bCreatedAt = 0\<rparr>" ctx now]
    assms bucketNameRE_good[OF assms(2)] name_key_ok[OF assms(2)] owner_key_ok[OF assms(2,5)]
  by (auto simp: CreateBucket_def Let_def)

end

interpretation mem_roomy: bolt_roomy mem_bolt
  by unfold_locales simp

end
