(* ===== verification/Meta_Sample.thy ===== *)
theory Meta_Sample
  imports Meta_Total
begin

text \<open>
  A small run of metadata-service on the in-memory store: open a new database, create a bucket,
  put an object.  The witnesses of the properties evaluate on these databases.
\<close>

definition s_env :: env where
  "s_env = \<lparr>e_ctx = background, e_now = 1700, e_uuid = ''u1''\<rparr>"

definition s_create :: meta_request where
  "s_create = MCreateBucket (Some (JObj [(''name'', JStr ''pics''), (''owner_id'', JStr ''amy'')]))"

definition s_put :: meta_request where
  "s_put = MPutObject ''pics'' (Some (JObj [(''key'', JStr ''a/x''), (''size_bytes'', JInt 3),
     (''etag'', JStr ''e''), (''content_type'', JStr ''t''), (''storage_ref'', JStr ''h'')]))"

definition s_opened :: mem_db where
  "s_opened = (case meta_open mem_bolt ''m.db'' None (Inr []) of Inr d \<Rightarrow> d | Inl _ \<Rightarrow> [])"

definition s_created :: mem_db where
  "s_created = snd (meta_serve mem_bolt s_env s_create s_opened)"

definition s_stored :: mem_db where
  "s_stored = snd (meta_serve mem_bolt s_env s_put s_created)"

lemma s_opened_ok: "meta_open mem_bolt ''m.db'' None (Inr []) = Inr s_opened"
  by code_simp

lemma s_opened_eq:
  "s_opened = [(''meta'', [(schemaVersionKey, Bytes (encodeVersion currentSchemaVersion))]),
     (''objects'', []), (''bucket_owner_index'', []), (''buckets'', [])]"
  by code_simp

lemma empty_mem: "empty_db mem_bolt []"
  by (simp add: empty_db_def mem_get_def)

lemma s_env_ok: "env_ok s_env"
  by (simp add: env_ok_def s_env_def valid_utf8_ascii byte_in_def)

lemma s_create_ok: "request_ok s_create"
  by (simp add: request_ok_def s_create_def valid_utf8_ascii byte_in_def)

lemma s_put_ok: "request_ok s_put"
  by (simp add: request_ok_def s_put_def valid_utf8_ascii byte_in_def)

lemma s_opened_reachable: "meta_reachable mem_bolt s_opened"
  by (rule created[OF empty_mem s_opened_ok])

lemma s_created_reachable: "meta_reachable mem_bolt s_created"
  unfolding s_created_def
  by (rule served[OF s_opened_reachable s_env_ok s_create_ok]) (rule prod.collapse[symmetric])

lemma s_stored_reachable: "meta_reachable mem_bolt s_stored"
  unfolding s_stored_def
  by (rule served[OF s_created_reachable s_env_ok s_put_ok]) (rule prod.collapse[symmetric])

definition s_bucket :: bucket where
  "s_bucket = \<lparr>bID = ''u1'', bName = ''pics'', bOwnerID = ''amy'',
     bIsVersioned = False, bDeletedAt = None, bCreatedAt = 1700\<rparr>"

lemma s_bucket_sel [simp]: "bName s_bucket = ''pics''" "bOwnerID s_bucket = ''amy''" "bDeletedAt s_bucket = None"
  by (simp_all add: s_bucket_def)

lemma s_created_bucket: "live_bucket mem_bolt s_created ''pics'' = Some s_bucket"
  by code_simp

lemma s_created_object: "live_object mem_bolt s_created ''pics'' ''a/x'' = None"
  by code_simp

lemma s_created_objects: "mem_get s_created BoltBucketObjects k = None"
proof -
  have "map_of s_created BoltBucketObjects = Some []" by code_simp
  then show ?thesis by (simp add: mem_get_def)
qed

definition s_object :: object where
  "s_object = \<lparr>oID = ''u1'', oObjectKey = ''a/x'', oBucketName = ''pics'', oSizeBytes = 3, oETag = ''e'',
     oContentType = ''t'', oStorageRef = ''h'', oVersionID = ''null'', oIsLatest = True,
     oCreatedAt = 1700, oDeletedAt = None\<rparr>"

lemma s_stored_object: "live_object mem_bolt s_stored ''pics'' ''a/x'' = Some s_object"
  by code_simp

lemma s_stored_bucket: "live_bucket mem_bolt s_stored ''pics'' = live_bucket mem_bolt s_created ''pics''"
  by code_simp

lemmas s_reachable = s_opened_reachable s_created_reachable s_stored_reachable
lemmas s_views = s_created_bucket s_created_object s_stored_object s_stored_bucket

section \<open>A race\<close>

text \<open>
  The run of the race between \<open>PutObject\<close> and \<open>DeleteBucket\<close>: a put is checked on the fresh
  bucket, the bucket is deleted, the put is written; then another owner creates the bucket anew.
\<close>

definition r_record :: object where
  "r_record = put_object_record ''u2'' ''pics'' ''a/x'' 3 ''e'' ''t'' ''h''"

definition r_deleted :: mem_db where
  "r_deleted = snd (meta_serve mem_bolt s_env (MDeleteBucket ''pics'') s_created)"

definition r_written :: mem_db where
  "r_written = snd (or_put (BoltObjectRepository mem_bolt) background 1800 r_record r_deleted)"

definition r_create :: meta_request where
  "r_create = MCreateBucket (Some (JObj [(''name'', JStr ''pics''), (''owner_id'', JStr ''bob'')]))"

definition r_env :: env where
  "r_env = \<lparr>e_ctx = background, e_now = 1900, e_uuid = ''u3''\<rparr>"

definition r_recreated :: mem_db where
  "r_recreated = snd (meta_serve mem_bolt r_env r_create r_written)"

lemma r_written_reachable: "conc_reachable mem_bolt \<lparr>c_db = r_written, c_pending = []\<rparr>"
proof -
  let ?B = mem_bolt
  have c: "put_object_check (BoltBucketRepository ?B) background ''pics'' ''a/x'' 3 ''h'' s_created = None"
    by code_simp
  have "conc_reachable ?B \<lparr>c_db = s_created, c_pending = []\<rparr>"
    by (rule start[OF s_created_reachable])
  then have "conc_reachable ?B \<lparr>c_db = s_created, c_pending = [r_record]\<rparr>"
    by (rule step) (use put_checked[of ?B background _ _ _ _ "\<lparr>c_db = s_created, c_pending = []\<rparr>"] c
      in \<open>simp add: r_record_def\<close>)
  then have "conc_reachable ?B \<lparr>c_db = r_deleted, c_pending = [r_record]\<rparr>"
    by (rule step) (use serve[of s_env "MDeleteBucket ''pics''" ?B "\<lparr>c_db = s_created, c_pending = [r_record]\<rparr>"
        "fst (meta_serve mem_bolt s_env (MDeleteBucket ''pics'') s_created)" r_deleted] s_env_ok
      in \<open>simp add: r_deleted_def request_ok_def\<close>)
  then show ?thesis
    by (rule step) (use put_written[of "\<lparr>c_db = r_deleted, c_pending = [r_record]\<rparr>" "[]" r_record "[]"
        ?B background 1800 "fst (or_put (BoltObjectRepository ?B) background 1800 r_record r_deleted)"
        r_written]
      in \<open>simp add: r_written_def\<close>)
qed

lemma r_create_ok: "request_ok r_create" "env_ok r_env"
  by (simp_all add: request_ok_def r_create_def env_ok_def r_env_def valid_utf8_ascii byte_in_def)

end
