(* ===== verification/Meta_Properties.thy ===== *)
theory Meta_Properties
  imports Meta_Sample
begin

text \<open>
  The properties of metadata-service, each followed by a witness on the in-memory store and the
  run of \<open>Meta_Sample\<close>.
\<close>

section \<open>The contracts outside the locale\<close>

context bolt_store
begin

lemma meta_contract_holds: "meta_contract bkts objts (meta_inv B) (live_bucket B) (occupied_bucket B) (live_object B)"
  by (rule meta.meta_contract_axioms)

lemma bucket_contract_holds: "bucket_contract bkts (meta_inv B) (live_bucket B) (occupied_bucket B)"
  by (rule buckets.bucket_contract_axioms)

lemma object_contract_holds: "object_contract objts (meta_inv B) (live_object B)"
  by (rule objects.object_contract_axioms)

end

lemmas meta_reachable_state = bolt_store.meta_reachable_inv
lemmas meta_laws = bolt_store.meta_contract_holds
lemmas mem_store = mem.bolt_store_axioms mem_roomy.bolt_roomy_axioms

lemma roomy_store: "bolt_roomy B \<Longrightarrow> bolt_store B"
  by (simp add: bolt_roomy_def bolt_healthy_def)

section \<open>State\<close>

text \<open>
  C1: in every database that metadata-service can leave behind, over any requests, restarts and
  any store with bbolt's laws, every bucket record is readable JSON stored under its own name,
  the owner index has exactly one entry for each live bucket and no other entry, every object
  record is stored under its composite key, and the schema version is the current one.
\<close>

theorem database_consistent:
  assumes "bolt_store B" and "meta_reachable B d"
  shows "opened B meta_bolt_buckets d
    \<and> (\<forall>n v. bget B d BoltBucketRecords n = Some v \<longrightarrow>
         (\<exists>b. v = Text (bucket_json b) \<and> unmarshal_bucket v = Inr b \<and> bName b = n))
    \<and> (\<forall>k v. bget B d BoltBucketOwnerIdx k = Some v \<longleftrightarrow>
         (\<exists>n b. live_bucket B d n = Some b \<and> OwnerIndexKey (bOwnerID b) n = Inr k \<and> v = Bytes n))
    \<and> (\<forall>k v. bget B d BoltBucketObjects k = Some v \<longrightarrow>
         (\<exists>ob. v = Text (object_json ob) \<and> ObjectKey (oBucketName ob) (oObjectKey ob) = Inr k))"
proof (intro conjI allI impI)
  from meta_reachable_state[OF assms] have inv: "opened B meta_bolt_buckets d" "records_ok B d"
    "index_ok B d" "objects_ok B d" by (simp_all add: meta_inv_def)
  show "opened B meta_bolt_buckets d" by (rule inv(1))
  show "\<exists>b. v = Text (bucket_json b) \<and> unmarshal_bucket v = Inr b \<and> bName b = n"
    if "bget B d BoltBucketRecords n = Some v" for n v
    using records_okE[OF inv(2) that] by metis
  have "no_nul (bOwnerID b) \<and> no_nul n" if "live_bucket B d n = Some b" for n b
    using live_bucketE[OF inv(2) that] by (metis good_bucket_def)
  with inv(3) show "bget B d BoltBucketOwnerIdx k = Some v \<longleftrightarrow>
    (\<exists>n b. live_bucket B d n = Some b \<and> OwnerIndexKey (bOwnerID b) n = Inr k \<and> v = Bytes n)" for k v
    unfolding index_ok_def OwnerIndexKey_Inr by blast
  show "\<exists>ob. v = Text (object_json ob) \<and> ObjectKey (oBucketName ob) (oObjectKey ob) = Inr k"
    if "bget B d BoltBucketObjects k = Some v" for k v
    using objects_okE[OF inv(4) that] unfolding ObjectKey_Inr by metis
qed

theorem database_consistent_witness:
  "\<exists>b. live_bucket mem_bolt s_created ''pics'' = Some b \<and>
     bget mem_bolt s_created BoltBucketOwnerIdx (''amy'' @ [keySeparator] @ ''pics'') = Some (Bytes ''pics'')"
proof -
  note p = database_consistent[OF mem_store(1) s_created_reachable]
  have "OwnerIndexKey ''amy'' ''pics'' = Inr (''amy'' @ [keySeparator] @ ''pics'')"
    by (simp add: no_nul_def keySeparator_def)
  with p s_created_bucket show ?thesis by fastforce
qed

text \<open>
  C2: every request refines the abstract specification: it is one step on the live buckets and
  objects (create under a free valid name, delete of a live empty bucket, put into a live bucket,
  delete of a live object, or no change), a mutating request changes the state exactly when it
  answers 201 or 204, and no request does what another one is for.
\<close>

theorem requests_refine_specification:
  assumes "bolt_store B" and "meta_reachable B d" and "env_ok e" and "request_ok r"
    and "meta_serve B e r d = (resp, d')"
  shows "\<exists>ev. may_cause r resp ev \<and> spec_step ev (meta_view B d) (meta_view B d')"
  using bolt_store.meta_serve_simulates[OF assms(1) meta_reachable_state[OF assms(1,2)] assms(3-5)]
  by (simp add: simulates_def)

theorem requests_refine_specification_witness:
  "\<exists>ev. may_cause s_create (fst (meta_serve mem_bolt s_env s_create s_opened)) ev
     \<and> spec_step ev (meta_view mem_bolt s_opened) (meta_view mem_bolt s_created)"
  by (rule requests_refine_specification[OF mem_store(1) s_opened_reachable s_env_ok s_create_ok])
    (simp add: s_created_def)

text \<open>
  C3: requests that run one after the other never leave a live object in a bucket that is not
  live.
\<close>

theorem objects_live_in_live_buckets:
  assumes "bolt_store B" and "meta_reachable B d" and "live_object B d n k \<noteq> None"
  shows "live_bucket B d n \<noteq> None"
  using bolt_store.meta_reachable_orphans[OF assms(1,2)] assms(3)
  by (auto simp: no_orphans_def meta_view_def)

theorem objects_live_in_live_buckets_witness:
  "live_object mem_bolt s_stored ''pics'' ''a/x'' \<noteq> None \<and> live_bucket mem_bolt s_stored ''pics'' \<noteq> None"
  using objects_live_in_live_buckets[OF mem_store(1) s_stored_reachable, of "''pics''" "''a/x''"]
  by (simp add: s_stored_object)

text \<open>
  C4: a request that is answered with an error status has not changed the database.
\<close>

theorem failed_requests_change_nothing:
  assumes "meta_serve B e r d = (resp, d')" and "StatusBadRequest \<le> status resp"
  shows "d' = d"
proof -
  note err = db_update_error
  show ?thesis
    using assms
    by (cases r)
      (auto simp: h_createBucket_def h_deleteBucket_def h_putObject_def h_deleteObject_def
        CreateBucket_def DeleteBucket_def PutObject_def DeleteObject_def Let_def
        BucketRepo_Create_def BucketRepo_Delete_def ObjectRepo_Put_def ObjectRepo_Delete_def
        split: sum.splits prod.splits if_splits option.splits dest: err)
qed

theorem failed_requests_change_nothing_witness:
  "snd (meta_serve mem_bolt s_env s_create s_created) = s_created"
proof -
  have "status (fst (meta_serve mem_bolt s_env s_create s_created)) = StatusConflict" by code_simp
  with failed_requests_change_nothing[of mem_bolt s_env s_create s_created
      "fst (meta_serve mem_bolt s_env s_create s_created)"
      "snd (meta_serve mem_bolt s_env s_create s_created)"]
  show ?thesis by simp
qed

section \<open>Operations\<close>

text \<open>
  C5: CreateBucket decides by the name, the owner and the live buckets alone: an invalid name or
  an empty owner is invalid input, a live bucket of the name is a conflict, and otherwise (with
  an owner that can be part of a key) the bucket is created with the caller's clock and
  identifier, is found by its name and is the only change of the state.
\<close>

theorem create_bucket_outcome:
  assumes "bolt_roomy B" and "meta_reachable B d" and "valid_utf8 uuid" "valid_utf8 owner"
    and "no_nul owner" and "length owner \<le> 32704"
    and run: "CreateBucket (BoltBucketRepository B) ctx now uuid n owner d = (res, d')"
  shows "if \<not> re_match bucketNameRE n \<or> owner = [] then (\<exists>m. res = Inl (invalid_input m)) \<and> d' = d
    else if live_bucket B d n \<noteq> None then res = Inl (Sentinel ErrAlreadyExists) \<and> d' = d
    else \<exists>b. res = Inr b \<and> bName b = n \<and> bOwnerID b = owner \<and> bID b = uuid \<and> bCreatedAt b = now
      \<and> GetBucket (BoltBucketRepository B) ctx n d' = Inr b
      \<and> live_bucket B d' = (live_bucket B d)(n \<mapsto> b) \<and> live_object B d' = live_object B d"
    (is "if ?bad then _ else if ?taken then _ else ?new")
proof -
  note st = roomy_store[OF assms(1)]
  note inv = meta_reachable_state[OF st assms(2)]
  note R = bolt_store.bucket_contract_holds[OF st]
  consider ?bad | "\<not> ?bad" ?taken | "\<not> ?bad" "\<not> ?taken" by blast
  then show ?thesis
  proof cases
    case 1
    with run show ?thesis by (auto simp: CreateBucket_def split: if_splits)
  next
    case 2
    with run bucket_contract.create_taken[OF R inv] show ?thesis
      by (auto simp: CreateBucket_def Let_def)
  next
    case 3
    with run bolt_roomy.CreateBucket_total[OF assms(1) inv, of n owner ctx now uuid] assms(5,6)
    obtain b where b: "CreateBucket (BoltBucketRepository B) ctx now uuid n owner d = (Inr b, d')"
      and res: "res = Inr b" by auto
    from meta_contract.CreateBucket_Inr[OF meta_laws[OF st] inv assms(3,4) b]
    have p: "meta_inv B d'" "bName b = n" "bOwnerID b = owner" "bID b = uuid" "bCreatedAt b = now"
      "live_bucket B d' = (live_bucket B d)(n \<mapsto> b)" "live_object B d' = live_object B d"
      "re_match bucketNameRE n" by auto
    from bucketNameRE_good[OF p(8)] bucket_contract.get_eq[OF R p(1)] p(6)
    have "GetBucket (BoltBucketRepository B) ctx n d' = Inr b" by (simp add: GetBucket_def)
    with 3 p res show ?thesis by auto
  qed
qed

theorem create_bucket_outcome_witness:
  "\<exists>b. fst (CreateBucket (BoltBucketRepository mem_bolt) background 5 ''u9'' ''pics'' ''amy'' s_opened) = Inr b
     \<and> bCreatedAt b = 5"
proof -
  let ?run = "CreateBucket (BoltBucketRepository mem_bolt) background 5 ''u9'' ''pics'' ''amy'' s_opened"
  have p: "re_match bucketNameRE ''pics''" "live_bucket mem_bolt s_opened ''pics'' = None"
    "valid_utf8 ''u9''" "valid_utf8 ''amy''" "no_nul ''amy''" by code_simp+
  show ?thesis
    using create_bucket_outcome[OF mem_store(2) s_opened_reachable p(3,4,5), of background 5 "''pics''"
        "fst ?run" "snd ?run"] p(1,2) by auto
qed

text \<open>
  C6: DeleteBucket removes exactly the live empty buckets: a missing or deleted bucket is not
  found, a bucket with a live object is refused as not empty, and otherwise the bucket is gone,
  can be created again by anybody, and nothing else changes.
\<close>

theorem delete_bucket_outcome:
  assumes "bolt_roomy B" and "meta_reachable B d" and "re_match bucketNameRE n"
    and run: "DeleteBucket (BoltBucketRepository B) background now n d = (res, d')"
  shows "if live_bucket B d n = None then res = Inl (Sentinel ErrNotFound) \<and> d' = d
    else if \<exists>k. live_object B d n k \<noteq> None then res = Inl (Sentinel ErrBucketNotEmpty) \<and> d' = d
    else res = Inr () \<and> live_bucket B d' = (live_bucket B d)(n := None) \<and> live_object B d' = live_object B d
      \<and> GetBucket (BoltBucketRepository B) background n d' = Inl (Sentinel ErrNotFound)"
    (is "if ?gone then _ else if ?full then _ else _")
proof -
  note st = roomy_store[OF assms(1)]
  note inv = meta_reachable_state[OF st assms(2)]
  note R = bolt_store.bucket_contract_holds[OF st]
  from bucketNameRE_good[OF assms(3)] have n: "n \<noteq> []" by simp
  have key: "key_ok n" by (rule bolt_roomy.name_key_ok[OF assms(1,3)])
  consider ?gone | "\<not> ?gone" ?full | "\<not> ?gone" "\<not> ?full" by blast
  then show ?thesis
  proof cases
    case 1
    with run n bucket_contract.delete_missing[OF R inv] show ?thesis by (auto simp: DeleteBucket_def)
  next
    case 2
    with bolt_roomy.delete_total[OF assms(1) inv _ key, of _ now] run n show ?thesis
      by (auto simp: DeleteBucket_def occupied_bucket_def)
  next
    case 3
    then have "\<not> occupied_bucket B d n" by (simp add: occupied_bucket_def)
    with 3 bolt_roomy.delete_total[OF assms(1) inv _ key, of _ now] run n have res: "res = Inr ()"
      by (auto simp: DeleteBucket_def)
    with run have run': "DeleteBucket (BoltBucketRepository B) background now n d = (Inr (), d')" by simp
    from meta_contract.DeleteBucket_Inr[OF meta_laws[OF st] inv run']
    have p: "meta_inv B d'" "live_bucket B d' = (live_bucket B d)(n := None)" "live_object B d' = live_object B d"
      by auto
    with n bucket_contract.get_eq[OF R p(1)] 3 res show ?thesis by (auto simp: GetBucket_def)
  qed
qed

theorem delete_bucket_outcome_witness:
  "fst (DeleteBucket (BoltBucketRepository mem_bolt) background 9 ''pics'' s_created) = Inr ()
   \<and> fst (DeleteBucket (BoltBucketRepository mem_bolt) background 9 ''pics'' s_stored) = Inl (Sentinel ErrBucketNotEmpty)"
proof -
  have n: "re_match bucketNameRE ''pics''" by code_simp
  have e: "\<forall>k. live_object mem_bolt s_created ''pics'' k = None"
    by (simp add: live_object_def s_created_objects)
  let ?del = "\<lambda>d. DeleteBucket (BoltBucketRepository mem_bolt) background 9 ''pics'' d"
  note delete_bucket_outcome[OF mem_store(2) s_created_reachable n, of 9 "fst (?del s_created)" "snd (?del s_created)"]
  moreover note delete_bucket_outcome[OF mem_store(2) s_stored_reachable n, of 9 "fst (?del s_stored)" "snd (?del s_stored)"]
  moreover have "\<exists>k. live_object mem_bolt s_stored ''pics'' k \<noteq> None" using s_stored_object by blast
  ultimately show ?thesis using e s_created_bucket s_stored_bucket by simp
qed

text \<open>
  C7: ListBuckets returns exactly the live buckets of the owner, each once, in the order of their
  names.
\<close>

theorem list_buckets_exact:
  assumes "bolt_store B" and "meta_reachable B d" and "owner \<noteq> []" and "no_nul owner"
  shows "\<exists>bs. ListBuckets (BoltBucketRepository B) background owner d = Inr bs
    \<and> sorted_wrt (<) (map bName bs)
    \<and> set bs = {b. \<exists>n. live_bucket B d n = Some b \<and> bOwnerID b = owner}"
proof -
  note inv = meta_reachable_state[OF assms(1,2)]
  obtain bs where bs: "BucketRepo_ListByOwner B background owner d = Inr bs"
    using bolt_store.list_by_owner_background[OF assms(1) inv assms(4)] by blast
  from bolt_store.list_by_owner_Inr[OF assms(1) inv bs] bs assms(3) show ?thesis
    by (simp add: ListBuckets_def owner_listing_def)
qed

theorem list_buckets_exact_witness:
  "\<exists>bs b. ListBuckets (BoltBucketRepository mem_bolt) background ''amy'' s_created = Inr bs \<and> b \<in> set bs
     \<and> bName b = ''pics''"
proof -
  have "no_nul ''amy''" by (simp add: no_nul_def keySeparator_def)
  with list_buckets_exact[OF mem_store(1) s_created_reachable, of "''amy''"]
  obtain bs where "ListBuckets (BoltBucketRepository mem_bolt) background ''amy'' s_created = Inr bs"
    and s: "set bs = {b. \<exists>n. live_bucket mem_bolt s_created n = Some b \<and> bOwnerID b = ''amy''}"
    by auto
  moreover have "s_bucket \<in> set bs"
    unfolding s using s_created_bucket by auto
  ultimately show ?thesis by (intro exI[of _ bs] exI[of _ s_bucket]) simp
qed

text \<open>
  C8: after a successful PutObject, GetObject of the bucket and key returns the stored record (the
  fresh identifier, the clock, size, hash, content type and storage reference of the request,
  each string as valid UTF-8), and GetObject of every other bucket and key answers as before.
\<close>

theorem put_then_get:
  assumes "bolt_store B" and "meta_reachable B d"
    and "PutObject (BoltObjectRepository B) (BoltBucketRepository B) ctx now uuid n k sz etag ct ref d = (Inr ob, d')"
    and "no_nul n'" "no_nul k'"
  shows "GetObject (BoltObjectRepository B) ctx' n' k' d' =
    (if n' = n \<and> k' = k
     then Inr (norm_object ((put_object_record uuid n k sz etag ct ref)\<lparr>oCreatedAt := now\<rparr>))
     else GetObject (BoltObjectRepository B) ctx' n' k' d)"
proof -
  note inv = meta_reachable_state[OF assms(1,2)]
  note M = meta_laws[OF assms(1)]
  from meta_contract.PutObject_Inr[OF M inv assms(3)]
  have "ob = (put_object_record uuid n k sz etag ct ref)\<lparr>oCreatedAt := now\<rparr>" by simp
  with meta_contract.PutObject_GetObject[OF M inv assms(3)] assms(4,5) show ?thesis by auto
qed

theorem put_then_get_witness:
  "GetObject (BoltObjectRepository mem_bolt) background ''pics'' ''a/x''
     (snd (PutObject (BoltObjectRepository mem_bolt) (BoltBucketRepository mem_bolt) background 5 ''u7''
        ''pics'' ''a/x'' 4 [] [] ''h9'' s_created))
   = Inr (norm_object ((put_object_record ''u7'' ''pics'' ''a/x'' 4 [] [] ''h9'')\<lparr>oCreatedAt := 5\<rparr>))"
proof -
  let ?run = "PutObject (BoltObjectRepository mem_bolt) (BoltBucketRepository mem_bolt) background 5 ''u7''
        ''pics'' ''a/x'' 4 [] [] ''h9'' s_created"
  have "fst ?run = Inr ((put_object_record ''u7'' ''pics'' ''a/x'' 4 [] [] ''h9'')\<lparr>oCreatedAt := 5\<rparr>)"
    by code_simp
  then have "?run = (Inr ((put_object_record ''u7'' ''pics'' ''a/x'' 4 [] [] ''h9'')\<lparr>oCreatedAt := 5\<rparr>), snd ?run)"
    by (metis prod.collapse)
  from put_then_get[OF mem_store(1) s_created_reachable this, of "''pics''" "''a/x''" background]
  show ?thesis by (simp add: no_nul_def keySeparator_def)
qed

text \<open>
  PutObject accepts exactly what its checks ask for: a missing bucket name, key or storage
  reference or a negative size is invalid input, a bucket that is not live is not found, and on a
  store with room a valid request for a live bucket is stored.
\<close>

theorem put_object_outcome:
  assumes "bolt_roomy B" and "meta_reachable B d" and "no_nul n" "no_nul k"
    and "length n + length k < 32768"
    and run: "PutObject (BoltObjectRepository B) (BoltBucketRepository B) ctx now uuid n k sz etag ct ref d = (res, d')"
  shows "if n = [] \<or> k = [] \<or> sint sz < 0 \<or> ref = [] then (\<exists>m. res = Inl (invalid_input m)) \<and> d' = d
    else if live_bucket B d n = None then res = Inl (Sentinel ErrNotFound) \<and> d' = d
    else res = Inr ((put_object_record uuid n k sz etag ct ref)\<lparr>oCreatedAt := now\<rparr>)"
    (is "if ?bad then _ else if ?gone then _ else _")
proof -
  note st = roomy_store[OF assms(1)]
  note inv = meta_reachable_state[OF st assms(2)]
  note get = bucket_contract.get_eq[OF bolt_store.bucket_contract_holds[OF st] inv]
  let ?ob = "put_object_record uuid n k sz etag ct ref"
  consider ?bad | "\<not> ?bad" ?gone | "\<not> ?bad" "\<not> ?gone" by blast
  then show ?thesis
  proof cases
    case 1
    with run show ?thesis by (auto simp: PutObject_def put_object_check_def split: if_splits)
  next
    case 2
    with run get show ?thesis by (auto simp: PutObject_def put_object_check_def)
  next
    case 3
    have "key_ok (oBucketName ?ob @ keySeparator # oObjectKey ?ob)"
      using assms(5) by (simp add: key_ok_def max_key_size_def put_object_record_def)
    with bolt_roomy.object_put_total[OF assms(1) inv, of ?ob ctx now] assms(3,4)
    obtain d1 where "ObjectRepo_Put B ctx now ?ob d = (Inr (stamp_object now ?ob), d1)"
      by (auto simp: put_object_record_def)
    with 3 run get show ?thesis
      by (auto simp: PutObject_def put_object_check_def stamp_object_def time_is_zero_def put_object_record_def)
  qed
qed

theorem put_object_outcome_witness:
  "fst (PutObject (BoltObjectRepository mem_bolt) (BoltBucketRepository mem_bolt) background 5 ''u7''
        ''pics'' ''a/x'' 4 [] [] ''h9'' s_created)
     = Inr ((put_object_record ''u7'' ''pics'' ''a/x'' 4 [] [] ''h9'')\<lparr>oCreatedAt := 5\<rparr>)"
  using put_object_outcome[OF mem_store(2) s_created_reachable, of "''pics''" "''a/x''" background 5 "''u7''" 4
      "[]" "[]" "''h9''"] s_created_bucket
  by (cases "PutObject (BoltObjectRepository mem_bolt) (BoltBucketRepository mem_bolt) background 5 ''u7''
        ''pics'' ''a/x'' 4 [] [] ''h9'' s_created")
     (auto simp: no_nul_def keySeparator_def)

text \<open>
  C9: ListObjects returns the live objects of the bucket whose keys start with the prefix, in the
  order of the keys, cut off after the limit (1000 when the limit is not positive).
\<close>

theorem list_objects_exact:
  assumes "bolt_store B" and "meta_reachable B d" and "n \<noteq> []" and "no_nul n" and "no_nul p"
  shows "\<exists>ks. sorted_wrt (<) ks \<and> set ks = {k. live_object B d n k \<noteq> None \<and> prefix p k}
    \<and> ListObjects (BoltObjectRepository B) background n p limit d
      = Inr (take (if limit \<le> 0 then 1000 else nat limit) (map (\<lambda>k. the (live_object B d n k)) ks))"
proof -
  note inv = meta_reachable_state[OF assms(1,2)]
  obtain obs where obs: "ObjectRepo_List B background n p limit d = Inr obs"
    using bolt_store.list_objects_background[OF assms(1) inv assms(4,5)] by blast
  from inv have "objects_ok B d" by (simp add: meta_inv_def)
  from bolt_store.object_list_Inr[OF assms(1) this obs] obs assms(3) show ?thesis
    by (auto simp: ListObjects_def object_listing_def list_limit_def)
qed

theorem list_objects_exact_witness:
  "\<exists>obs. ListObjects (BoltObjectRepository mem_bolt) background ''pics'' ''a'' 0 s_stored = Inr obs"
proof -
  have "no_nul ''pics''" "no_nul ''a''" by (simp_all add: no_nul_def keySeparator_def)
  from list_objects_exact[OF mem_store(1) s_stored_reachable _ this, of 0] show ?thesis by auto
qed

text \<open>
  CountByBucketName returns the number of live objects of the bucket.
\<close>

theorem count_objects_exact:
  assumes "bolt_store B" and "meta_reachable B d" and "no_nul n"
  shows "ObjectRepo_CountByBucketName B background n d = Inr (card {k. live_object B d n k \<noteq> None})"
proof -
  note inv = meta_reachable_state[OF assms(1,2)]
  obtain c where c: "ObjectRepo_CountByBucketName B background n d = Inr c"
    using bolt_store.count_objects_background[OF assms(1) inv assms(3)] by blast
  from bolt_store.object_count_Inr[OF assms(1) _ c] inv c show ?thesis
    by (simp add: meta_inv_def dom_def)
qed

theorem count_objects_exact_witness: "card {k. live_object mem_bolt s_stored ''pics'' k \<noteq> None} = 1"
proof -
  have "ObjectRepo_CountByBucketName mem_bolt background ''pics'' s_stored = Inr 1" by code_simp
  with count_objects_exact[OF mem_store(1) s_stored_reachable, of "''pics''"] show ?thesis
    by (simp add: no_nul_def keySeparator_def)
qed

text \<open>
  C10: DeleteObject removes a live object and nothing else, and reports a missing one as not found;
  afterwards GetObject does not find it.
\<close>

theorem delete_object_outcome:
  assumes "bolt_store B" and "meta_reachable B d" and "no_nul n" "no_nul k" and "n \<noteq> []" "k \<noteq> []"
    and run: "DeleteObject (BoltObjectRepository B) ctx now n k d = (res, d')"
  shows "(live_object B d n k = None \<longrightarrow> res = Inl (Sentinel ErrNotFound) \<and> d' = d)
    \<and> (res = Inr () \<longrightarrow> live_object B d n k \<noteq> None
        \<and> GetObject (BoltObjectRepository B) ctx' n k d' = Inl (Sentinel ErrNotFound)
        \<and> live_object B d' = (live_object B d)(n := (live_object B d n)(k := None))
        \<and> live_bucket B d' = live_bucket B d)
    \<and> (res \<noteq> Inr () \<longrightarrow> d' = d)"
proof (intro conjI impI)
  note inv = meta_reachable_state[OF assms(1,2)]
  note M = meta_laws[OF assms(1)]
  note S = bolt_store.object_contract_holds[OF assms(1)]
  show "res = Inl (Sentinel ErrNotFound)" "d' = d" if "live_object B d n k = None"
    using object_contract.odelete_missing[OF S inv assms(3,4) that] run assms(5,6)
    by (auto simp: DeleteObject_def)
  show "d' = d" if "res \<noteq> Inr ()"
    using that run meta_contract.DeleteObject_error[OF M] by (cases res) auto
  assume "res = Inr ()"
  with run have "DeleteObject (BoltObjectRepository B) ctx now n k d = (Inr (), d')" by simp
  note p = meta_contract.DeleteObject_Inr[OF M inv this]
  from p show "live_object B d n k \<noteq> None"
    "live_object B d' = (live_object B d)(n := (live_object B d n)(k := None))"
    "live_bucket B d' = live_bucket B d" by simp_all
  from p meta_contract.GetObject_eq[OF M _ assms(5,6,3,4), of d' ctx']
  show "GetObject (BoltObjectRepository B) ctx' n k d' = Inl (Sentinel ErrNotFound)" by simp
qed

theorem delete_object_outcome_witness:
  "GetObject (BoltObjectRepository mem_bolt) background ''pics'' ''a/x''
     (snd (DeleteObject (BoltObjectRepository mem_bolt) background 7 ''pics'' ''a/x'' s_stored))
   = Inl (Sentinel ErrNotFound)"
proof -
  let ?run = "DeleteObject (BoltObjectRepository mem_bolt) background 7 ''pics'' ''a/x'' s_stored"
  have "fst ?run = Inr ()" by code_simp
  then have run: "?run = (Inr (), snd ?run)" by (metis prod.collapse)
  have "no_nul ''pics''" "no_nul ''a/x''" by (simp_all add: no_nul_def keySeparator_def)
  from delete_object_outcome[OF mem_store(1) s_stored_reachable this _ _ run, of background]
  show ?thesis by simp
qed

section \<open>Keys, names and records\<close>

text \<open>
  Composite object keys name one bucket and one object key, and a listing prefix selects
  exactly the keys of its own bucket that start with the user's prefix, whatever other buckets
  and keys are called.
\<close>

theorem object_keys_isolate_buckets:
  assumes "ObjectKey n k = Inr x" and "ObjectListPrefix n' p = Inr q"
  shows "(ObjectKey n'' k'' = Inr x \<longleftrightarrow> n'' = n \<and> k'' = k)
    \<and> (prefix q x \<longleftrightarrow> n' = n \<and> prefix p k)"
  using assms by (auto simp: key_inject key_prefix)

theorem object_keys_isolate_buckets_witness:
  "\<not> prefix (''ab'' @ [keySeparator] @ ''c'') (''abc'' @ [keySeparator] @ ''c'')"
  using object_keys_isolate_buckets[of "''abc''" "''c''" "''abc'' @ keySeparator # ''c''" "''ab''" "''c''"
      "''ab'' @ keySeparator # ''c''" "[]" "[]"]
  by (simp add: no_nul_def keySeparator_def)

text \<open>
  The bucket name check accepts exactly the names of 3 to 63 characters that are lowercase
  letters, digits and hyphens and start and end with a letter or digit.
\<close>

theorem bucket_name_check:
  "re_match bucketNameRE s \<longleftrightarrow>
     3 \<le> length s \<and> length s \<le> 63
     \<and> set s \<subseteq> set ''abcdefghijklmnopqrstuvwxyz0123456789-''
     \<and> hd s \<noteq> CHR ''-'' \<and> last s \<noteq> CHR ''-''"
proof -
  have chars: "\<forall>c. lower_alnum c = (c \<in> set ''abcdefghijklmnopqrstuvwxyz0123456789'')" by code_simp
  have alnum: "lower_alnum c = (c \<in> set ''abcdefghijklmnopqrstuvwxyz0123456789-'' \<and> c \<noteq> CHR ''-'')" for c
    unfolding chars[rule_format] by auto
  have name: "name_char c = (c \<in> set ''abcdefghijklmnopqrstuvwxyz0123456789-'')" for c
    unfolding name_char_def chars[rule_format] by auto
  have "hd s \<in> set s \<and> last s \<in> set s" if "3 \<le> length s" using that by (cases s) auto
  then show ?thesis
    unfolding bucketNameRE_iff list_all_iff alnum name by blast
qed

text \<open>
  C12: storing a record and reading it back gives the record with its strings as valid UTF-8, so
  nothing is lost of a record whose strings are valid; the schema version survives its eight
  big-endian bytes in both directions.
\<close>

theorem records_round_trip:
  "unmarshal_bucket (Text (bucket_json b)) = Inr (norm_bucket b)
   \<and> unmarshal_object (Text (object_json ob)) = Inr (norm_object ob)
   \<and> (utf8_bucket b \<longrightarrow> norm_bucket b = b) \<and> (utf8_object ob \<longrightarrow> norm_object ob = ob)
   \<and> decodeVersion (encodeVersion v) = v
   \<and> (length raw = 8 \<longrightarrow> encodeVersion (decodeVersion raw) = raw)"
  using encode_decodeVersion by simp

theorem records_round_trip_witness:
  "unmarshal_bucket (Text (bucket_json s_bucket)) = Inr s_bucket
   \<and> encodeVersion (decodeVersion ''01234567'') = ''01234567''"
proof -
  have "utf8_bucket s_bucket" by code_simp
  with records_round_trip[of s_bucket s_object 0 "''01234567''"] show ?thesis by simp
qed

section \<open>Opening the database\<close>

text \<open>
  C13: opening refuses a database whose schema stamp is not the current version and leaves it
  untouched; it never changes an entry other than the stamp; and on a healthy disk a new or a
  current database opens with its four bolt buckets and the current stamp.
\<close>

theorem open_checks_schema:
  assumes "bolt_roomy B"
  shows "if bget B d BoltBucketMeta schemaVersionKey \<in> {None, Some (Bytes (encodeVersion currentSchemaVersion))}
    then \<exists>d'. meta_open B path None (Inr d) = Inr d' \<and> opened B meta_bolt_buckets d'
      \<and> (\<forall>b k. b \<noteq> BoltBucketMeta \<or> k \<noteq> schemaVersionKey \<longrightarrow> bget B d' b k = bget B d b k)
    else (\<exists>e. meta_open B path None (Inr d) = Inl (Wrap [Lit ''bootstrap: ''] e []))
      \<and> snd (bootstrap B meta_bolt_buckets d) = d"
    (is "if ?ok then _ else _")
proof (cases ?ok)
  case True
  from assms have h: "bolt_healthy B" and f: "\<And>v. fits B v"
    by (auto simp: bolt_roomy_def bolt_roomy_axioms_def)
  obtain d' where d': "bootstrap B meta_bolt_buckets d = (Inr (), d')"
    using bolt_healthy.bootstrap_ok[OF h _ meta_names(4) f True]
    by (auto simp: meta_bolt_buckets_def bolt_bucket_defs)
  with bolt_store.bootstrap_opened[OF roomy_store[OF assms] d']
    bolt_store.bootstrap_keeps[OF roomy_store[OF assms] d'] True show ?thesis
    by (auto simp: meta_open_def open_store_def)
next
  case False
  then obtain v where v: "bget B d BoltBucketMeta schemaVersionKey = Some v"
    "v \<noteq> Bytes (encodeVersion currentSchemaVersion)" by auto
  from bolt_store.bootstrap_refuses[OF roomy_store[OF assms] v, of meta_bolt_buckets] False show ?thesis
    by (auto simp: meta_open_def open_store_def)
qed

theorem open_checks_schema_witness:
  "(\<exists>d'. meta_open mem_bolt ''m.db'' None (Inr []) = Inr d')
   \<and> (\<exists>e. meta_open mem_bolt ''m.db'' None
        (Inr [(BoltBucketMeta, [(schemaVersionKey, Bytes (encodeVersion 2))])]) = Inl e)"
proof
  show "\<exists>d'. meta_open mem_bolt ''m.db'' None (Inr []) = Inr d'"
    using open_checks_schema[OF mem_store(2), of "[]" "''m.db''"] by (auto simp: mem_get_def)
  have "encodeVersion 2 \<noteq> encodeVersion currentSchemaVersion" by code_simp
  then show "\<exists>e. meta_open mem_bolt ''m.db'' None
        (Inr [(BoltBucketMeta, [(schemaVersionKey, Bytes (encodeVersion 2))])]) = Inl e"
    using open_checks_schema[OF mem_store(2), of "[(BoltBucketMeta, [(schemaVersionKey, Bytes (encodeVersion 2))])]" "''m.db''"]
    by (auto simp: mem_get_def)
qed

section \<open>Errors\<close>

text \<open>
  The status of an error response is determined by the sentinel the error wraps, at any
  depth: 404 for not found, 409 for a conflict or a full bucket, 400 for invalid input; every
  other error is answered 500 with a fixed text, so nothing of an internal error is shown.
\<close>

theorem error_statuses:
  "(status (meta_writeError err) = StatusNotFound \<longleftrightarrow> errors_is err ErrNotFound)
   \<and> (status (meta_writeError err) = StatusConflict \<longleftrightarrow>
        errors_is err ErrAlreadyExists \<or> errors_is err ErrBucketNotEmpty)
   \<and> (status (meta_writeError err) = StatusBadRequest \<longleftrightarrow> errors_is err ErrInvalidInput)
   \<and> body (meta_writeError err) = JsonBody (error_json
       (if errors_is err ErrNotFound \<or> errors_is err ErrAlreadyExists \<or> errors_is err ErrBucketNotEmpty
          \<or> errors_is err ErrInvalidInput
        then error_text err else [Lit ''internal server error'']))
   \<and> errors_is (Wrap pre err post) s = errors_is err s"
  using errors_is_unique[of err] by (auto simp: meta_writeError_def)

section \<open>Interleaved requests\<close>

text \<open>
  The database stays consistent also when the two transactions of PutObject interleave with
  other requests.
\<close>

theorem interleaving_keeps_consistency:
  assumes "bolt_store B" and "conc_reachable B s"
  shows "meta_inv B (c_db s)"
  using bolt_store.conc_reachable_inv[OF assms] by (simp add: conc_inv_def)

theorem interleaving_keeps_consistency_witness: "meta_inv mem_bolt r_written"
  using interleaving_keeps_consistency[OF mem_store(1) r_written_reachable] by simp

text \<open>
  As long as no DeleteBucket runs on a bucket between the check and the write of a PutObject
  on it, every step keeps live objects in live buckets and the check of every pending put valid.
\<close>

theorem undisturbed_puts_keep_objects_in_buckets:
  assumes "bolt_store B" and "conc_reachable B s" and "checked_live B s" and "conc_step B act s s'"
    and "\<forall>ob \<in> set (c_pending s). act \<noteq> Served (MDeleteBucket (oBucketName ob))"
  shows "checked_live B s'"
  using bolt_store.conc_step_checked[OF assms(1,4) bolt_store.conc_reachable_inv[OF assms(1,2)] assms(3)]
    assms(5) by auto

theorem undisturbed_puts_keep_objects_in_buckets_witness:
  "checked_live mem_bolt \<lparr>c_db = s_stored, c_pending = []\<rparr>"
proof -
  have "conc_reachable mem_bolt \<lparr>c_db = s_created, c_pending = []\<rparr>"
    by (rule start[OF s_created_reachable])
  moreover have "checked_live mem_bolt \<lparr>c_db = s_created, c_pending = []\<rparr>"
    using bolt_store.meta_reachable_orphans[OF mem_store(1) s_created_reachable] by (simp add: checked_live_def)
  moreover have "conc_step mem_bolt (Served s_put) \<lparr>c_db = s_created, c_pending = []\<rparr>
      \<lparr>c_db = s_stored, c_pending = []\<rparr>"
    using serve[of s_env s_put mem_bolt "\<lparr>c_db = s_created, c_pending = []\<rparr>"
        "fst (meta_serve mem_bolt s_env s_put s_created)" s_stored] s_env_ok s_put_ok
    by (simp add: s_stored_def)
  ultimately show ?thesis
    by (rule undisturbed_puts_keep_objects_in_buckets[OF mem_store(1)]) simp
qed

text \<open>
  C15: without that condition the check can be stale: PutObject checks the bucket in one
  transaction and writes in another.  Take any run in which a put is checked, DeleteBucket then
  removes the bucket, the record is written, and a request creates a bucket of the same name for
  some owner.  The steps interleave as the transactions allow.  When the bucket was deleted it held no
  object, and the whole of the same PutObject would have been refused; yet the write leaves a live
  object in a bucket that is not live, and the owner of the new bucket reads it there.
\<close>

theorem put_object_races_with_delete_bucket:
  assumes "bolt_store B" and "meta_reachable B d0" and "env_ok e1" "env_ok e2" and "valid_utf8 n" "valid_utf8 owner"
    and check: "put_object_check (BoltBucketRepository B) ctx n k sz ref d0 = None"
    and ob: "ob = put_object_record uuid n k sz etag ct ref"
    and delete: "meta_serve B e1 (MDeleteBucket n) d0 = (resp1, d1)" "status resp1 = StatusNoContent"
    and put: "or_put (BoltObjectRepository B) ctx now ob d1 = (Inr x, d2)"
    and new: "new = MCreateBucket (Some (JObj [(''name'', JStr n), (''owner_id'', JStr owner)]))"
    and create: "meta_serve B e2 new d2 = (resp2, d3)" "status resp2 = StatusCreated"
  shows "conc_step B (Checked n) \<lparr>c_db = d0, c_pending = []\<rparr> \<lparr>c_db = d0, c_pending = [ob]\<rparr>
    \<and> conc_step B (Served (MDeleteBucket n)) \<lparr>c_db = d0, c_pending = [ob]\<rparr> \<lparr>c_db = d1, c_pending = [ob]\<rparr>
    \<and> conc_step B (Written n) \<lparr>c_db = d1, c_pending = [ob]\<rparr> \<lparr>c_db = d2, c_pending = []\<rparr>
    \<and> conc_step B (Served new) \<lparr>c_db = d2, c_pending = []\<rparr> \<lparr>c_db = d3, c_pending = []\<rparr>
    \<and> (\<forall>j. live_object B d1 n j = None)
    \<and> PutObject (BoltObjectRepository B) (BoltBucketRepository B) ctx now uuid n k sz etag ct ref d1 = (Inl (Sentinel ErrNotFound), d1)
    \<and> live_bucket B d2 n = None \<and> live_object B d2 n k = Some (norm_object x)
    \<and> (\<exists>b. live_bucket B d3 n = Some b \<and> bOwnerID b = owner)
    \<and> GetObject (BoltObjectRepository B) ctx' n k d3 = Inr (norm_object x)"
proof (intro conjI)
  note M = meta_laws[OF assms(1)] and inv0 = meta_reachable_state[OF assms(1,2)]
  note ck = meta_contract.put_object_check_None[OF M inv0 check]
  have refused: "status (meta_writeError err) \<noteq> StatusNoContent" "status (meta_writeError err) \<noteq> StatusCreated" for err
    using writeError_status[of err] by auto
  from delete obtain u where "DeleteBucket (BoltBucketRepository B) (e_ctx e1) (e_now e1) n d0 = (Inr u, d1)"
    using refused by (auto simp: h_deleteBucket_def split: sum.splits prod.splits)
  from meta_contract.DeleteBucket_Inr[OF M inv0 this] have d1: "meta_inv B d1" "live_bucket B d1 n = None"
    "\<forall>j. live_object B d1 n j = None" by auto
  from meta_contract.put_record_Inr[OF M d1(1) put[unfolded ob]] d1 have d2: "meta_inv B d2" "no_nul n" "no_nul k"
    "live_bucket B d2 = live_bucket B d1" "live_object B d2 n k = Some (norm_object x)" by auto
  have "decode_body createBucketRequest_fields False \<lparr>cbName = [], cbOwnerID = []\<rparr>
      (Some (JObj [(''name'', JStr n), (''owner_id'', JStr owner)])) = Inr \<lparr>cbName = n, cbOwnerID = owner\<rparr>"
    by (simp add: createBucketRequest_fields_def json_decode_simps)
  with create new obtain b where
    "CreateBucket (BoltBucketRepository B) (e_ctx e2) (e_now e2) (e_uuid e2) n owner d2 = (Inr b, d3)"
    using refused by (auto simp: h_createBucket_def split: sum.splits prod.splits)
  from meta_contract.CreateBucket_Inr[OF M d2(1) _ assms(6) this] assms(4) have d3: "meta_inv B d3"
    "live_bucket B d3 n = Some b" "bOwnerID b = owner" "live_object B d3 = live_object B d2" by (auto simp: env_ok_def)
  show "conc_step B (Checked n) \<lparr>c_db = d0, c_pending = []\<rparr> \<lparr>c_db = d0, c_pending = [ob]\<rparr>"
    using put_checked[of B ctx n k sz ref "\<lparr>c_db = d0, c_pending = []\<rparr>" uuid etag ct] check by (simp add: ob)
  show "conc_step B (Served (MDeleteBucket n)) \<lparr>c_db = d0, c_pending = [ob]\<rparr> \<lparr>c_db = d1, c_pending = [ob]\<rparr>"
    using serve[of e1 "MDeleteBucket n" B "\<lparr>c_db = d0, c_pending = [ob]\<rparr>" resp1 d1] assms(3) delete(1)
    by (simp add: request_ok_def)
  show "conc_step B (Written n) \<lparr>c_db = d1, c_pending = [ob]\<rparr> \<lparr>c_db = d2, c_pending = []\<rparr>"
    using put_written[of "\<lparr>c_db = d1, c_pending = [ob]\<rparr>" "[]" ob "[]" B ctx now "Inr x" d2] put
    by (simp add: ob put_object_record_def)
  show "conc_step B (Served new) \<lparr>c_db = d2, c_pending = []\<rparr> \<lparr>c_db = d3, c_pending = []\<rparr>"
    using serve[of e2 new B "\<lparr>c_db = d2, c_pending = []\<rparr>" resp2 d3] assms(4-6) create(1)
    by (simp add: new request_ok_def valid_utf8_ascii byte_in_def)
  show "\<forall>j. live_object B d1 n j = None" "live_bucket B d2 n = None" "live_object B d2 n k = Some (norm_object x)"
    using d1 d2 by simp_all
  show "PutObject (BoltObjectRepository B) (BoltBucketRepository B) ctx now uuid n k sz etag ct ref d1 = (Inl (Sentinel ErrNotFound), d1)"
    using ck bucket_contract.get_eq[OF bolt_store.bucket_contract_holds[OF assms(1)] d1(1), of ctx n] d1(2)
    by (simp add: PutObject_def put_object_check_def)
  show "\<exists>b. live_bucket B d3 n = Some b \<and> bOwnerID b = owner" using d3 by blast
  show "GetObject (BoltObjectRepository B) ctx' n k d3 = Inr (norm_object x)"
    using meta_contract.GetObject_eq[OF M d3(1), of n k ctx'] ck d2 d3(4) by simp
qed

text \<open>The run of the race in \<open>Meta_Sample\<close>: amy puts into her bucket and deletes it, bob gets her object.\<close>

theorem put_object_races_with_delete_bucket_witness:
  "\<exists>x b. live_bucket mem_bolt r_written ''pics'' = None \<and> live_object mem_bolt r_written ''pics'' ''a/x'' = Some (norm_object x)
     \<and> live_bucket mem_bolt r_recreated ''pics'' = Some b \<and> bOwnerID b = ''bob''
     \<and> GetObject (BoltObjectRepository mem_bolt) background ''pics'' ''a/x'' r_recreated = Inr (norm_object x)"
proof -
  let ?del = "meta_serve mem_bolt s_env (MDeleteBucket ''pics'') s_created"
  let ?put = "or_put (BoltObjectRepository mem_bolt) background 1800 r_record r_deleted"
  let ?new = "meta_serve mem_bolt r_env r_create r_written"
  have c: "put_object_check (BoltBucketRepository mem_bolt) background ''pics'' ''a/x'' 3 ''h'' s_created = None"
    "status (fst ?del) = StatusNoContent" "status (fst ?new) = StatusCreated" by code_simp+
  have "\<not> isl (fst ?put)" by code_simp
  then obtain x where x: "?put = (Inr x, r_written)" by (cases ?put; cases "fst ?put") (auto simp: r_written_def)
  have r: "?del = (fst ?del, r_deleted)" "?new = (fst ?new, r_recreated)" by (simp_all add: r_deleted_def r_recreated_def)
  have u: "valid_utf8 ''pics''" "valid_utf8 ''bob''" by (simp_all add: valid_utf8_ascii byte_in_def)
  from put_object_races_with_delete_bucket[OF mem_store(1) s_created_reachable s_env_ok r_create_ok(2) u c(1) r_record_def
      r(1) c(2) x r_create_def r(2) c(3), of background]
  show ?thesis by blast
qed

end
