(* ===== verification/Go_Os.thy ===== *)
theory Go_Os
  imports Go_Prelude "HOL-Library.AList"
begin

text \<open>
  What data-service uses of the packages \<open>os\<close> and \<open>path/filepath\<close>: a file system of directories
  and regular files, the calls on it with their errors, and \<open>filepath.Join\<close>.  A path is the list
  of its components from the root, after the lexical cleaning that \<open>filepath.Join\<close> does; there are
  no symbolic links.  A relative base directory stands for its absolute path.
\<close>

type_synonym path = "string list"

record fsys =
  fs_files :: "(path \<times> bytes) list"
  fs_dirs :: "path list"

definition file_at :: "fsys \<Rightarrow> path \<Rightarrow> bytes option" where
  "file_at fs p = map_of (fs_files fs) p"

definition is_dir :: "fsys \<Rightarrow> path \<Rightarrow> bool" where
  "is_dir fs p \<longleftrightarrow> p = [] \<or> p \<in> set (fs_dirs fs)"

definition empty_fs :: fsys where
  "empty_fs = \<lparr>fs_files = [], fs_dirs = []\<rparr>"

text \<open>Errors, as far as \<open>os.IsNotExist\<close> tells them apart.\<close>

datatype os_error = ENOENT | EEXIST | ENOTDIR | ENOTEMPTY | EISDIR | EIO

definition os_is_not_exist :: "os_error \<Rightarrow> bool" where
  "os_is_not_exist e \<longleftrightarrow> e = ENOENT"

text \<open>A path below a regular file is reported differently from a missing one.\<close>

definition below_file :: "fsys \<Rightarrow> path \<Rightarrow> bool" where
  "below_file fs p \<longleftrightarrow> list_ex (\<lambda>n. file_at fs (take n p) \<noteq> None) [1..<length p]"

definition lookup_error :: "fsys \<Rightarrow> path \<Rightarrow> os_error" where
  "lookup_error fs p = (if below_file fs p then ENOTDIR else ENOENT)"

section \<open>Calls\<close>

text \<open>\<open>os.MkdirAll\<close> keeps the directories it made before an error.\<close>

fun mkdir_from :: "fsys \<Rightarrow> path \<Rightarrow> string list \<Rightarrow> (os_error + unit) \<times> fsys" where
  "mkdir_from fs p [] = (Inr (), fs)"
| "mkdir_from fs p (c # cs) =
     (if file_at fs (p @ [c]) \<noteq> None then (Inl ENOTDIR, fs)
      else mkdir_from (if is_dir fs (p @ [c]) then fs else fs\<lparr>fs_dirs := (p @ [c]) # fs_dirs fs\<rparr>)
             (p @ [c]) cs)"

definition os_mkdir_all :: "path \<Rightarrow> fsys \<Rightarrow> (os_error + unit) \<times> fsys" where
  "os_mkdir_all p fs = mkdir_from fs [] p"

text \<open>
  \<open>os.CreateTemp\<close> with the random name it picked; it tries again while the name is taken, so a
  name that is still taken is the error after the last try.
\<close>

definition os_create_temp :: "path \<Rightarrow> string \<Rightarrow> fsys \<Rightarrow> (os_error + path) \<times> fsys" where
  "os_create_temp dir name fs =
     (let p = dir @ [name]
      in if file_at fs dir \<noteq> None then (Inl ENOTDIR, fs)
         else if \<not> is_dir fs dir then (Inl (lookup_error fs p), fs)
         else if file_at fs p \<noteq> None \<or> is_dir fs p then (Inl EEXIST, fs)
         else (Inr p, fs\<lparr>fs_files := AList.update p [] (fs_files fs)\<rparr>))"

definition os_write :: "path \<Rightarrow> bytes \<Rightarrow> fsys \<Rightarrow> fsys" where
  "os_write p data fs = fs\<lparr>fs_files := AList.update p data (fs_files fs)\<rparr>"

definition has_entry :: "fsys \<Rightarrow> path \<Rightarrow> bool" where
  "has_entry fs d \<longleftrightarrow>
     (\<exists>p \<in> set (map fst (fs_files fs)) \<union> set (fs_dirs fs). p \<noteq> [] \<and> butlast p = d)"

text \<open>\<open>os.Remove\<close> unlinks a file or removes an empty directory.\<close>

definition os_remove :: "path \<Rightarrow> fsys \<Rightarrow> (os_error + unit) \<times> fsys" where
  "os_remove p fs =
     (if file_at fs p \<noteq> None then (Inr (), fs\<lparr>fs_files := AList.delete p (fs_files fs)\<rparr>)
      else if is_dir fs p then
        (if p = [] \<or> has_entry fs p then (Inl ENOTEMPTY, fs)
         else (Inr (), fs\<lparr>fs_dirs := removeAll p (fs_dirs fs)\<rparr>))
      else (Inl (lookup_error fs p), fs))"

text \<open>\<open>os.Rename\<close> of a regular file replaces a regular file at the target.\<close>

definition os_rename :: "path \<Rightarrow> path \<Rightarrow> fsys \<Rightarrow> (os_error + unit) \<times> fsys" where
  "os_rename old new fs =
     (case file_at fs old of
        None \<Rightarrow> (Inl (lookup_error fs old), fs)
      | Some data \<Rightarrow>
          if is_dir fs new then (Inl EISDIR, fs)
          else if file_at fs (butlast new) \<noteq> None then (Inl ENOTDIR, fs)
          else if \<not> is_dir fs (butlast new) then (Inl (lookup_error fs new), fs)
          else (Inr (), fs\<lparr>fs_files := AList.update new data (AList.delete old (fs_files fs))\<rparr>))"

text \<open>\<open>os.Open\<close> opens a directory too; only reading from it fails.\<close>

datatype os_file = Regular bytes | Directory

definition os_open :: "path \<Rightarrow> fsys \<Rightarrow> os_error + os_file" where
  "os_open p fs =
     (case file_at fs p of
        Some data \<Rightarrow> Inr (Regular data)
      | None \<Rightarrow> if is_dir fs p then Inr Directory else Inl (lookup_error fs p))"

section \<open>Joining paths\<close>

fun split_on :: "'a \<Rightarrow> 'a list \<Rightarrow> 'a list list" where
  "split_on z [] = [[]]"
| "split_on z (c # cs) =
     (if c = z then [] # split_on z cs
      else case split_on z cs of
        [] \<Rightarrow> [[c]]
      | s # ss \<Rightarrow> (c # s) # ss)"

definition push_component :: "path \<Rightarrow> string \<Rightarrow> path" where
  "push_component p c =
     (if c = [] \<or> c = ''.'' then p else if c = ''..'' then butlast p else p @ [c])"

definition path_join :: "path \<Rightarrow> string list \<Rightarrow> path" where
  "path_join base elems = foldl push_component base (concat (map (split_on CHR ''/'') elems))"

text \<open>A component that joining keeps as it is.\<close>

definition plain :: "string \<Rightarrow> bool" where
  "plain c \<longleftrightarrow> c \<noteq> [] \<and> c \<noteq> ''.'' \<and> c \<noteq> ''..'' \<and> CHR ''/'' \<notin> set c"

lemma split_on_none: "z \<notin> set s \<Longrightarrow> split_on z s = [s]"
  by (induction s) auto

lemma push_plain: "plain c \<Longrightarrow> push_component p c = p @ [c]"
  by (simp add: plain_def push_component_def)

lemma path_join_plain: "list_all plain cs \<Longrightarrow> path_join base cs = base @ cs"
proof (induction cs arbitrary: base)
  case Nil
  then show ?case by (simp add: path_join_def)
next
  case (Cons c cs)
  then have "split_on CHR ''/'' c = [c]" by (simp add: plain_def split_on_none)
  with Cons.prems Cons.IH[of "base @ [c]"] show ?case by (simp add: path_join_def push_plain)
qed

lemma length_push: "length (push_component p c) \<le> Suc (length p)"
  by (auto simp: push_component_def)

section \<open>Well-formed file systems\<close>

definition fs_ok :: "fsys \<Rightarrow> bool" where
  "fs_ok fs \<longleftrightarrow>
     file_at fs [] = None
     \<and> (\<forall>p data. file_at fs p = Some data \<longrightarrow> \<not> is_dir fs p \<and> is_dir fs (butlast p))
     \<and> (\<forall>p. is_dir fs p \<longrightarrow> is_dir fs (butlast p))"

lemma fs_ok_empty: "fs_ok empty_fs"
  by (simp add: fs_ok_def empty_fs_def file_at_def is_dir_def)

lemma is_dir_Nil [simp]: "is_dir fs []"
  by (simp add: is_dir_def)

lemma file_at_files [simp]:
  "file_at (fs\<lparr>fs_files := AList.update p data (fs_files fs)\<rparr>) = (file_at fs)(p \<mapsto> data)"
  "file_at (fs\<lparr>fs_files := AList.delete p (fs_files fs)\<rparr>) = (file_at fs)(p := None)"
  "file_at (fs\<lparr>fs_files := AList.update q data (AList.delete p (fs_files fs))\<rparr>) = (file_at fs)(p := None, q \<mapsto> data)"
  "file_at (fs\<lparr>fs_dirs := ds\<rparr>) = file_at fs"
  by (rule ext, simp add: file_at_def update_conv' delete_conv')+

lemma is_dir_files [simp]: "is_dir (fs\<lparr>fs_files := xs\<rparr>) = is_dir fs"
  by (rule ext) (simp add: is_dir_def)

lemma is_dir_add [simp]: "is_dir (fs\<lparr>fs_dirs := q # fs_dirs fs\<rparr>) p \<longleftrightarrow> p = q \<or> is_dir fs p"
  by (auto simp: is_dir_def)

lemma is_dir_remove [simp]:
  "is_dir (fs\<lparr>fs_dirs := removeAll q (fs_dirs fs)\<rparr>) p \<longleftrightarrow> p = [] \<or> (p \<noteq> q \<and> is_dir fs p)"
  by (auto simp: is_dir_def)

lemma has_entry_iff:
  "has_entry fs d \<longleftrightarrow> (\<exists>p. p \<noteq> [] \<and> butlast p = d \<and> (file_at fs p \<noteq> None \<or> is_dir fs p))"
  by (force simp: has_entry_def file_at_def is_dir_def map_of_eq_None_iff)

text \<open>In a well-formed file system every prefix of an entry is a directory.\<close>

lemma is_dir_take: "fs_ok fs \<Longrightarrow> is_dir fs p \<Longrightarrow> is_dir fs (take n p)"
proof (induction p rule: rev_induct)
  case Nil
  then show ?case by simp
next
  case (snoc c p)
  from snoc.prems have "is_dir fs p" unfolding fs_ok_def by (metis butlast_snoc)
  with snoc show ?case by (cases "n \<le> length p") auto
qed

lemma fs_okD:
  "fs_ok fs \<Longrightarrow> file_at fs p \<noteq> None \<Longrightarrow> p \<noteq> [] \<and> \<not> is_dir fs p \<and> is_dir fs (butlast p)"
  "fs_ok fs \<Longrightarrow> is_dir fs p \<Longrightarrow> is_dir fs (butlast p)"
  "fs_ok fs \<Longrightarrow> is_dir fs p \<Longrightarrow> file_at fs p = None"
  by (auto simp: fs_ok_def)

text \<open>Missing for another reason than a file on the way: every directory on the way that exists is one.\<close>

lemma not_below_file:
  "fs_ok fs \<Longrightarrow> \<not> below_file fs p \<Longrightarrow> n < length p \<Longrightarrow> file_at fs (take n p) = None"
  by (cases "n = 0") (auto simp: below_file_def list_ex_iff dest: fs_okD)

section \<open>What the calls keep\<close>

lemma mkdir_from_spec:
  assumes "fs_ok fs" and "is_dir fs p" and "mkdir_from fs p cs = (res, fs')"
  shows "fs_ok fs' \<and> file_at fs' = file_at fs \<and> (\<forall>q. is_dir fs q \<longrightarrow> is_dir fs' q)
    \<and> (res = Inr () \<longrightarrow> is_dir fs' (p @ cs))"
  using assms
proof (induction cs arbitrary: fs p)
  case Nil
  then show ?case by auto
next
  case (Cons c cs)
  show ?case
  proof (cases "file_at fs (p @ [c]) = None")
    case False
    with Cons.prems show ?thesis by auto
  next
    case True
    let ?fs = "if is_dir fs (p @ [c]) then fs else fs\<lparr>fs_dirs := (p @ [c]) # fs_dirs fs\<rparr>"
    have ok: "fs_ok ?fs"
      using Cons.prems(1,2) True by (auto simp: fs_ok_def)
    have "is_dir ?fs (p @ [c])" by simp
    with Cons.IH[OF ok this] Cons.prems(3) True show ?thesis
      by (auto split: if_splits)
  qed
qed

lemma os_mkdir_all_spec:
  assumes "fs_ok fs" and "os_mkdir_all p fs = (res, fs')"
  shows "fs_ok fs' \<and> file_at fs' = file_at fs \<and> (\<forall>q. is_dir fs q \<longrightarrow> is_dir fs' q)
    \<and> (res = Inr () \<longrightarrow> is_dir fs' p)"
  using mkdir_from_spec[of fs "[]" p res fs'] assms by (simp add: os_mkdir_all_def)

text \<open>Making directories succeeds when no file is in the way.\<close>

lemma mkdir_from_ok:
  "(\<And>n. 0 < n \<Longrightarrow> n \<le> length cs \<Longrightarrow> file_at fs (p @ take n cs) = None) \<Longrightarrow> \<exists>fs'. mkdir_from fs p cs = (Inr (), fs')"
proof (induction cs arbitrary: fs p)
  case Nil
  then show ?case by simp
next
  case (Cons c cs)
  let ?fs = "if is_dir fs (p @ [c]) then fs else fs\<lparr>fs_dirs := (p @ [c]) # fs_dirs fs\<rparr>"
  from Cons.prems[of 1] have "file_at fs (p @ [c]) = None" by simp
  moreover have "\<exists>fs'. mkdir_from ?fs (p @ [c]) cs = (Inr (), fs')"
    using Cons.prems[of "Suc _"] by (intro Cons.IH) auto
  ultimately show ?case by simp
qed

lemma mkdir_from_dirs:
  "mkdir_from fs p cs = (res, fs') \<Longrightarrow> is_dir fs' q \<Longrightarrow> is_dir fs q \<or> prefix q (p @ cs)"
proof (induction cs arbitrary: fs p)
  case Nil
  then show ?case by simp
next
  case (Cons c cs)
  then show ?case by (fastforce split: if_splits)
qed

lemma os_mkdir_all_dirs:
  "os_mkdir_all p fs = (res, fs') \<Longrightarrow> is_dir fs' q \<Longrightarrow> is_dir fs q \<or> prefix q p"
  using mkdir_from_dirs[of fs "[]" p res fs' q] by (simp add: os_mkdir_all_def)

lemma os_create_temp_spec:
  assumes "fs_ok fs" and "os_create_temp dir name fs = (res, fs')"
  shows "fs_ok fs' \<and> is_dir fs' = is_dir fs
    \<and> (case res of Inl _ \<Rightarrow> fs' = fs
       | Inr p \<Rightarrow> p = dir @ [name] \<and> file_at fs p = None \<and> is_dir fs dir \<and> file_at fs' = (file_at fs)(p \<mapsto> []))"
  using assms by (auto simp: os_create_temp_def Let_def fs_ok_def split: if_splits)

lemma os_write_spec:
  "fs_ok fs \<Longrightarrow> file_at fs p \<noteq> None \<Longrightarrow> fs_ok (os_write p data fs)
    \<and> file_at (os_write p data fs) = (file_at fs)(p \<mapsto> data) \<and> is_dir (os_write p data fs) = is_dir fs"
  by (auto simp: os_write_def fs_ok_def)

lemma os_remove_file:
  "fs_ok fs \<Longrightarrow> file_at fs p \<noteq> None \<Longrightarrow> \<exists>fs'. os_remove p fs = (Inr (), fs') \<and> fs_ok fs'
    \<and> file_at fs' = (file_at fs)(p := None) \<and> is_dir fs' = is_dir fs"
  by (auto simp: os_remove_def fs_ok_def)

lemma os_remove_error: "os_remove p fs = (Inl e, fs') \<Longrightarrow> fs' = fs"
  by (auto simp: os_remove_def split: if_splits)

lemma os_remove_dir:
  assumes "fs_ok fs" and "file_at fs p = None" and "os_remove p fs = (Inr u, fs')"
  shows "fs_ok fs' \<and> file_at fs' = file_at fs \<and> is_dir fs p \<and> p \<noteq> [] \<and> \<not> has_entry fs p
    \<and> (\<forall>q. is_dir fs' q \<longleftrightarrow> q = [] \<or> (q \<noteq> p \<and> is_dir fs q))"
proof -
  from assms have p: "is_dir fs p" "p \<noteq> []" "\<not> has_entry fs p"
    and fs': "fs' = fs\<lparr>fs_dirs := removeAll p (fs_dirs fs)\<rparr>"
    by (auto simp: os_remove_def split: if_splits)
  have child: "butlast q \<noteq> p" if "file_at fs q \<noteq> None \<or> is_dir fs q" for q
    using that p(2,3) by (cases "q = []") (auto simp: has_entry_iff)
  have "fs_ok fs'"
    unfolding fs' fs_ok_def file_at_files is_dir_remove
  proof (intro conjI allI impI)
    show "file_at fs [] = None" using assms(1) by (simp add: fs_ok_def)
    fix q
    show "\<not> (q = [] \<or> q \<noteq> p \<and> is_dir fs q)" "butlast q = [] \<or> butlast q \<noteq> p \<and> is_dir fs (butlast q)"
      if "file_at fs q = Some data" for data
      using fs_okD(1)[OF assms(1), of q] child[of q] that by auto
    show "butlast q = [] \<or> butlast q \<noteq> p \<and> is_dir fs (butlast q)"
      if "q = [] \<or> q \<noteq> p \<and> is_dir fs q"
      using fs_okD(2)[OF assms(1), of q] child[of q] that by auto
  qed
  with p fs' show ?thesis by simp
qed

lemma os_rename_spec:
  assumes "fs_ok fs" and "os_rename old new fs = (res, fs')" and "file_at fs old = Some data" and "old \<noteq> new"
  shows "fs_ok fs' \<and> is_dir fs' = is_dir fs
    \<and> (case res of Inl _ \<Rightarrow> fs' = fs | Inr _ \<Rightarrow> file_at fs' = (file_at fs)(old := None, new \<mapsto> data))"
  using assms by (auto simp: os_rename_def fs_ok_def split: if_splits)

lemma os_rename_ok:
  "file_at fs old = Some data \<Longrightarrow> \<not> is_dir fs new \<Longrightarrow> fs_ok fs \<Longrightarrow> is_dir fs (butlast new) \<Longrightarrow>
     \<exists>fs'. os_rename old new fs = (Inr (), fs')"
  using fs_okD(3)[of fs "butlast new"] by (auto simp: os_rename_def)

end
