(* ===== verification/Go_Crypto.thy ===== *)
theory Go_Crypto
  imports Go_Prelude
begin

unbundle bit_operations_syntax

text \<open>
  What the services use of the packages \<open>crypto/sha256\<close>, \<open>crypto/hmac\<close> and \<open>encoding/hex\<close> of the
  Go library: SHA-256 (FIPS 180-4), HMAC (RFC 2104) over it and lowercase hexadecimal text.  The
  proofs of the services use only the lengths and the alphabet; that different messages have
  different hashes is never assumed in general, only stated for the messages at hand where a
  property needs it.
\<close>

section \<open>Hexadecimal\<close>

definition hex_digit :: "nat \<Rightarrow> char" where
  "hex_digit n = ''0123456789abcdef'' ! n"

fun hex_encode :: "bytes \<Rightarrow> string" where
  "hex_encode [] = []"
| "hex_encode (c # s) = hex_digit (of_char c div 16) # hex_digit (of_char c mod 16) # hex_encode s"

definition hex_char :: "char \<Rightarrow> bool" where
  "hex_char c \<longleftrightarrow> byte_in 48 57 c \<or> byte_in 97 102 c"

lemma length_hex_encode [simp]: "length (hex_encode s) = 2 * length s"
  by (induction s) auto

lemma hex_digits: "\<forall>n \<in> set [0..<16]. hex_char (hex_digit n)"
  by code_simp

lemma hex_digit_char: "n < 16 \<Longrightarrow> hex_char (hex_digit n)"
  using hex_digits by simp

lemma hex_digit_inject: "m < 16 \<Longrightarrow> n < 16 \<Longrightarrow> hex_digit m = hex_digit n \<longleftrightarrow> m = n"
  unfolding hex_digit_def by (subst nth_eq_iff_index_eq) auto

lemma of_char_less_256: "(of_char (c :: char) :: nat) < 256"
  by simp

lemma hex_encode_chars: "c \<in> set (hex_encode s) \<Longrightarrow> hex_char c"
  by (induction s) (auto intro!: hex_digit_char simp: less_mult_imp_div_less)

lemma hex_encode_inject: "hex_encode s = hex_encode t \<longleftrightarrow> s = t"
proof (induction s arbitrary: t)
  case Nil
  then show ?case by (cases t) auto
next
  case (Cons c s)
  show ?case
  proof (cases t)
    case (Cons d u)
    have "of_char c div 16 < (16 :: nat)" "of_char d div 16 < (16 :: nat)"
      by (simp_all add: less_mult_imp_div_less)
    then have "hex_encode (c # s) = hex_encode (d # u) \<longleftrightarrow>
      of_char c div 16 = (of_char d div 16 :: nat) \<and> of_char c mod 16 = (of_char d mod 16 :: nat) \<and> s = u"
      by (simp add: hex_digit_inject Cons.IH)
    also have "\<dots> \<longleftrightarrow> c = d \<and> s = u"
      by (metis div_mult_mod_eq of_char_eq_iff)
    finally show ?thesis using Cons by simp
  qed simp
qed

section \<open>SHA-256\<close>

text \<open>
  The constants of the algorithm are the first 32 bits of the fractional parts of the cube roots of
  the first 64 primes and of the square roots of the first eight; the roots are found bit by bit.
\<close>

definition small_primes :: "nat list" where
  "small_primes = filter (\<lambda>p. list_all (\<lambda>q. p mod q \<noteq> 0) [2..<p]) [2..<312]"

fun root_bits :: "nat \<Rightarrow> nat \<Rightarrow> nat \<Rightarrow> nat \<Rightarrow> nat" where
  "root_bits k n 0 r = r"
| "root_bits k n (Suc b) r = root_bits k n b (if (r + 2 ^ b) ^ k \<le> n then r + 2 ^ b else r)"

definition root_fraction :: "nat \<Rightarrow> nat \<Rightarrow> 32 word" where
  "root_fraction k p = word_of_nat (root_bits k (p * 2 ^ (32 * k)) 35 0)"

definition sha_k :: "32 word list" where
  "sha_k = map (root_fraction 3) small_primes"

type_synonym sha_state = "32 word list"

definition sha_init :: sha_state where
  "sha_init = map (root_fraction 2) [2, 3, 5, 7, 11, 13, 17, 19]"

lemma length_sha_init [simp]: "length sha_init = 8"
  by (simp add: sha_init_def)

definition rotr :: "nat \<Rightarrow> 32 word \<Rightarrow> 32 word" where
  "rotr n w = drop_bit n w OR push_bit (32 - n) w"

definition sha_pad :: "bytes \<Rightarrow> bytes" where
  "sha_pad m = m @ [char_of (128 :: nat)] @ replicate ((119 - length m mod 64) mod 64) (char_of (0 :: nat))
     @ be_bytes 8 (8 * length m)"

text \<open>Splitting into pieces of equal length; a shorter rest is dropped (there is none).\<close>

fun chunks :: "nat \<Rightarrow> nat \<Rightarrow> 'a list \<Rightarrow> 'a list list" where
  "chunks 0 n xs = []"
| "chunks (Suc k) n xs = take n xs # chunks k n (drop n xs)"

definition block_words :: "bytes \<Rightarrow> 32 word list" where
  "block_words b = map (\<lambda>c. word_of_nat (be_value c)) (chunks 16 4 b)"

text \<open>The message schedule, newest word first.\<close>

fun sha_extend :: "nat \<Rightarrow> 32 word list \<Rightarrow> 32 word list" where
  "sha_extend 0 ws = ws"
| "sha_extend (Suc k) ws =
     (let a = ws ! 14; b = ws ! 1;
          s0 = rotr 7 a XOR rotr 18 a XOR drop_bit 3 a;
          s1 = rotr 17 b XOR rotr 19 b XOR drop_bit 10 b
      in sha_extend k ((ws ! 15 + s0 + ws ! 6 + s1) # ws))"

definition sha_round :: "sha_state \<Rightarrow> 32 word \<times> 32 word \<Rightarrow> sha_state" where
  "sha_round s kw =
     (case s of
        [a, b, c, d, e, f, g, h] \<Rightarrow>
          (let s1 = rotr 6 e XOR rotr 11 e XOR rotr 25 e;
               ch = (e AND f) XOR (NOT e AND g);
               t1 = h + s1 + ch + fst kw + snd kw;
               s0 = rotr 2 a XOR rotr 13 a XOR rotr 22 a;
               maj = (a AND b) XOR (a AND c) XOR (b AND c);
               t2 = s0 + maj
           in [t1 + t2, a, b, c, d + t1, e, f, g])
      | _ \<Rightarrow> s)"

definition sha_block :: "sha_state \<Rightarrow> bytes \<Rightarrow> sha_state" where
  "sha_block s b =
     map2 (+) s (foldl sha_round s (zip sha_k (rev (sha_extend 48 (rev (block_words b))))))"

definition sha256 :: "bytes \<Rightarrow> bytes" where
  "sha256 m =
     (let p = sha_pad m
      in concat (map (\<lambda>w. be_bytes 4 (unat w)) (foldl sha_block sha_init (chunks (length p div 64) 64 p))))"

lemma length_sha_round: "length s = 8 \<Longrightarrow> length (sha_round s kw) = 8"
  by (auto simp: sha_round_def Let_def split: list.split)

lemma length_foldl:
  "(\<And>s x. length s = n \<Longrightarrow> length (f s x) = n) \<Longrightarrow> length s = n \<Longrightarrow> length (foldl f s xs) = n"
  by (induction xs arbitrary: s) auto

lemma length_sha_block: "length s = 8 \<Longrightarrow> length (sha_block s b) = 8"
  by (simp add: sha_block_def length_foldl[OF length_sha_round])

lemma length_concat_same: "(\<And>x. x \<in> set xs \<Longrightarrow> length (f x) = n) \<Longrightarrow> length (concat (map f xs)) = length xs * n"
  by (induction xs) auto

lemma length_sha256 [simp]: "length (sha256 m) = 32"
proof -
  have "length (foldl sha_block sha_init bs) = 8" for bs
    by (rule length_foldl[OF length_sha_block]) simp_all
  then show ?thesis by (simp add: sha256_def Let_def length_concat_same[where n = 4])
qed

definition sha256_hex :: "bytes \<Rightarrow> string" where
  "sha256_hex m = hex_encode (sha256 m)"

lemma length_sha256_hex [simp]: "length (sha256_hex m) = 64"
  by (simp add: sha256_hex_def)

lemma sha256_hex_chars: "c \<in> set (sha256_hex m) \<Longrightarrow> hex_char c"
  by (auto simp: sha256_hex_def dest: hex_encode_chars)

section \<open>HMAC\<close>

definition xor_byte :: "nat \<Rightarrow> char \<Rightarrow> char" where
  "xor_byte n c = char_of (n XOR of_char c)"

definition hmac_key :: "bytes \<Rightarrow> bytes" where
  "hmac_key k = (let k' = (if length k > 64 then sha256 k else k)
                 in k' @ replicate (64 - length k') (char_of (0 :: nat)))"

definition hmacSHA256 :: "bytes \<Rightarrow> bytes \<Rightarrow> bytes" where
  "hmacSHA256 key data =
     sha256 (map (xor_byte 92) (hmac_key key) @ sha256 (map (xor_byte 54) (hmac_key key) @ data))"

lemma length_hmacSHA256 [simp]: "length (hmacSHA256 k d) = 32"
  by (simp add: hmacSHA256_def)

end
