(* ===== verification/Data_Store.thy ===== *)
theory Data_Store
  imports Go_Os Go_Crypto
begin

text \<open>
  The storage of data-service: the interface \<open>storage.Backend\<close> as a record of operations with its
  contract, and the backend on the file system (\<open>internal/backend/localfs/store.go\<close>).  A blob is
  stored under its namespace and the hexadecimal SHA-256 of its content, in a path sharded by the
  first four digits; an upload goes to a temporary file first and is renamed into place.

  Each system call of an operation may fail with an input/output error: \<open>de_fail env n\<close> says that the
  environment lets call number \<open>n\<close> of the operation fail.
\<close>

section \<open>Interface\<close>

record data_env =
  de_ctx :: ctx
  de_tmp :: string
  de_fail :: "nat \<Rightarrow> bool"

text \<open>An upload is the bytes that arrive and the error that ends them early, if any.\<close>

record upload =
  u_data :: bytes
  u_error :: "os_error option"

text \<open>Reading a hash shorter than four bytes panics (slice bounds).\<close>

datatype data_error = OsErr os_error | Panic

record 'd data_backend =
  bk_write :: "data_env \<Rightarrow> string \<Rightarrow> upload \<Rightarrow> 'd \<Rightarrow> (data_error + string \<times> nat) \<times> 'd"
  bk_read :: "data_env \<Rightarrow> string \<Rightarrow> string \<Rightarrow> 'd \<Rightarrow> data_error + os_file"
  bk_delete :: "data_env \<Rightarrow> string \<Rightarrow> string \<Rightarrow> 'd \<Rightarrow> (data_error + unit) \<times> 'd"

section \<open>The backend on the file system\<close>

definition attempt :: "data_env \<Rightarrow> nat \<Rightarrow> (fsys \<Rightarrow> (os_error + 'a) \<times> fsys) \<Rightarrow> fsys \<Rightarrow> (os_error + 'a) \<times> fsys" where
  "attempt env n call fs = (if de_fail env n then (Inl EIO, fs) else call fs)"

definition NewLocalStore :: "path \<Rightarrow> data_env \<Rightarrow> fsys \<Rightarrow> (os_error + unit) \<times> fsys" where
  "NewLocalStore base env = attempt env 0 (os_mkdir_all (base @ [''tmp'']))"

definition LocalStore_Ready :: "path \<Rightarrow> data_env \<Rightarrow> fsys \<Rightarrow> go_error option \<times> fsys" where
  "LocalStore_Ready base env fs =
     (case de_ctx env 0 of
        Some err \<Rightarrow> (Some err, fs)
      | None \<Rightarrow>
          (case attempt env 0 (os_create_temp (base @ [''tmp'']) (''ready-'' @ de_tmp env @ ''.tmp'')) fs of
             (Inl e, fs1) \<Rightarrow> (Some (Plain [Lit ''data dir not writable'']), fs1)
           | (Inr name, fs1) \<Rightarrow>
               (case attempt env 1 (os_remove name) fs1 of
                  (Inl e, fs2) \<Rightarrow> (Some (Plain [Lit ''remove'']), fs2)
                | (Inr _, fs2) \<Rightarrow> (None, fs2))))"

definition getShardedPath :: "path \<Rightarrow> string \<Rightarrow> string \<Rightarrow> path option" where
  "getShardedPath base namespace hash =
     (if length hash < 4 then None
      else Some (path_join base [namespace, ''objects'', take 2 hash, take 2 (drop 2 hash), hash]))"

definition LocalStore_Write ::
    "path \<Rightarrow> data_env \<Rightarrow> string \<Rightarrow> upload \<Rightarrow> fsys \<Rightarrow> (data_error + string \<times> nat) \<times> fsys" where
  "LocalStore_Write base env namespace r fs =
     (case attempt env 0 (os_create_temp (base @ [''tmp'']) (''upload-'' @ de_tmp env @ ''.tmp'')) fs of
        (Inl e, fs0) \<Rightarrow> (Inl (OsErr e), fs0)
      | (Inr tmpFile, fs0) \<Rightarrow>
          (let fs1 = os_write tmpFile (u_data r) fs0
           in case (if u_error r = None \<and> de_fail env 1 then Some EIO else u_error r) of
                Some e \<Rightarrow> (Inl (OsErr e), snd (attempt env 4 (os_remove tmpFile) fs1))
              | None \<Rightarrow>
                  (let hash = sha256_hex (u_data r)
                   in case getShardedPath base namespace hash of
                        None \<Rightarrow> (Inl Panic, fs1)
                      | Some finalPath \<Rightarrow>
                          (case attempt env 2 (os_mkdir_all (butlast finalPath)) fs1 of
                             (Inl e, fs2) \<Rightarrow> (Inl (OsErr e), snd (attempt env 4 (os_remove tmpFile) fs2))
                           | (Inr _, fs2) \<Rightarrow>
                               (case attempt env 3 (os_rename tmpFile finalPath) fs2 of
                                  (Inl e, fs3) \<Rightarrow> (Inl (OsErr e), fs3)
                                | (Inr _, fs3) \<Rightarrow> (Inr (hash, length (u_data r)), fs3))))))"

definition LocalStore_Read ::
    "path \<Rightarrow> data_env \<Rightarrow> string \<Rightarrow> string \<Rightarrow> fsys \<Rightarrow> data_error + os_file" where
  "LocalStore_Read base env namespace hash fs =
     (case getShardedPath base namespace hash of
        None \<Rightarrow> Inl Panic
      | Some path \<Rightarrow>
          if de_fail env 0 then Inl (OsErr EIO)
          else (case os_open path fs of Inl e \<Rightarrow> Inl (OsErr e) | Inr file \<Rightarrow> Inr file))"

text \<open>
  The clean-up removes directories upwards until one cannot be removed.  It means to stop at the
  objects directory, but compares with \<open>base/objects\<close> while the shards are in
  \<open>base/namespace/objects\<close>.
\<close>

function cleanUpEmptyDirs :: "path \<Rightarrow> data_env \<Rightarrow> nat \<Rightarrow> path \<Rightarrow> fsys \<Rightarrow> fsys" where
  "cleanUpEmptyDirs base env n dir fs =
     (if dir = base @ [''objects''] \<or> dir = [] then fs
      else case attempt env n (os_remove dir) fs of
        (Inl _, fs') \<Rightarrow> fs'
      | (Inr _, fs') \<Rightarrow> cleanUpEmptyDirs base env (Suc n) (butlast dir) fs')"
  by pat_completeness auto
termination
  by (relation "measure (\<lambda>(base, env, n, dir, fs). length dir)") auto

declare cleanUpEmptyDirs.simps [simp del]

definition LocalStore_Delete ::
    "path \<Rightarrow> data_env \<Rightarrow> string \<Rightarrow> string \<Rightarrow> fsys \<Rightarrow> (data_error + unit) \<times> fsys" where
  "LocalStore_Delete base env namespace hash fs =
     (case getShardedPath base namespace hash of
        None \<Rightarrow> (Inl Panic, fs)
      | Some path \<Rightarrow>
          (case attempt env 0 (os_remove path) fs of
             (Inl e, fs1) \<Rightarrow>
               if \<not> os_is_not_exist e then (Inl (OsErr e), fs1)
               else (Inr (), cleanUpEmptyDirs base env 1 (butlast path) fs1)
           | (Inr _, fs1) \<Rightarrow> (Inr (), cleanUpEmptyDirs base env 1 (butlast path) fs1)))"

definition LocalStore :: "path \<Rightarrow> fsys data_backend" where
  "LocalStore base = \<lparr>bk_write = LocalStore_Write base, bk_read = LocalStore_Read base,
     bk_delete = LocalStore_Delete base\<rparr>"

lemma LocalStore_sel [simp]:
  "bk_write (LocalStore base) = LocalStore_Write base"
  "bk_read (LocalStore base) = LocalStore_Read base"
  "bk_delete (LocalStore base) = LocalStore_Delete base"
  by (simp_all add: LocalStore_def)

section \<open>Blobs\<close>

text \<open>
  A name that routing can hand to the backend has no slash; \<open>plain\<close> names are not special to the
  file system either.  A hash the store itself gave out is 64 hexadecimal digits.
\<close>

definition slash_free :: "string \<Rightarrow> bool" where
  "slash_free s \<longleftrightarrow> CHR ''/'' \<notin> set s"

definition good_hash :: "string \<Rightarrow> bool" where
  "good_hash h \<longleftrightarrow> length h = 64 \<and> list_all hex_char h"

definition blob_path :: "path \<Rightarrow> string \<Rightarrow> string \<Rightarrow> path" where
  "blob_path base ns h = base @ [ns, ''objects'', take 2 h, take 2 (drop 2 h), h]"

definition blob :: "path \<Rightarrow> fsys \<Rightarrow> string \<Rightarrow> string \<Rightarrow> bytes option" where
  "blob base fs ns h =
     (if plain ns \<and> good_hash h then file_at fs (blob_path base ns h) else None)"

lemma good_hash_sha256 [simp]: "good_hash (sha256_hex m)"
  by (simp add: good_hash_def list_all_iff sha256_hex_chars)

lemma hex_plain:
  assumes "list_all hex_char s" and "s \<noteq> []"
  shows "plain s"
  using assms by (cases s) (auto simp: plain_def hex_char_def byte_in_def list_all_iff)

lemma good_hash_plain:
  assumes "good_hash h"
  shows "plain h" "plain (take 2 h)" "plain (take 2 (drop 2 h))" "\<not> length h < 4"
  using assms
  by (auto intro!: hex_plain simp: good_hash_def list_all_iff) (meson in_set_takeD in_set_dropD)+

lemma getShardedPath_good:
  "plain ns \<Longrightarrow> good_hash h \<Longrightarrow> getShardedPath base ns h = Some (blob_path base ns h)"
  using good_hash_plain[of h]
  by (simp add: getShardedPath_def blob_path_def path_join_plain plain_def)

lemma blob_path_inject: "blob_path base ns h = blob_path base ns' h' \<longleftrightarrow> ns = ns' \<and> h = h'"
  by (auto simp: blob_path_def)

text \<open>Any other request path is shorter than the path of a blob.\<close>

lemma foldl_push_length: "length (foldl push_component p cs) \<le> length p + length cs"
proof (induction cs arbitrary: p)
  case Nil
  then show ?case by simp
next
  case (Cons c cs)
  from Cons.IH[of "push_component p c"] length_push[of p c] show ?case by simp
qed

lemma foldl_push_full:
  "\<forall>c \<in> set cs. CHR ''/'' \<notin> set c \<Longrightarrow> length (foldl push_component p cs) = length p + length cs \<Longrightarrow>
     foldl push_component p cs = p @ cs"
proof (induction cs arbitrary: p)
  case Nil
  then show ?case by simp
next
  case (Cons c cs)
  from Cons.prems(2) foldl_push_length[of "push_component p c" cs] length_push[of p c]
  have l: "length (push_component p c) = Suc (length p)" by simp
  then have "push_component p c = p @ [c]" by (auto simp: push_component_def split: if_splits)
  with Cons.IH[of "p @ [c]"] Cons.prems show ?case by simp
qed

lemma getShardedPath_cases:
  assumes "getShardedPath base ns h = Some p" and "slash_free ns" and "slash_free h"
  shows "p = blob_path base ns h \<or> length p < length base + 5"
proof -
  let ?cs = "[ns, ''objects'', take 2 h, take 2 (drop 2 h), h]"
  have sf: "\<forall>c \<in> set ?cs. CHR ''/'' \<notin> set c"
    using assms(2,3) by (auto simp: slash_free_def dest: in_set_takeD in_set_dropD)
  then have "concat (map (split_on CHR ''/'') ?cs) = ?cs" by (simp add: split_on_none)
  with assms(1) have p: "p = foldl push_component base ?cs"
    by (auto simp: getShardedPath_def path_join_def split: if_splits)
  show ?thesis
  proof (cases "length p = length base + 5")
    case True
    with foldl_push_full[OF sf, of base] p show ?thesis by (simp add: blob_path_def)
  next
    case False
    with foldl_push_length[of base ?cs] p show ?thesis by simp
  qed
qed

lemma blob_path_other:
  assumes "getShardedPath base ns h = Some p" and "slash_free ns" "slash_free h"
    and "(ns', h') \<noteq> (ns, h)"
  shows "blob_path base ns' h' \<noteq> p"
  using getShardedPath_cases[OF assms(1-3)] assms(4) by (auto simp: blob_path_def)

section \<open>What the operations do to the files\<close>

lemma attempt_Inr: "attempt env n call fs = (Inr x, fs') \<Longrightarrow> call fs = (Inr x, fs')"
  by (simp add: attempt_def split: if_splits)

lemma attempt_remove_Inl: "attempt env n (os_remove p) fs = (Inl e, fs') \<Longrightarrow> fs' = fs"
  by (auto simp: attempt_def split: if_splits dest: os_remove_error)

lemma attempt_remove_missing:
  "attempt env n (os_remove p) fs = (Inl e, fs') \<Longrightarrow> os_is_not_exist e \<Longrightarrow>
     file_at fs p = None \<and> \<not> is_dir fs p \<and> \<not> below_file fs p"
  by (auto simp: attempt_def os_remove_def lookup_error_def os_is_not_exist_def split: if_splits)

text \<open>The clean-up touches no file, and a directory with a file below it stays.\<close>

lemma cleanUp_files:
  "fs_ok fs \<Longrightarrow> \<forall>n. file_at fs (take n dir) = None \<Longrightarrow>
     fs_ok (cleanUpEmptyDirs base env n dir fs) \<and> file_at (cleanUpEmptyDirs base env n dir fs) = file_at fs
     \<and> (\<forall>q. is_dir (cleanUpEmptyDirs base env n dir fs) q \<longrightarrow> is_dir fs q)"
proof (induction base env n dir fs rule: cleanUpEmptyDirs.induct)
  case (1 base env n dir fs)
  show ?case
  proof (cases "dir = base @ [''objects''] \<or> dir = []")
    case True
    with 1 show ?thesis by (simp add: cleanUpEmptyDirs.simps)
  next
    case False
    obtain res fs1 where r: "attempt env n (os_remove dir) fs = (res, fs1)" by (meson prod.exhaust)
    show ?thesis
    proof (cases res)
      case (Inl e)
      from attempt_remove_Inl[OF r[unfolded Inl]] have "fs1 = fs" .
      with False r Inl 1 show ?thesis by (simp add: cleanUpEmptyDirs.simps)
    next
      case (Inr u)
      from attempt_Inr[OF r[unfolded Inr]] have rm: "os_remove dir fs = (Inr u, fs1)" .
      have "file_at fs dir = None" using 1(3)[rule_format, of "length dir"] by simp
      from os_remove_dir[OF 1(2) this rm] have p: "fs_ok fs1" "file_at fs1 = file_at fs"
        "\<forall>q. is_dir fs1 q \<longrightarrow> is_dir fs q" by auto
      have "\<forall>m. file_at fs1 (take m (butlast dir)) = None"
        using 1(3) p(2) by (simp add: butlast_conv_take)
      from 1(1)[OF False r[symmetric] Inr p(1) this] p False r Inr show ?thesis
        by (auto simp: cleanUpEmptyDirs.simps[of base env n dir fs])
    qed
  qed
qed

text \<open>It removes only directories on its way up.\<close>

lemma cleanUp_dirs:
  "fs_ok fs \<Longrightarrow> \<forall>n. file_at fs (take n dir) = None \<Longrightarrow> is_dir fs q \<Longrightarrow> \<not> prefix q dir \<Longrightarrow>
     is_dir (cleanUpEmptyDirs base env n dir fs) q"
proof (induction base env n dir fs rule: cleanUpEmptyDirs.induct)
  case (1 base env n dir fs)
  show ?case
  proof (cases "dir = base @ [''objects''] \<or> dir = []")
    case True
    with 1 show ?thesis by (simp add: cleanUpEmptyDirs.simps)
  next
    case False
    obtain res fs1 where r: "attempt env n (os_remove dir) fs = (res, fs1)" by (meson prod.exhaust)
    show ?thesis
    proof (cases res)
      case (Inl e)
      from attempt_remove_Inl[OF r[unfolded Inl]] have "fs1 = fs" .
      with False r Inl 1 show ?thesis by (simp add: cleanUpEmptyDirs.simps)
    next
      case (Inr u)
      from attempt_Inr[OF r[unfolded Inr]] have rm: "os_remove dir fs = (Inr u, fs1)" .
      have "file_at fs dir = None" using 1(3)[rule_format, of "length dir"] by simp
      from os_remove_dir[OF 1(2) this rm] have p: "fs_ok fs1" "file_at fs1 = file_at fs" "is_dir fs1 q"
        using 1(4,5) by auto
      have "\<forall>m. file_at fs1 (take m (butlast dir)) = None"
        using 1(3) p(2) by (simp add: butlast_conv_take)
      moreover have "\<not> prefix q (butlast dir)"
        using 1(5) by (metis prefix_order.trans prefixeq_butlast)
      ultimately show ?thesis using 1(1)[OF False r[symmetric] Inr p(1)] p(3) False r Inr
        by (simp add: cleanUpEmptyDirs.simps[of base env n dir fs])
    qed
  qed
qed

lemma no_file_on_way:
  assumes "fs_ok fs" and "file_at fs p \<noteq> None \<or> is_dir fs p \<or> \<not> below_file fs p"
  shows "file_at fs (take n (butlast p)) = None"
proof (cases "is_dir fs (butlast p)")
  case True
  from fs_okD(3)[OF assms(1) is_dir_take[OF assms(1) True]] show ?thesis .
next
  case False
  with assms fs_okD[OF assms(1)] have nb: "\<not> below_file fs p" by blast
  show ?thesis
  proof (cases "p = []")
    case True
    with assms(1) show ?thesis by (simp add: fs_ok_def)
  next
    case p: False
    have "take n (butlast p) = take (min n (length p - 1)) p" by (simp add: butlast_conv_take min.commute)
    moreover have "min n (length p - 1) < length p" using p by (cases p) auto
    ultimately show ?thesis using not_below_file[OF assms(1) nb] by simp
  qed
qed

text \<open>Delete removes the file of the blob, if any, and no other file.\<close>

lemma Delete_files:
  assumes ok: "fs_ok fs" and p: "getShardedPath base ns h = Some p"
    and run: "LocalStore_Delete base env ns h fs = (res, fs')"
  shows "fs_ok fs' \<and> (case res of Inl _ \<Rightarrow> fs' = fs | Inr _ \<Rightarrow> file_at fs' = (file_at fs)(p := None))"
proof -
  obtain r fs1 where r: "attempt env 0 (os_remove p) fs = (r, fs1)" by (meson prod.exhaust)
  show ?thesis
  proof (cases r)
    case (Inr u)
    from attempt_Inr[OF r[unfolded Inr]] have rm: "os_remove p fs = (Inr u, fs1)" .
    have e: "fs_ok fs1 \<and> file_at fs1 = (file_at fs)(p := None)
      \<and> (file_at fs p \<noteq> None \<or> is_dir fs p)"
    proof (cases "file_at fs p = None")
      case True
      from os_remove_dir[OF ok True rm] True show ?thesis by (auto simp: fun_eq_iff)
    next
      case False
      from os_remove_file[OF ok False] rm False show ?thesis by auto
    qed
    then have "\<forall>n. file_at fs1 (take n (butlast p)) = None"
      using no_file_on_way[OF ok, of p] by auto
    from cleanUp_files[OF _ this, of base env 1] e run p r Inr show ?thesis
      by (auto simp: LocalStore_Delete_def)
  next
    case (Inl e)
    with r have r': "attempt env 0 (os_remove p) fs = (Inl e, fs1)" by simp
    then have fs1: "fs1 = fs" by (rule attempt_remove_Inl)
    show ?thesis
    proof (cases "os_is_not_exist e")
      case False
      with run p r Inl fs1 ok show ?thesis by (auto simp: LocalStore_Delete_def)
    next
      case True
      note gone = attempt_remove_missing[OF r' True]
      then have "\<forall>n. file_at fs (take n (butlast p)) = None"
        using no_file_on_way[OF ok, of p] by auto
      from cleanUp_files[OF ok this, of base env 1] gone run p r Inl fs1 True show ?thesis
        by (auto simp: LocalStore_Delete_def fun_upd_idem)
    qed
  qed
qed

text \<open>Delete keeps every directory that is not on the way to the blob.\<close>

lemma Delete_dirs:
  assumes ok: "fs_ok fs" and p: "getShardedPath base ns h = Some p"
    and run: "LocalStore_Delete base env ns h fs = (res, fs')"
    and q: "is_dir fs q" "\<not> prefix q p"
  shows "is_dir fs' q"
proof -
  obtain r fs1 where r: "attempt env 0 (os_remove p) fs = (r, fs1)" by (meson prod.exhaust)
  have q': "\<not> prefix q (butlast p)" using q(2) by (metis prefix_order.trans prefixeq_butlast)
  have "fs_ok fs1 \<and> (file_at fs1 = (file_at fs)(p := None)) \<and> is_dir fs1 q
      \<and> (file_at fs p \<noteq> None \<or> is_dir fs p \<or> \<not> below_file fs p) \<or> (\<exists>e. r = Inl e \<and> fs1 = fs \<and> \<not> os_is_not_exist e)"
  proof (cases r)
    case (Inl e)
    with r attempt_remove_Inl[OF r[unfolded Inl]] attempt_remove_missing[OF r[unfolded Inl]] ok q(1)
    show ?thesis by (cases "os_is_not_exist e") (auto simp: fun_upd_idem)
  next
    case (Inr u)
    note rm = attempt_Inr[OF r[unfolded Inr]]
    show ?thesis
    proof (cases "file_at fs p = None")
      case True
      from os_remove_dir[OF ok True rm] True q show ?thesis by (auto simp: fun_eq_iff)
    next
      case False
      from os_remove_file[OF ok False] rm False q show ?thesis by auto
    qed
  qed
  then show ?thesis
  proof (elim disjE exE conjE, goal_cases)
    case 1
    then have "\<forall>n. file_at fs1 (take n (butlast p)) = None" using no_file_on_way[OF ok, of p] by auto
    from cleanUp_dirs[OF 1(1) this 1(3) q', of base env 1] run p r 1(3) show ?case
      by (auto simp: LocalStore_Delete_def split: sum.splits if_splits)
  next
    case 2
    then have "\<forall>n. file_at fs1 (take n (butlast p)) = None" using no_file_on_way[OF ok, of p] by auto
    from cleanUp_dirs[OF 2(1) this 2(3) q', of base env 1] run p r 2(3) show ?case
      by (auto simp: LocalStore_Delete_def split: sum.splits if_splits)
  next
    case 3
    then have "\<forall>n. file_at fs1 (take n (butlast p)) = None" using no_file_on_way[OF ok, of p] by auto
    from cleanUp_dirs[OF 3(1) this 3(3) q', of base env 1] run p r 3(3) show ?case
      by (auto simp: LocalStore_Delete_def split: sum.splits if_splits)
  next
    case (4 e)
    with run p r q(1) show ?case by (auto simp: LocalStore_Delete_def)
  qed
qed

text \<open>Write stores the content under its hash and leaves no temporary file behind when it succeeds.\<close>

definition temp_path :: "path \<Rightarrow> data_env \<Rightarrow> path" where
  "temp_path base env = base @ [''tmp'', ''upload-'' @ de_tmp env @ ''.tmp'']"

lemma getShardedPath_last:
  assumes "getShardedPath base ns h = Some p" and "plain h"
  shows "p \<noteq> [] \<and> last p = h"
proof -
  have "split_on CHR ''/'' h = [h]" using assms(2) by (simp add: plain_def split_on_none)
  moreover have "path_join base [a, b, c, d, h] =
      foldl push_component base (concat (map (split_on CHR ''/'') [a, b, c, d]) @ split_on CHR ''/'' h)" for a b c d
    by (simp add: path_join_def)
  ultimately show ?thesis using assms by (auto simp: getShardedPath_def push_plain split: if_splits)
qed

lemma temp_path_other:
  "getShardedPath base ns h = Some p \<Longrightarrow> good_hash h \<Longrightarrow> temp_path base env \<noteq> p"
  using getShardedPath_last[of base ns h p] good_hash_plain(1)[of h]
  by (auto simp: temp_path_def good_hash_def hex_char_def byte_in_def)

lemma attempt_remove_temp:
  assumes "fs_ok fs" and "file_at fs p \<noteq> None"
  shows "fs_ok (snd (attempt env n (os_remove p) fs))
    \<and> (q \<noteq> p \<longrightarrow> file_at (snd (attempt env n (os_remove p) fs)) q = file_at fs q)"
  using os_remove_file[OF assms] assms by (auto simp: attempt_def)

lemma Write_files:
  assumes ok: "fs_ok fs" and run: "LocalStore_Write base env ns r fs = (res, fs')"
  shows "fs_ok fs' \<and> (case res of
      Inl _ \<Rightarrow> \<forall>q. q \<noteq> temp_path base env \<longrightarrow> file_at fs' q = file_at fs q
    | Inr (h, n) \<Rightarrow> u_error r = None \<and> h = sha256_hex (u_data r) \<and> n = length (u_data r) \<and>
        (\<exists>p. getShardedPath base ns h = Some p \<and> file_at fs' = (file_at fs)(p \<mapsto> u_data r)))"
proof -
  let ?tmp = "temp_path base env"
  let ?create = "attempt env 0 (os_create_temp (base @ [''tmp'']) (''upload-'' @ de_tmp env @ ''.tmp'')) fs"
  show ?thesis
  proof (cases ?create)
    case (Pair c fs0)
    show ?thesis
    proof (cases c)
      case (Inl e)
      with Pair have "fs0 = fs"
        using os_create_temp_spec[OF ok, of "base @ [''tmp'']" _ c fs0] by (auto simp: attempt_def split: if_splits)
      with Pair Inl run ok show ?thesis by (auto simp: LocalStore_Write_def)
    next
      case (Inr t)
      from os_create_temp_spec[OF ok attempt_Inr[OF Pair[unfolded Inr]]]
      have c1: "fs_ok fs0" "t = ?tmp" "file_at fs ?tmp = None" "file_at fs0 = (file_at fs)(?tmp \<mapsto> [])"
        by (auto simp: temp_path_def)
      define fs1 where "fs1 = os_write ?tmp (u_data r) fs0"
      from os_write_spec[OF c1(1), of ?tmp "u_data r"] c1(4)
      have w: "fs_ok fs1" "file_at fs1 = (file_at fs)(?tmp \<mapsto> u_data r)"
        by (simp_all add: fs1_def)
      note head = Pair[unfolded Inr c1(2)]
      show ?thesis
      proof (cases "if u_error r = None \<and> de_fail env 1 then Some EIO else u_error r")
        case (Some e)
        with head run have "res = Inl (OsErr e)" "fs' = snd (attempt env 4 (os_remove ?tmp) fs1)"
          by (auto simp: LocalStore_Write_def fs1_def)
        with attempt_remove_temp[OF w(1), of ?tmp env 4] w(2) show ?thesis by auto
      next
        case None
        let ?h = "sha256_hex (u_data r)"
        obtain p where p: "getShardedPath base ns ?h = Some p"
          using length_sha256_hex[of "u_data r"] by (simp add: getShardedPath_def)
        obtain m fs2 where m: "attempt env 2 (os_mkdir_all (butlast p)) fs1 = (m, fs2)" by (meson prod.exhaust)
        have m2: "fs_ok fs2" "file_at fs2 = file_at fs1"
          using m os_mkdir_all_spec[OF w(1), of "butlast p" m fs2] w(1) by (auto simp: attempt_def split: if_splits)
        show ?thesis
        proof (cases m)
          case (Inl e)
          with head run None p m have "res = Inl (OsErr e)" "fs' = snd (attempt env 4 (os_remove ?tmp) fs2)"
            by (auto simp: LocalStore_Write_def fs1_def[symmetric])
          with attempt_remove_temp[OF m2(1), of ?tmp env 4] m2(2) w(2) show ?thesis by auto
        next
          case (Inr u)
          obtain k fs3 where k: "attempt env 3 (os_rename ?tmp p) fs2 = (k, fs3)" by (meson prod.exhaust)
          have tp: "?tmp \<noteq> p" by (rule temp_path_other[OF p good_hash_sha256])
          have "file_at fs2 ?tmp = Some (u_data r)" using m2(2) w(2) by simp
          with k os_rename_spec[OF m2(1) _ this tp, of k fs3] m2(1)
          have k3: "fs_ok fs3" "case k of Inl _ \<Rightarrow> fs3 = fs2
              | Inr _ \<Rightarrow> file_at fs3 = (file_at fs2)(?tmp := None, p \<mapsto> u_data r)"
            by (auto simp: attempt_def split: if_splits sum.splits)
          have run': "(res, fs') = (case k of Inl e \<Rightarrow> (Inl (OsErr e), fs3) | Inr _ \<Rightarrow> (Inr (?h, length (u_data r)), fs3))"
            using head run None p m Inr k by (auto simp: LocalStore_Write_def fs1_def[symmetric] split: sum.splits)
          have "((file_at fs)(?tmp \<mapsto> u_data r))(?tmp := None, p \<mapsto> u_data r) = (file_at fs)(p \<mapsto> u_data r)"
            using c1(3) by (auto simp: fun_eq_iff)
          with k3 run' m2(2) w(2) p None show ?thesis
            by (cases k) (auto split: if_splits)
        qed
      qed
    qed
  qed
qed

section \<open>The contract of a backend\<close>

text \<open>
  \<open>blobs d ns h\<close> is the blob of a plain namespace and hash.  A write or delete may fail and then
  changes no blob.
\<close>

locale blob_contract =
  fixes K :: "'d data_backend"
    and inv :: "'d \<Rightarrow> bool"
    and blobs :: "'d \<Rightarrow> string \<Rightarrow> string \<Rightarrow> bytes option"
  assumes blobs_named: "inv d \<Longrightarrow> blobs d ns h = Some data \<Longrightarrow> h = sha256_hex data"
    and bread_Some: "inv d \<Longrightarrow> \<not> de_fail env 0 \<Longrightarrow> blobs d ns h = Some data \<Longrightarrow>
      bk_read K env ns h d = Inr (Regular data)"
    and bread_None: "inv d \<Longrightarrow> plain ns \<Longrightarrow> good_hash h \<Longrightarrow> blobs d ns h = None \<Longrightarrow>
      bk_read K env ns h d \<noteq> Inr (Regular data)"
    and bwrite_Inr: "inv d \<Longrightarrow> slash_free ns \<Longrightarrow> bk_write K env ns r d = (Inr (h, n), d') \<Longrightarrow>
      inv d' \<and> u_error r = None \<and> h = sha256_hex (u_data r) \<and> n = length (u_data r)
      \<and> blobs d' = (if plain ns then (blobs d)(ns := (blobs d ns)(h \<mapsto> u_data r)) else blobs d)"
    and bwrite_Inl: "inv d \<Longrightarrow> slash_free ns \<Longrightarrow> bk_write K env ns r d = (Inl e, d') \<Longrightarrow>
      inv d' \<and> blobs d' = blobs d"
    and bdelete_Inr: "inv d \<Longrightarrow> slash_free ns \<Longrightarrow> slash_free h \<Longrightarrow> bk_delete K env ns h d = (Inr u, d') \<Longrightarrow>
      inv d' \<and> blobs d' = (blobs d)(ns := (blobs d ns)(h := None))"
    and bdelete_Inl: "bk_delete K env ns h d = (Inl e, d') \<Longrightarrow> d' = d"
begin

text \<open>An upload can be read back under the hash it returned.\<close>

lemma write_read:
  "inv d \<Longrightarrow> plain ns \<Longrightarrow> bk_write K env ns r d = (Inr (h, n), d') \<Longrightarrow> \<not> de_fail env' 0 \<Longrightarrow>
     bk_read K env' ns h d' = Inr (Regular (u_data r))"
  using bwrite_Inr[of d ns env r h n d'] by (auto simp: plain_def slash_free_def intro!: bread_Some)

text \<open>Uploading the same bytes twice is one blob, and then one delete removes it.\<close>

lemma write_twice:
  "inv d \<Longrightarrow> plain ns \<Longrightarrow> bk_write K env ns r d = (Inr (h, n), d1) \<Longrightarrow>
     bk_write K env' ns r' d1 = (Inr (h', n'), d2) \<Longrightarrow> u_data r' = u_data r \<Longrightarrow>
     h' = h \<and> blobs d2 = blobs d1"
  using bwrite_Inr[of d ns env r h n d1] bwrite_Inr[of d1 ns env' r' h' n' d2]
  by (auto simp: plain_def slash_free_def)

lemma delete_shared:
  "inv d \<Longrightarrow> plain ns \<Longrightarrow> slash_free h \<Longrightarrow> good_hash h \<Longrightarrow> bk_delete K env ns h d = (Inr u, d') \<Longrightarrow>
     bk_read K env' ns h d' \<noteq> Inr (Regular data)"
  using bdelete_Inr[of d ns h env u d'] bread_None[of d' ns h env' data]
  by (auto simp: plain_def slash_free_def)

end

section \<open>The file system backend keeps the contract\<close>

definition store_ok :: "path \<Rightarrow> fsys \<Rightarrow> bool" where
  "store_ok base fs \<longleftrightarrow> fs_ok fs \<and> (\<forall>ns h data. blob base fs ns h = Some data \<longrightarrow> h = sha256_hex data)"

lemma blob_no_temp: "blob_path base ns h \<noteq> temp_path base env"
  by (simp add: blob_path_def temp_path_def)

lemma blob_Write:
  assumes "slash_free ns" and "LocalStore_Write base env ns r fs = (Inr (h, n), fs')" and "fs_ok fs"
  shows "blob base fs' = (if plain ns then (blob base fs)(ns := (blob base fs ns)(h \<mapsto> u_data r)) else blob base fs)"
proof -
  from Write_files[OF assms(3,2)] obtain p where h: "h = sha256_hex (u_data r)"
    and p: "getShardedPath base ns h = Some p" and f: "file_at fs' = (file_at fs)(p \<mapsto> u_data r)" by auto
  have g: "good_hash h" "slash_free h" using h good_hash_plain(1)[of h] by (simp_all add: plain_def slash_free_def)
  have other: "blob base fs' ns' h' = blob base fs ns' h'" if "(ns', h') \<noteq> (ns, h)" for ns' h'
    using blob_path_other[OF p assms(1) g(2) that] by (simp add: blob_def f)
  show ?thesis
  proof (cases "plain ns")
    case True
    with p g(1) have "p = blob_path base ns h" by (simp add: getShardedPath_good)
    with True g(1) f have "blob base fs' ns h = Some (u_data r)" by (simp add: blob_def)
    with True other show ?thesis by (auto simp: fun_eq_iff)
  next
    case False
    then have "blob base fs' ns h = blob base fs ns h" by (simp add: blob_def)
    with other have "blob base fs' x y = blob base fs x y" for x y
      by (cases "(x, y) = (ns, h)") auto
    with False show ?thesis by (simp add: fun_eq_iff)
  qed
qed

lemma blob_Delete:
  assumes "slash_free ns" and "slash_free h" and "LocalStore_Delete base env ns h fs = (Inr u, fs')" and "fs_ok fs"
  shows "blob base fs' = (blob base fs)(ns := (blob base fs ns)(h := None))"
proof -
  from assms(3) obtain p where p: "getShardedPath base ns h = Some p"
    by (auto simp: LocalStore_Delete_def split: option.splits)
  from Delete_files[OF assms(4) p assms(3)] have f: "file_at fs' = (file_at fs)(p := None)" by simp
  have other: "blob base fs' ns' h' = blob base fs ns' h'" if "(ns', h') \<noteq> (ns, h)" for ns' h'
    using blob_path_other[OF p assms(1,2) that] by (simp add: blob_def f)
  have "blob base fs' ns h = None"
    using p f by (auto simp: blob_def getShardedPath_good)
  with other show ?thesis by (auto simp: fun_eq_iff)
qed

interpretation localfs: blob_contract "LocalStore base" "store_ok base" "blob base" for base
proof (unfold_locales, goal_cases)
  case (1 d ns h data)
  then show ?case by (simp add: store_ok_def)
next
  case (2 d env ns h data)
  then have "getShardedPath base ns h = Some (blob_path base ns h)" "file_at d (blob_path base ns h) = Some data"
    by (auto simp: blob_def getShardedPath_good split: if_splits)
  with 2(2) show ?case by (simp add: LocalStore_Read_def os_open_def)
next
  case (3 d ns h env data)
  then have "getShardedPath base ns h = Some (blob_path base ns h)" "file_at d (blob_path base ns h) = None"
    by (auto simp: blob_def getShardedPath_good split: if_splits)
  then show ?case by (simp add: LocalStore_Read_def os_open_def)
next
  case (4 d ns env r h n d')
  then have ok: "fs_ok d" by (simp add: store_ok_def)
  from 4(3) have run: "LocalStore_Write base env ns r d = (Inr (h, n), d')" by simp
  from Write_files[OF ok run] blob_Write[OF 4(2) run ok] 4(1) show ?case
    by (auto simp: store_ok_def)
next
  case (5 d ns env r e d')
  then have ok: "fs_ok d" by (simp add: store_ok_def)
  from 5(3) have run: "LocalStore_Write base env ns r d = (Inl e, d')" by simp
  from Write_files[OF ok run] have "fs_ok d'" "blob base d' = blob base d"
    by (auto simp: blob_def blob_no_temp fun_eq_iff)
  with 5(1) show ?case by (simp add: store_ok_def)
next
  case (6 d ns h env u d')
  then have ok: "fs_ok d" by (simp add: store_ok_def)
  from 6(4) have run: "LocalStore_Delete base env ns h d = (Inr u, d')" by simp
  then obtain p where p: "getShardedPath base ns h = Some p"
    by (auto simp: LocalStore_Delete_def split: option.splits)
  from Delete_files[OF ok p run] blob_Delete[OF 6(2,3) run ok] 6(1) show ?case
    by (auto simp: store_ok_def split: if_splits)
next
  case (7 env ns h d e d')
  then show ?case
    by (auto simp: LocalStore_Delete_def split: option.splits prod.splits sum.splits if_splits dest: attempt_remove_Inl)
qed

end
