(* ===== verification/Data_Api.thy ===== *)
theory Data_Api
  imports Data_Store Go_Http
begin

text \<open>
  The HTTP layer of data-service (\<open>internal/api\<close>) over a backend, and the runs of the service.
  A panic in a handler is recovered by the middleware and answered 500.
\<close>

section \<open>Handlers\<close>

definition data_writeError :: "nat \<Rightarrow> string \<Rightarrow> response" where
  "data_writeError st msg = write_json st (error_json [Lit msg])"

definition recovered :: response where
  "recovered = write_header StatusInternalServerError"

definition data_healthz :: response where
  "data_healthz = write_json StatusOK status_ok_json"

definition data_healthzReady :: "(data_env \<Rightarrow> 'd \<Rightarrow> go_error option \<times> 'd) \<Rightarrow> data_env \<Rightarrow> 'd \<Rightarrow> response \<times> 'd" where
  "data_healthzReady ready env d =
     (case ready env d of
        (Some err, d') \<Rightarrow> (write_json StatusServiceUnavailable (unavailable_json (error_text err)), d')
      | (None, d') \<Rightarrow> (write_json StatusOK status_ok_json, d'))"

definition upload_json :: "string \<Rightarrow> nat \<Rightarrow> string \<Rightarrow> json" where
  "upload_json hash len bkt = JObj [(''bucket'', jstr bkt), (''hash'', jstr hash), (''size'', JInt (int len))]"

definition HandleUpload :: "'d data_backend \<Rightarrow> data_env \<Rightarrow> string \<Rightarrow> upload \<Rightarrow> 'd \<Rightarrow> response \<times> 'd" where
  "HandleUpload K env ns0 r d =
     (let namespace = (if ns0 = [] then ''default-bucket'' else ns0)
      in case bk_write K env namespace r d of
           (Inl Panic, d') \<Rightarrow> (recovered, d')
         | (Inl (OsErr e), d') \<Rightarrow> (data_writeError StatusInternalServerError ''failed to write data'', d')
         | (Inr (hash, n), d') \<Rightarrow> (write_json StatusCreated (upload_json hash n namespace), d'))"

text \<open>Copying an opened directory to the response fails after the status is sent.\<close>

definition HandleDownload :: "'d data_backend \<Rightarrow> data_env \<Rightarrow> string \<Rightarrow> string \<Rightarrow> 'd \<Rightarrow> response" where
  "HandleDownload K env ns hash d =
     (case bk_read K env ns hash d of
        Inl Panic \<Rightarrow> recovered
      | Inl (OsErr e) \<Rightarrow> data_writeError StatusNotFound ''object not found''
      | Inr file \<Rightarrow>
          \<lparr>status = StatusOK, headers = [(''Content-Type'', ''application/octet-stream'')],
           body = RawBody (case file of Regular data \<Rightarrow> data | Directory \<Rightarrow> [])\<rparr>)"

definition HandleDelete :: "'d data_backend \<Rightarrow> data_env \<Rightarrow> string \<Rightarrow> string \<Rightarrow> 'd \<Rightarrow> response \<times> 'd" where
  "HandleDelete K env ns hash d =
     (case bk_delete K env ns hash d of
        (Inl Panic, d') \<Rightarrow> (recovered, d')
      | (Inl (OsErr e), d') \<Rightarrow>
          if os_is_not_exist e then (write_header StatusNoContent, d')
          else (data_writeError StatusInternalServerError ''failed to delete physical file'', d')
      | (Inr _, d') \<Rightarrow> (write_header StatusNoContent, d'))"

section \<open>Dispatch and runs\<close>

datatype data_request =
    DHealthz | DHealthzLive | DHealthzReady | DHealthzStartup
  | DDownload string string
  | DDelete string string
  | DUpload string upload

fun data_serve :: "path \<Rightarrow> data_env \<Rightarrow> data_request \<Rightarrow> fsys \<Rightarrow> response \<times> fsys" where
  "data_serve base env DHealthz fs = (data_healthz, fs)"
| "data_serve base env DHealthzLive fs = (data_healthz, fs)"
| "data_serve base env DHealthzReady fs = data_healthzReady (LocalStore_Ready base) env fs"
| "data_serve base env DHealthzStartup fs = data_healthzReady (LocalStore_Ready base) env fs"
| "data_serve base env (DDownload ns hash) fs = (HandleDownload (LocalStore base) env ns hash fs, fs)"
| "data_serve base env (DDelete ns hash) fs = HandleDelete (LocalStore base) env ns hash fs"
| "data_serve base env (DUpload ns r) fs = HandleUpload (LocalStore base) env ns r fs"

text \<open>Path values of a routed request have no slash.\<close>

fun routed :: "data_request \<Rightarrow> bool" where
  "routed (DDownload ns hash) = (slash_free ns \<and> slash_free hash)"
| "routed (DDelete ns hash) = (slash_free ns \<and> slash_free hash)"
| "routed (DUpload ns r) = slash_free ns"
| "routed _ = True"

inductive data_reachable :: "path \<Rightarrow> fsys \<Rightarrow> bool" for base :: path where
  started: "fs_ok fs0 \<Longrightarrow> (\<And>ns h. blob base fs0 ns h = None) \<Longrightarrow> NewLocalStore base env fs0 = (Inr (), fs) \<Longrightarrow>
    data_reachable base fs"
| served: "data_reachable base fs \<Longrightarrow> routed r \<Longrightarrow> data_serve base env r fs = (resp, fs') \<Longrightarrow>
    data_reachable base fs'"
| restarted: "data_reachable base fs \<Longrightarrow> NewLocalStore base env fs = (res, fs') \<Longrightarrow> data_reachable base fs'"

lemma NewLocalStore_keeps:
  "fs_ok fs \<Longrightarrow> NewLocalStore base env fs = (res, fs') \<Longrightarrow>
     fs_ok fs' \<and> file_at fs' = file_at fs \<and> (res = Inr () \<longrightarrow> is_dir fs' (base @ [''tmp'']))"
  using os_mkdir_all_spec[of fs "base @ [''tmp'']" res fs']
  by (auto simp: NewLocalStore_def attempt_def split: if_splits)

lemma blob_cong: "file_at fs' = file_at fs \<Longrightarrow> blob base fs' = blob base fs"
  by (simp add: blob_def fun_eq_iff)

text \<open>The readiness probe leaves the files as they are, up to its own probe file.\<close>

lemma Ready_keeps:
  assumes "fs_ok fs" and "LocalStore_Ready base env fs = (res, fs')"
  shows "fs_ok fs' \<and> blob base fs' = blob base fs"
proof -
  let ?t = "base @ [''tmp'', ''ready-'' @ de_tmp env @ ''.tmp'']"
  have b: "blob_path base ns h \<noteq> ?t" for ns h by (simp add: blob_path_def)
  obtain c fs1 where c: "attempt env 0 (os_create_temp (base @ [''tmp'']) (''ready-'' @ de_tmp env @ ''.tmp'')) fs
    = (c, fs1)" by (meson prod.exhaust)
  show ?thesis
  proof (cases "de_ctx env 0")
    case (Some e)
    with assms show ?thesis by (simp add: LocalStore_Ready_def)
  next
    case None
    show ?thesis
    proof (cases c)
      case (Inl e)
      with c have "fs1 = fs"
        using os_create_temp_spec[OF assms(1), of "base @ [''tmp'']" _ c fs1] by (auto simp: attempt_def split: if_splits)
      with assms c Inl None show ?thesis by (simp add: LocalStore_Ready_def)
    next
      case (Inr t)
      from os_create_temp_spec[OF assms(1) attempt_Inr[OF c[unfolded Inr]]]
      have t: "t = ?t" "fs_ok fs1" "file_at fs1 = (file_at fs)(?t \<mapsto> [])" by auto
      obtain x fs2 where x: "attempt env 1 (os_remove t) fs1 = (x, fs2)" by (meson prod.exhaust)
      have "fs_ok fs2 \<and> (q \<noteq> t \<longrightarrow> file_at fs2 q = file_at fs1 q)" for q
        using attempt_remove_temp[OF t(2), of t env 1 q] t(1,3) x by simp
      moreover have "fs' = fs2" using assms(2) c Inr None x by (auto simp: LocalStore_Ready_def split: sum.splits)
      ultimately show ?thesis using t b by (simp add: blob_def fun_eq_iff)
    qed
  qed
qed

lemma data_serve_keeps:
  assumes "store_ok base fs" and "routed r" and run: "data_serve base env r fs = (resp, fs')"
  shows "store_ok base fs'"
proof (cases r)
  case DHealthzReady
  with run assms(1) show ?thesis
    using Ready_keeps[of fs base env] by (fastforce simp: data_healthzReady_def store_ok_def split: prod.splits option.splits)
next
  case DHealthzStartup
  with run assms(1) show ?thesis
    using Ready_keeps[of fs base env] by (fastforce simp: data_healthzReady_def store_ok_def split: prod.splits option.splits)
next
  case (DDelete ns h)
  obtain x fs1 where x: "LocalStore_Delete base env ns h fs = (x, fs1)" by (meson prod.exhaust)
  with DDelete run have "fs' = fs1"
    by (auto simp: HandleDelete_def split: sum.splits data_error.splits if_splits)
  moreover have "store_ok base fs1"
    using localfs.bdelete_Inr[OF assms(1), of ns h env] localfs.bdelete_Inl[of base env ns h fs] x DDelete assms(1,2)
    by (cases x) auto
  ultimately show ?thesis by simp
next
  case (DUpload ns u)
  let ?ns = "if ns = [] then ''default-bucket'' else ns"
  obtain x fs1 where x: "LocalStore_Write base env ?ns u fs = (x, fs1)" by (meson prod.exhaust)
  have sf: "slash_free ?ns" using DUpload assms(2) by (simp add: slash_free_def)
  from x DUpload run have "fs' = fs1"
    by (auto simp: HandleUpload_def Let_def split: sum.splits data_error.splits prod.splits)
  moreover have "store_ok base fs1"
    using localfs.bwrite_Inr[OF assms(1) sf, of env u] localfs.bwrite_Inl[OF assms(1) sf, of env u] x
    by (cases x) auto
  ultimately show ?thesis by simp
qed (use run assms(1) in auto)

lemma data_reachable_ok: "data_reachable base fs \<Longrightarrow> store_ok base fs"
proof (induction rule: data_reachable.induct)
  case (started fs0 env fs)
  from NewLocalStore_keeps[OF started(1,3)] started(2) blob_cong[of fs fs0 base] show ?case
    by (simp add: store_ok_def)
next
  case (served fs r env resp fs')
  then show ?case using data_serve_keeps by blast
next
  case (restarted fs env res fs')
  then show ?case using NewLocalStore_keeps[of fs base env res fs'] blob_cong[of fs' fs base]
    by (simp add: store_ok_def)
qed

section \<open>When an upload succeeds\<close>

definition no_faults :: "data_env \<Rightarrow> bool" where
  "no_faults env \<longleftrightarrow> (\<forall>n. \<not> de_fail env n)"

lemma Write_total:
  assumes ok: "fs_ok fs" and nf: "no_faults env" and r: "u_error r = None"
    and tmp: "is_dir fs (base @ [''tmp''])" "file_at fs (temp_path base env) = None" "\<not> is_dir fs (temp_path base env)"
    and p: "getShardedPath base ns (sha256_hex (u_data r)) = Some p"
    and way: "\<And>n. file_at fs (take n (butlast p)) = None" "\<not> is_dir fs p"
    and out: "\<not> prefix (temp_path base env) p"
  shows "\<exists>fs'. LocalStore_Write base env ns r fs = (Inr (sha256_hex (u_data r), length (u_data r)), fs')"
proof -
  let ?tmp = "temp_path base env"
  have try_it: "attempt env n call f = call f" for n f and call :: "fsys \<Rightarrow> (os_error + 'b) \<times> fsys"
    using nf by (simp add: attempt_def no_faults_def)
  have dir: "file_at fs (base @ [''tmp'']) = None" using fs_okD(3)[OF ok tmp(1)] .
  obtain fs0 where c: "os_create_temp (base @ [''tmp'']) (''upload-'' @ de_tmp env @ ''.tmp'') fs = (Inr ?tmp, fs0)"
    using tmp dir by (simp add: os_create_temp_def temp_path_def Let_def)
  from os_create_temp_spec[OF ok c] have c1: "fs_ok fs0" "is_dir fs0 = is_dir fs"
    "file_at fs0 = (file_at fs)(?tmp \<mapsto> [])" by auto
  define fs1 where "fs1 = os_write ?tmp (u_data r) fs0"
  from os_write_spec[OF c1(1), of ?tmp "u_data r"] c1
  have w: "fs_ok fs1" "file_at fs1 = (file_at fs)(?tmp \<mapsto> u_data r)" "is_dir fs1 = is_dir fs"
    by (simp_all add: fs1_def)
  have pre: "prefix (take n (butlast p)) p" for n
    by (metis prefix_order.trans prefixeq_butlast take_is_prefix)
  have "file_at fs1 (take n (butlast p)) = None" for n
    using w(2) way(1)[of n] pre[of n] out by auto
  then obtain fs2 where m: "os_mkdir_all (butlast p) fs1 = (Inr (), fs2)"
    using mkdir_from_ok[of "butlast p" fs1 "[]"] by (auto simp: os_mkdir_all_def)
  from os_mkdir_all_spec[OF w(1) m] w(2) have m2: "fs_ok fs2" "file_at fs2 ?tmp = Some (u_data r)"
    "is_dir fs2 (butlast p)" by simp_all
  have "p \<noteq> []" using getShardedPath_last[OF p] good_hash_plain(1) by simp
  then have "\<not> prefix p (butlast p)" by (cases p rule: rev_cases) (auto dest: prefix_length_le)
  with os_mkdir_all_dirs[OF m, of p] w(3) way(2) have "\<not> is_dir fs2 p" by auto
  from os_rename_ok[OF m2(2) this m2(1,3)] obtain fs3 where "os_rename ?tmp p fs2 = (Inr (), fs3)" by blast
  with c m p nf r show ?thesis
    by (simp add: LocalStore_Write_def try_it fs1_def[symmetric] no_faults_def)
qed

text \<open>Without failing calls the delete of a stored blob succeeds.\<close>

lemma Delete_total:
  "fs_ok fs \<Longrightarrow> no_faults env \<Longrightarrow> getShardedPath base ns h = Some p \<Longrightarrow> file_at fs p \<noteq> None \<Longrightarrow>
     fst (LocalStore_Delete base env ns h fs) = Inr ()"
  using os_remove_file[of fs p] by (auto simp: LocalStore_Delete_def attempt_def no_faults_def)

end
