(* ===== verification/Data_Properties.thy ===== *)
theory Data_Properties
  imports Data_Api Meta_Service
begin

text \<open>
  The properties of data-service, with witnesses on a store at \<open>/data\<close> that starts on an empty
  file system.
\<close>

section \<open>A sample run\<close>

definition d_base :: path where
  "d_base = [''data'']"

definition d_env :: data_env where
  "d_env = \<lparr>de_ctx = background, de_tmp = ''1'', de_fail = \<lambda>_. False\<rparr>"

definition d_new :: fsys where
  "d_new = snd (NewLocalStore d_base d_env empty_fs)"

definition d_up :: "bytes \<Rightarrow> upload" where
  "d_up data = \<lparr>u_data = data, u_error = None\<rparr>"

definition d_put :: "string \<Rightarrow> bytes \<Rightarrow> fsys \<Rightarrow> fsys" where
  "d_put ns data fs = snd (data_serve d_base d_env (DUpload ns (d_up data)) fs)"

lemma d_simps:
  "de_fail d_env n = False" "de_tmp d_env = ''1''" "u_data (d_up data) = data" "u_error (d_up data) = None"
  by (simp_all add: d_env_def d_up_def)

lemma d_new_eq: "NewLocalStore d_base d_env empty_fs = (Inr (), d_new)"
  "d_new = \<lparr>fs_files = [], fs_dirs = [[''data'', ''tmp''], [''data'']]\<rparr>"
  by code_simp+

lemma d_new_reachable: "data_reachable d_base d_new"
  by (rule started[OF fs_ok_empty _ d_new_eq(1)]) (simp add: blob_def empty_fs_def file_at_def)

lemma d_new_files: "file_at d_new p = None" "is_dir d_new p \<longleftrightarrow> p = [] \<or> p = [''data''] \<or> p = [''data'', ''tmp'']"
  by (auto simp: d_new_eq(2) file_at_def is_dir_def)

lemma d_put_reachable: "data_reachable d_base fs \<Longrightarrow> slash_free ns \<Longrightarrow> data_reachable d_base (d_put ns data fs)"
  unfolding d_put_def
  by (rule data_reachable.served[OF _ _ prod.collapse[symmetric]]) simp_all

lemma d_written:
  assumes "plain ns" and "ns \<noteq> ''tmp''"
  shows "LocalStore_Write d_base d_env ns (d_up data) d_new
    = (Inr (sha256_hex data, length data), d_put ns data d_new)"
proof -
  have ok: "fs_ok d_new" using data_reachable_ok[OF d_new_reachable] by (simp add: store_ok_def)
  have g: "getShardedPath d_base ns (sha256_hex (u_data (d_up data))) = Some (blob_path d_base ns (sha256_hex data))"
    using assms(1) by (simp add: getShardedPath_good d_simps)
  obtain fs' where w: "LocalStore_Write d_base d_env ns (d_up data) d_new
      = (Inr (sha256_hex data, length data), fs')"
    using Write_total[OF ok _ _ _ _ _ g, of d_env] assms(2)
    by (auto simp: no_faults_def d_simps d_new_files d_base_def blob_path_def temp_path_def)
  with assms(1) have "d_put ns data d_new = fs'" by (simp add: d_put_def HandleUpload_def plain_def)
  with w show ?thesis by simp
qed

lemma d_upload_created:
  "plain ns \<Longrightarrow> ns \<noteq> ''tmp'' \<Longrightarrow>
     status (fst (data_serve d_base d_env (DUpload ns (d_up data)) d_new)) = StatusCreated"
  using d_written[of ns data] by (simp add: HandleUpload_def plain_def)

lemma d_put_blob:
  assumes "plain ns" and "ns \<noteq> ''tmp''"
  shows "blob d_base (d_put ns data d_new) ns (sha256_hex data) = Some data"
proof -
  have sf: "slash_free ns" using assms(1) by (simp add: plain_def slash_free_def)
  from blob_Write[OF sf d_written[OF assms]] data_reachable_ok[OF d_new_reachable] assms(1) show ?thesis
    by (simp add: store_ok_def d_simps)
qed

section \<open>Properties\<close>

text \<open>
  C16: in every state the data service can reach, over uploads, deletes, probes and restarts with
  failing system calls and interrupted uploads, a blob is stored under the SHA-256 of its content.
\<close>

theorem blobs_named_by_content:
  assumes "data_reachable base fs" and "plain ns" and "good_hash h"
    and "file_at fs (blob_path base ns h) = Some data"
  shows "h = sha256_hex data"
  using localfs.blobs_named[OF data_reachable_ok[OF assms(1)], of ns h data] assms(2-4)
  by (simp add: blob_def)

theorem blobs_named_by_content_witness:
  "good_hash (sha256_hex ''x'')
   \<and> file_at (d_put ''pics'' ''x'' d_new) (blob_path d_base ''pics'' (sha256_hex ''x'')) = Some ''x''
   \<and> sha256_hex ''x'' = sha256_hex ''x''"
proof -
  have p: "plain ''pics''" "slash_free ''pics''" by (simp_all add: plain_def slash_free_def)
  have h: "good_hash (sha256_hex ''x'')" by (rule good_hash_sha256)
  have b: "file_at (d_put ''pics'' ''x'' d_new) (blob_path d_base ''pics'' (sha256_hex ''x'')) = Some ''x''"
    using d_put_blob[OF p(1), of "''x''"] p(1) h by (simp add: blob_def)
  from blobs_named_by_content[OF d_put_reachable[OF d_new_reachable p(2)] p(1) h b] h b show ?thesis by blast
qed

text \<open>
  C17: an upload answered 201 reports the SHA-256 and the length of the complete body, the blob can
  be downloaded under that hash byte for byte, and every other blob is as before.
\<close>

theorem upload_then_download:
  assumes "data_reachable base fs" and "plain ns" and "\<not> de_fail env' 0"
    and up: "data_serve base env (DUpload ns r) fs = (resp, fs')" and st: "status resp = StatusCreated"
  shows "resp = write_json StatusCreated (upload_json (sha256_hex (u_data r)) (length (u_data r)) ns)
    \<and> data_serve base env' (DDownload ns (sha256_hex (u_data r))) fs' =
        (\<lparr>status = StatusOK, headers = [(''Content-Type'', ''application/octet-stream'')],
          body = RawBody (u_data r)\<rparr>, fs')
    \<and> u_error r = None
    \<and> (\<forall>ns' h'. (ns', h') \<noteq> (ns, sha256_hex (u_data r)) \<longrightarrow> blob base fs' ns' h' = blob base fs ns' h')"
proof -
  note ok = data_reachable_ok[OF assms(1)]
  have sf: "slash_free ns" and ne: "ns \<noteq> []" using assms(2) by (auto simp: plain_def slash_free_def)
  obtain h n where w: "LocalStore_Write base env ns r fs = (Inr (h, n), fs')"
    and resp: "resp = write_json StatusCreated (upload_json h n ns)"
    using up st ne
    by (auto simp: HandleUpload_def data_writeError_def recovered_def
        split: prod.splits sum.splits data_error.splits)
  from w have w': "bk_write (LocalStore base) env ns r fs = (Inr (h, n), fs')" by simp
  from localfs.bwrite_Inr[OF ok sf w'] assms(2)
  have p: "h = sha256_hex (u_data r)" "n = length (u_data r)" "u_error r = None"
    "blob base fs' = (blob base fs)(ns := (blob base fs ns)(h \<mapsto> u_data r))" by auto
  from localfs.write_read[OF ok assms(2) w' assms(3)]
  have "LocalStore_Read base env' ns h fs' = Inr (Regular (u_data r))" by simp
  with p resp show ?thesis by (auto simp: HandleDownload_def)
qed

text \<open>
  An upload without failing calls and with a complete body succeeds, if no regular file is in
  the way of the directories of its path.
\<close>

theorem upload_succeeds:
  assumes "data_reachable base fs" and "no_faults env" and "u_error r = None" and "plain ns"
    and "is_dir fs (base @ [''tmp''])" and "ns \<noteq> ''tmp''"
    and "file_at fs (temp_path base env) = None" "\<not> is_dir fs (temp_path base env)"
    and "\<forall>n. file_at fs (take n (butlast (blob_path base ns (sha256_hex (u_data r))))) = None"
    and "\<not> is_dir fs (blob_path base ns (sha256_hex (u_data r)))"
  shows "status (fst (data_serve base env (DUpload ns r) fs)) = StatusCreated"
proof -
  from data_reachable_ok[OF assms(1)] have ok: "fs_ok fs" by (simp add: store_ok_def)
  have "getShardedPath base ns (sha256_hex (u_data r)) = Some (blob_path base ns (sha256_hex (u_data r)))"
    by (simp add: getShardedPath_good assms(4))
  moreover have "\<not> prefix (temp_path base env) (blob_path base ns (sha256_hex (u_data r)))"
    using assms(6) by (auto simp: temp_path_def blob_path_def)
  ultimately obtain fs' where
    "LocalStore_Write base env ns r fs = (Inr (sha256_hex (u_data r), length (u_data r)), fs')"
    using Write_total[OF ok assms(2,3,5,7,8) _ _ assms(10)] assms(9) by blast
  with assms(4) show ?thesis by (simp add: HandleUpload_def plain_def)
qed

theorem upload_succeeds_witness:
  "status (fst (data_serve d_base d_env (DUpload ''pics'' (d_up ''abc'')) d_new)) = StatusCreated"
  by (rule upload_succeeds[OF d_new_reachable])
    (simp_all add: no_faults_def d_simps plain_def d_new_files d_base_def blob_path_def temp_path_def)

theorem upload_then_download_witness:
  "data_serve d_base d_env (DDownload ''pics'' (sha256_hex ''abc'')) (d_put ''pics'' ''abc'' d_new)
   = (\<lparr>status = StatusOK, headers = [(''Content-Type'', ''application/octet-stream'')],
        body = RawBody ''abc''\<rparr>, d_put ''pics'' ''abc'' d_new)"
proof -
  let ?run = "data_serve d_base d_env (DUpload ''pics'' (d_up ''abc'')) d_new"
  have "status (fst ?run) = StatusCreated" by (rule d_upload_created) (simp_all add: plain_def)
  with upload_then_download[OF d_new_reachable, of "''pics''" d_env d_env "d_up ''abc''" "fst ?run" "snd ?run"]
  show ?thesis by (simp add: d_simps plain_def d_put_def)
qed

text \<open>
  C18: a delete answered 204 removes the blob of its namespace and hash, so that a download of it no
  longer finds content, and changes no other blob; in a namespace other than \<open>tmp\<close> it keeps the
  directory for temporary files, so uploads go on.  Since a blob is shared by all uploads of the
  same content in the namespace, one delete takes it from all of them.
\<close>

theorem delete_removes_one_blob:
  assumes "data_reachable base fs" and "plain ns" and "good_hash h"
    and run: "data_serve base env (DDelete ns h) fs = (resp, fs')" and st: "status resp = StatusNoContent"
  shows "blob base fs' = (blob base fs)(ns := (blob base fs ns)(h := None))
    \<and> body (fst (data_serve base env' (DDownload ns h) fs')) \<noteq> RawBody (c # data)
    \<and> (ns \<noteq> ''tmp'' \<and> is_dir fs (base @ [''tmp'']) \<longrightarrow> is_dir fs' (base @ [''tmp'']))"
proof -
  note ok = data_reachable_ok[OF assms(1)]
  then have fs: "fs_ok fs" by (simp add: store_ok_def)
  have sf: "slash_free ns" "slash_free h"
    using assms(2) good_hash_plain(1)[OF assms(3)] by (auto simp: plain_def slash_free_def)
  have del: "LocalStore_Delete base env ns h fs = (Inr (), fs')"
  proof -
    obtain x fs1 where x: "LocalStore_Delete base env ns h fs = (x, fs1)" by (meson prod.exhaust)
    have "e \<noteq> OsErr ENOENT" if "x = Inl e" for e
      using x that getShardedPath_good[OF assms(2,3), of base]
      by (auto simp: LocalStore_Delete_def os_is_not_exist_def split: prod.splits sum.splits if_splits)
    with x run st show ?thesis
      by (auto simp: HandleDelete_def recovered_def data_writeError_def os_is_not_exist_def
          split: sum.splits data_error.splits if_splits)
  qed
  from localfs.bdelete_Inr[OF ok sf, of env "()"] del
  have b: "store_ok base fs'" "blob base fs' = (blob base fs)(ns := (blob base fs ns)(h := None))" by simp_all
  have "LocalStore_Read base env' ns h fs' \<noteq> Inr (Regular (c # data))"
    using localfs.bread_None[OF b(1) assms(2,3)] b(2) by simp
  then have "body (fst (data_serve base env' (DDownload ns h) fs')) \<noteq> RawBody (c # data)"
    by (auto simp: HandleDownload_def recovered_def data_writeError_def split: sum.splits data_error.splits os_file.splits)
  moreover have "is_dir fs' (base @ [''tmp''])" if "ns \<noteq> ''tmp''" "is_dir fs (base @ [''tmp''])"
    by (rule Delete_dirs[OF fs getShardedPath_good[OF assms(2,3)] del that(2)])
      (use that(1) in \<open>simp add: blob_path_def\<close>)
  ultimately show ?thesis using b(2) by blast
qed

theorem delete_removes_one_blob_witness:
  "blob d_base (snd (data_serve d_base d_env (DDelete ''pics'' (sha256_hex ''abc'')) (d_put ''pics'' ''abc'' d_new)))
     ''pics'' (sha256_hex ''abc'') = None"
proof -
  have p: "plain ''pics''" "slash_free ''pics''" by (simp_all add: plain_def slash_free_def)
  let ?fs = "d_put ''pics'' ''abc'' d_new"
  let ?run = "data_serve d_base d_env (DDelete ''pics'' (sha256_hex ''abc'')) ?fs"
  note r = d_put_reachable[OF d_new_reachable p(2), of "''abc''"]
  from data_reachable_ok[OF r] have ok: "fs_ok ?fs" by (simp add: store_ok_def)
  have "file_at ?fs (blob_path d_base ''pics'' (sha256_hex ''abc'')) \<noteq> None"
    using d_put_blob[OF p(1), of "''abc''"] by (simp add: blob_def split: if_splits)
  from Delete_total[OF ok _ getShardedPath_good[OF p(1) good_hash_sha256] this, of d_env]
  have "status (fst ?run) = StatusNoContent"
    by (auto simp: no_faults_def d_simps HandleDelete_def split: prod.splits sum.splits)
  with delete_removes_one_blob[OF r p(1) good_hash_sha256, of d_env "''abc''" "fst ?run" "snd ?run" d_env]
  show ?thesis by simp
qed

text \<open>The run that empties the namespace \<open>tmp\<close>.\<close>

definition d_wiped :: "bytes \<Rightarrow> fsys" where
  "d_wiped data = snd (data_serve d_base d_env (DDelete ''tmp'' (sha256_hex data)) (d_put ''tmp'' data d_new))"

lemma d_put_tmp:
  "d_put ''tmp'' data d_new =
     (let h = sha256_hex data; a = take 2 h; b = take 2 (drop 2 h)
      in \<lparr>fs_files = [([''data'', ''tmp'', ''objects'', a, b, h], data)],
          fs_dirs = [[''data'', ''tmp'', ''objects'', a, b], [''data'', ''tmp'', ''objects'', a],
            [''data'', ''tmp'', ''objects''], [''data'', ''tmp''], [''data'']]\<rparr>)"
  by (simp add: d_put_def HandleUpload_def LocalStore_Write_def attempt_def d_simps os_create_temp_def
    Let_def d_base_def d_new_eq(2) file_at_def is_dir_def os_write_def getShardedPath_good plain_def
    blob_path_def os_mkdir_all_def os_rename_def)

lemma d_wiped_eq: "d_wiped data = \<lparr>fs_files = [], fs_dirs = []\<rparr>"
  by (simp add: d_wiped_def d_put_tmp HandleDelete_def LocalStore_Delete_def attempt_def d_simps
    Let_def d_base_def file_at_def is_dir_def getShardedPath_good plain_def has_entry_def
    blob_path_def os_remove_def cleanUpEmptyDirs.simps)

text \<open>
  C19: the clean-up after a delete compares with the wrong directory and climbs out of the
  namespace.  A bucket may be called \<open>tmp\<close>: on a fresh store, after an upload to namespace \<open>tmp\<close>
  and the delete of that blob, the directory for temporary files is gone, so every later upload to
  any namespace is answered 500 and the service reports itself unavailable.
\<close>

theorem tmp_namespace_stops_uploads:
  "data_reachable d_base (d_wiped data) \<and> re_match bucketNameRE ''tmp''
   \<and> status (fst (data_serve d_base env (DUpload ns r) (d_wiped data))) = StatusInternalServerError
   \<and> status (fst (data_serve d_base env DHealthzReady (d_wiped data))) = StatusServiceUnavailable"
proof (intro conjI)
  have sf: "slash_free ''tmp''" by (simp add: slash_free_def)
  have h: "slash_free (sha256_hex data)"
    using good_hash_plain(1)[OF good_hash_sha256] by (simp add: plain_def slash_free_def)
  show "data_reachable d_base (d_wiped data)" unfolding d_wiped_def
    by (rule data_reachable.served[OF d_put_reachable[OF d_new_reachable sf] _ prod.collapse[symmetric]])
      (simp add: sf h)
  show "re_match bucketNameRE ''tmp''" by code_simp
  have c: "os_create_temp (d_base @ [''tmp'']) name (d_wiped data)
      = (Inl (lookup_error (d_wiped data) (d_base @ [''tmp'', name])), d_wiped data)" for name
    by (simp add: os_create_temp_def d_wiped_eq d_base_def file_at_def is_dir_def)
  show "status (fst (data_serve d_base env (DUpload ns r) (d_wiped data))) = StatusInternalServerError"
    by (simp add: HandleUpload_def LocalStore_Write_def attempt_def c data_writeError_def Let_def)
  show "status (fst (data_serve d_base env DHealthzReady (d_wiped data))) = StatusServiceUnavailable"
    by (simp add: data_healthzReady_def LocalStore_Ready_def attempt_def c split: option.split)
qed

text \<open>
  C20: a path of the store stays below its base directory for plain namespaces, but the namespace
  \<open>..\<close>, which a route accepts, leads out of it; and a requested hash of fewer than four bytes makes
  the handler panic (answered 500) instead of reporting a missing object.
\<close>

theorem namespaces_and_the_base_directory:
  assumes "good_hash h" and "base \<noteq> []" and "last base \<noteq> ''objects''" and "plain ns" and "length s < 4"
  shows "(\<exists>p. getShardedPath base ns h = Some p \<and> prefix base p)
    \<and> slash_free ''..'' \<and> (\<exists>p. getShardedPath base ''..'' h = Some p \<and> \<not> prefix base p)
    \<and> status (fst (data_serve base env (DDownload ns s) fs)) = StatusInternalServerError
    \<and> data_serve base env (DDelete ns s) fs = (recovered, fs)"
proof (intro conjI)
  show "\<exists>p. getShardedPath base ns h = Some p \<and> prefix base p"
    by (simp add: getShardedPath_good assms blob_path_def)
  show "slash_free ''..''" by (simp add: slash_free_def)
  note g = good_hash_plain[OF assms(1)]
  have "getShardedPath base ''..'' h = Some (butlast base @ [''objects'', take 2 h, take 2 (drop 2 h), h])"
    using g path_join_plain[of "[''objects'', take 2 h, take 2 (drop 2 h), h]" "butlast base"]
    by (simp add: getShardedPath_def path_join_def push_component_def plain_def)
  moreover have "\<not> prefix base (butlast base @ [''objects'', take 2 h, take 2 (drop 2 h), h])"
  proof
    assume "prefix base (butlast base @ [''objects'', take 2 h, take 2 (drop 2 h), h])"
    then have "prefix (butlast base @ [last base]) (butlast base @ [''objects'', take 2 h, take 2 (drop 2 h), h])"
      using assms(2) by simp
    then have "last base = ''objects''" by (simp del: append_butlast_last_id)
    with assms(3) show False ..
  qed
  ultimately show "\<exists>p. getShardedPath base ''..'' h = Some p \<and> \<not> prefix base p" by simp
  show "status (fst (data_serve base env (DDownload ns s) fs)) = StatusInternalServerError"
    "data_serve base env (DDelete ns s) fs = (recovered, fs)"
    using assms(5) by (simp_all add: HandleDownload_def LocalStore_Read_def HandleDelete_def
        LocalStore_Delete_def getShardedPath_def recovered_def)
qed

theorem namespaces_and_the_base_directory_witness:
  "\<exists>p. getShardedPath [''data''] ''..'' (sha256_hex ''abc'') = Some p \<and> \<not> prefix [''data''] p"
  using namespaces_and_the_base_directory[OF good_hash_sha256, of "[''data'']" "''pics''" "[]" "''abc''" d_env d_new]
  by (simp add: plain_def)

end
