(* ===== verification/Go_Strings.thy ===== *)
theory Go_Strings
  imports Go_Http Go_Crypto
begin

text \<open>
  What api-service uses of the packages \<open>strings\<close>, \<open>sort\<close>, \<open>net/textproto\<close> and \<open>time\<close>: splitting,
  trimming, joining and case folding of strings, canonical header names, and parsing of the basic
  ISO 8601 time stamps of AWS requests.
\<close>

section \<open>Splitting and joining\<close>

fun split_at_char :: "char \<Rightarrow> string \<Rightarrow> string list" where
  "split_at_char z [] = [[]]"
| "split_at_char z (c # cs) =
     (if c = z then [] # split_at_char z cs
      else (c # hd (split_at_char z cs)) # tl (split_at_char z cs))"

lemma split_at_char_ne [simp]: "split_at_char z s \<noteq> []"
  by (cases s) auto

fun join :: "string \<Rightarrow> string list \<Rightarrow> string" where
  "join sep [] = []"
| "join sep [s] = s"
| "join sep (s # t # ss) = s @ sep @ join sep (t # ss)"

text \<open>Joining with one character undoes splitting, and splitting undoes joining.\<close>

lemma join_split: "join [z] (split_at_char z s) = s"
proof (induction s)
  case Nil
  then show ?case by simp
next
  case (Cons c s)
  obtain x xs where x: "split_at_char z s = x # xs"
    using split_at_char_ne[of z s] by (meson list.exhaust)
  with Cons show ?case by (cases xs) auto
qed

lemma split_at_char_append: "z \<notin> set s \<Longrightarrow> split_at_char z (s @ z # t) = s # split_at_char z t"
  by (induction s) auto

lemma split_at_char_none: "z \<notin> set s \<Longrightarrow> split_at_char z s = [s]"
  by (induction s) auto

lemma split_join: "ss \<noteq> [] \<Longrightarrow> \<forall>s \<in> set ss. z \<notin> set s \<Longrightarrow> split_at_char z (join [z] ss) = ss"
  by (induction "[z]" ss rule: join.induct) (auto simp: split_at_char_none split_at_char_append)

lemma join_inject:
  assumes "\<forall>s \<in> set ss. z \<notin> set s" and "\<forall>t \<in> set ts. z \<notin> set t" and "ss \<noteq> []" and "ts \<noteq> []"
  shows "join [z] ss = join [z] ts \<longleftrightarrow> ss = ts"
  using split_join[OF assms(3,1)] split_join[OF assms(4,2)] by metis

section \<open>Runes and white space\<close>

text \<open>The runes of a string as byte sequences; an invalid byte is a rune of its own.\<close>

function runes :: "bytes \<Rightarrow> bytes list" where
  "runes [] = []"
| "runes (a # s) =
     (case utf8_len (a # s) of
        None \<Rightarrow> [a] # runes s
      | Some n \<Rightarrow> take n (a # s) # runes (drop n (a # s)))"
  by pat_completeness auto
termination
  by (relation "measure length") (auto dest: utf8_len_drop_less simp del: length_drop)

text \<open>\<open>unicode.IsSpace\<close>.\<close>

definition is_space :: "bytes \<Rightarrow> bool" where
  "is_space r \<longleftrightarrow> r \<in> set
     ([[CHR 0x09], [CHR 0x0A], [CHR 0x0B], [CHR 0x0C], [CHR 0x0D], [CHR 0x20],
       [CHR 0xC2, CHR 0x85], [CHR 0xC2, CHR 0xA0], [CHR 0xE1, CHR 0x9A, CHR 0x80],
       [CHR 0xE2, CHR 0x80, CHR 0xA8], [CHR 0xE2, CHR 0x80, CHR 0xA9], [CHR 0xE2, CHR 0x80, CHR 0xAF],
       [CHR 0xE2, CHR 0x81, CHR 0x9F], [CHR 0xE3, CHR 0x80, CHR 0x80]]
      @ map (\<lambda>n. [CHR 0xE2, CHR 0x80, char_of (n :: nat)]) [128..<139])"

definition trim_space :: "string \<Rightarrow> string" where
  "trim_space s = concat (rev (dropWhile is_space (rev (dropWhile is_space (runes s)))))"

fun str_fields_from :: "bytes list \<Rightarrow> string \<Rightarrow> string list" where
  "str_fields_from [] acc = (if acc = [] then [] else [acc])"
| "str_fields_from (r # rs) acc =
     (if is_space r then (if acc = [] then str_fields_from rs [] else acc # str_fields_from rs [])
      else str_fields_from rs (acc @ r))"

definition str_fields :: "string \<Rightarrow> string list" where
  "str_fields s = str_fields_from (runes s) []"

text \<open>
  \<open>strings.ToLower\<close>: ASCII letters, and the Kelvin sign, whose lower case is the letter \<open>k\<close>.  No other
  letter has an ASCII lower case; the case of letters outside ASCII is left as it is.
\<close>

definition lower_rune :: "bytes \<Rightarrow> bytes" where
  "lower_rune r = (if r = [CHR 0xE2, CHR 0x84, CHR 0xAA] then ''k'' else map to_lower r)"

definition to_lower_str :: "string \<Rightarrow> string" where
  "to_lower_str s = concat (map lower_rune (runes s))"

section \<open>Header names\<close>

definition token_char :: "char \<Rightarrow> bool" where
  "token_char c \<longleftrightarrow> byte_in 48 57 c \<or> byte_in 65 90 c \<or> byte_in 97 122 c \<or> c \<in> set ''!#$%&'' \<or> c = CHR 0x27
     \<or> c \<in> set ''*+-.^_`|~''"

definition to_upper :: "char \<Rightarrow> char" where
  "to_upper c = (if byte_in 97 122 c then char_of (of_char c - 32 :: nat) else c)"

fun canonical_from :: "bool \<Rightarrow> string \<Rightarrow> string" where
  "canonical_from up [] = []"
| "canonical_from up (c # s) = (if up then to_upper c else to_lower c) # canonical_from (c = CHR ''-'') s"

text \<open>\<open>textproto.CanonicalMIMEHeaderKey\<close>: a name with a byte that is no token byte stays as it is.\<close>

definition canonical_header :: "string \<Rightarrow> string" where
  "canonical_header s = (if list_all token_char s then canonical_from True s else s)"

type_synonym header = "(string \<times> string list) list"

text \<open>\<open>Header.Values\<close> and \<open>Header.Get\<close>; the keys of a header are canonical.\<close>

definition header_values :: "header \<Rightarrow> string \<Rightarrow> string list" where
  "header_values hs name = (case map_of hs (canonical_header name) of None \<Rightarrow> [] | Some vs \<Rightarrow> vs)"

definition header_get :: "header \<Rightarrow> string \<Rightarrow> string" where
  "header_get hs name = (case header_values hs name of [] \<Rightarrow> [] | v # _ \<Rightarrow> v)"

section \<open>Time stamps\<close>

definition leap_year :: "int \<Rightarrow> bool" where
  "leap_year y \<longleftrightarrow> 4 dvd y \<and> (\<not> 100 dvd y \<or> 400 dvd y)"

definition month_days :: "int \<Rightarrow> nat \<Rightarrow> int" where
  "month_days y m = (if m = 2 then (if leap_year y then 29 else 28)
     else if m \<in> {4, 6, 9, 11} then 30 else 31)"

text \<open>Days since January 1 of year 1 in the proleptic Gregorian calendar.\<close>

definition civil_days :: "int \<Rightarrow> nat \<Rightarrow> int \<Rightarrow> int" where
  "civil_days y m d =
     (let y' = y - 1
      in 365 * y' + y' div 4 - y' div 100 + y' div 400
         + sum_list (map (month_days y) [1..<m]) + d - 1)"

definition second :: int where
  "second = 1000000000"

text \<open>The digits of a number of fixed width.\<close>

definition fixed_number :: "nat \<Rightarrow> string \<Rightarrow> (nat \<times> string) option" where
  "fixed_number k s =
     (if length s < k then None
      else case digits_value 0 (take k s) of None \<Rightarrow> None | Some v \<Rightarrow> Some (v, drop k s))"

text \<open>
  Parsing accepts a fraction of a second after the seconds, although the layout has none; digits
  after the ninth are ignored.
\<close>

definition digit :: "char \<Rightarrow> bool" where
  "digit c = byte_in 48 57 c"

definition parse_fraction :: "string \<Rightarrow> nat \<times> string" where
  "parse_fraction s =
     (case s of
        c # t \<Rightarrow>
          if (c = CHR ''.'' \<or> c = CHR '','') \<and> t \<noteq> [] \<and> digit (hd t) then
            (let ds = takeWhile digit t; ds9 = take 9 ds
             in ((case digits_value 0 (ds9 @ replicate (9 - length ds9) CHR ''0'') of None \<Rightarrow> 0 | Some v \<Rightarrow> v),
                 dropWhile digit t))
          else (0, s)
      | [] \<Rightarrow> (0, []))"

text \<open>\<open>time.Parse("20060102T150405Z", s)\<close>.\<close>

definition parse_amz_date :: "string \<Rightarrow> time option" where
  "parse_amz_date s =
     (case fixed_number 4 s of None \<Rightarrow> None | Some (y, s1) \<Rightarrow>
      (case fixed_number 2 s1 of None \<Rightarrow> None | Some (mo, s2) \<Rightarrow>
      (case fixed_number 2 s2 of None \<Rightarrow> None | Some (d, s3) \<Rightarrow>
      (case s3 of [] \<Rightarrow> None | t # s4 \<Rightarrow>
      (case fixed_number 2 s4 of None \<Rightarrow> None | Some (h, s5) \<Rightarrow>
      (case fixed_number 2 s5 of None \<Rightarrow> None | Some (mi, s6) \<Rightarrow>
      (case fixed_number 2 s6 of None \<Rightarrow> None | Some (sec, s7) \<Rightarrow>
        (let (ns, s8) = parse_fraction s7
         in if t = CHR ''T'' \<and> 1 \<le> mo \<and> mo \<le> 12 \<and> 1 \<le> d \<and> int d \<le> month_days (int y) mo
               \<and> h < 24 \<and> mi < 60 \<and> sec < 60 \<and> s8 = ''Z''
            then Some (((civil_days (int y) mo (int d) * 24 + int h) * 60 + int mi) * 60 * second
                       + int sec * second + int ns)
            else None))))))))"

text \<open>\<open>time.Since\<close> saturates at the range of a 64-bit duration.\<close>

definition duration_since :: "time \<Rightarrow> time \<Rightarrow> int" where
  "duration_since now t = max (- (2 ^ 63)) (min (2 ^ 63 - 1) (now - t))"

end
