(* ===== verification/Go_Url.thy ===== *)
theory Go_Url
  imports Go_Strings
begin

text \<open>
  Package \<open>net/url\<close> as the HTTP clients and servers use it: percent-encoding, parsing of a request
  URL, the path that goes over the wire and the path a router sees, and query strings.
\<close>

section \<open>Percent-encoding\<close>

definition hex_upper :: "nat \<Rightarrow> char" where
  "hex_upper n = ''0123456789ABCDEF'' ! n"

definition percent :: "char \<Rightarrow> string" where
  "percent b = [CHR ''%'', hex_upper (of_char b div 16), hex_upper (of_char b mod 16)]"

lemma hex_upper_inject: "m < 16 \<Longrightarrow> n < 16 \<Longrightarrow> hex_upper m = hex_upper n \<longleftrightarrow> m = n"
  unfolding hex_upper_def by (subst nth_eq_iff_index_eq) auto

lemma percent_inject: "percent b = percent c \<longleftrightarrow> b = c"
proof
  assume e: "percent b = percent c"
  have "of_char b div 16 < (16 :: nat)" "of_char c div 16 < (16 :: nat)"
    by (simp_all add: less_mult_imp_div_less)
  with e have "of_char b div 16 = (of_char c div 16 :: nat)" "of_char b mod 16 = (of_char c mod 16 :: nat)"
    by (simp_all add: percent_def hex_upper_inject)
  then show "b = c" by (metis div_mult_mod_eq of_char_eq_iff)
qed simp

lemma hex_upper_chars: "n < 16 \<Longrightarrow> hex_upper n \<in> set ''0123456789ABCDEF''"
  unfolding hex_upper_def by (rule nth_mem) simp

text \<open>The value of a hexadecimal digit of either case.\<close>

definition unhex :: "char \<Rightarrow> nat option" where
  "unhex c =
     (if byte_in 48 57 c then Some (of_char c - 48)
      else if byte_in 97 102 c then Some (of_char c - 87)
      else if byte_in 65 70 c then Some (of_char c - 55)
      else None)"

text \<open>\<open>unescape\<close> for a path, and for a query component, where \<open>+\<close> is a space.\<close>

fun unescape :: "bool \<Rightarrow> string \<Rightarrow> string option" where
  "unescape form [] = Some []"
| "unescape form (c # s) =
     (if c = CHR ''%'' then
        (case s of
           x # y # s' \<Rightarrow>
             (case (unhex x, unhex y) of
                (Some h, Some l) \<Rightarrow> map_option ((#) (char_of (16 * h + l))) (unescape form s')
              | _ \<Rightarrow> None)
         | _ \<Rightarrow> None)
      else map_option ((#) (if form \<and> c = CHR ''+'' then CHR '' '' else c)) (unescape form s))"

definition url_alnum :: "char \<Rightarrow> bool" where
  "url_alnum c \<longleftrightarrow> byte_in 48 57 c \<or> byte_in 65 90 c \<or> byte_in 97 122 c \<or> c \<in> set ''-_.~''"

text \<open>The bytes \<open>escape\<close> leaves alone in a path, and those a valid encoding may contain.\<close>

definition path_plain :: "char \<Rightarrow> bool" where
  "path_plain c \<longleftrightarrow> url_alnum c \<or> c \<in> set ''$&+,/:;=@''"

definition path_valid :: "char \<Rightarrow> bool" where
  "path_valid c \<longleftrightarrow> path_plain c \<or> c \<in> set ''!()*[]%'' \<or> c = CHR 0x27"

definition escape_path :: "string \<Rightarrow> string" where
  "escape_path s = concat (map (\<lambda>c. if path_plain c then [c] else percent c) s)"

text \<open>\<open>url.QueryEscape\<close>.\<close>

definition query_code :: "char \<Rightarrow> string" where
  "query_code c = (if url_alnum c then [c] else if c = CHR '' '' then ''+'' else percent c)"

definition query_escape :: "string \<Rightarrow> string" where
  "query_escape s = concat (map query_code s)"

section \<open>Request URLs\<close>

text \<open>
  A URL of a client is the base URL of the service, which is a scheme and a host, followed by a
  text that starts with a slash; the functions below take that text.  \<open>Path\<close> is the decoded path,
  \<open>RawPath\<close> the spelling it had, kept only when it is not the default one.
\<close>

record url =
  u_path :: string
  u_rawpath :: string
  u_query :: string

definition ctl :: "char \<Rightarrow> bool" where
  "ctl c \<longleftrightarrow> byte_in 0 31 c \<or> byte_in 127 127 c"

fun cut_at :: "char \<Rightarrow> string \<Rightarrow> string \<times> string" where
  "cut_at z [] = ([], [])"
| "cut_at z (c # s) = (if c = z then ([], s) else (case cut_at z s of (a, b) \<Rightarrow> (c # a, b)))"

definition url_parse :: "string \<Rightarrow> url option" where
  "url_parse txt =
     (let (u, frag) = cut_at CHR ''#'' txt;
          (rest, query) = cut_at CHR ''?'' u
      in if list_ex ctl u \<or> unescape False frag = None then None
         else case unescape False rest of
           None \<Rightarrow> None
         | Some p \<Rightarrow>
             Some \<lparr>u_path = p, u_rawpath = (if rest = escape_path p then [] else rest), u_query = query\<rparr>)"

text \<open>\<open>EscapedPath\<close>, the path on the wire: the spelling of the client if it is a valid encoding.\<close>

definition escaped_path :: "url \<Rightarrow> string" where
  "escaped_path u =
     (if u_rawpath u \<noteq> [] \<and> list_all path_valid (u_rawpath u) \<and> unescape False (u_rawpath u) = Some (u_path u)
      then u_rawpath u
      else if u_path u = ''*'' then ''%2A''
      else escape_path (u_path u))"

text \<open>
  The server parses the request line again.  A router matches the path in its spelling when the
  URL has one, else the decoded path.  A space in the query breaks the request line.
\<close>

definition wire_query_ok :: "url \<Rightarrow> bool" where
  "wire_query_ok u \<longleftrightarrow> CHR '' '' \<notin> set (u_query u)"

definition route_path :: "url \<Rightarrow> string" where
  "route_path u =
     (let e = escaped_path u
      in case unescape False e of
           None \<Rightarrow> []
         | Some p \<Rightarrow> if e = escape_path p then p else e)"

section \<open>Queries\<close>

text \<open>\<open>url.ParseQuery\<close>: pairs with a semicolon or a bad escape are dropped; the first value counts.\<close>

definition query_pair :: "string \<Rightarrow> (string \<times> string) option" where
  "query_pair part =
     (if part = [] \<or> CHR '';'' \<in> set part then None
      else case cut_at CHR ''='' part of (k, v) \<Rightarrow>
        (case (unescape True k, unescape True v) of
           (Some k', Some v') \<Rightarrow> Some (k', v')
         | _ \<Rightarrow> None))"

definition query_pairs :: "string \<Rightarrow> (string \<times> string) list" where
  "query_pairs q = List.map_filter query_pair (split_at_char CHR ''&'' q)"

definition query_get :: "string \<Rightarrow> string \<Rightarrow> string" where
  "query_get q k = (case map_of (query_pairs q) k of None \<Rightarrow> [] | Some v \<Rightarrow> v)"

text \<open>\<open>url.Values{k: {v}}.Encode()\<close>.\<close>

definition encode_query :: "string \<Rightarrow> string \<Rightarrow> string" where
  "encode_query k v = query_escape k @ ''='' @ query_escape v"

section \<open>Lemmas\<close>

lemma unhex_upper: "n < 16 \<Longrightarrow> unhex (hex_upper n) = Some n"
proof -
  have "\<forall>n \<in> set [0..<16]. unhex (hex_upper n) = Some n" by code_simp
  then show "n < 16 \<Longrightarrow> unhex (hex_upper n) = Some n" by simp
qed

lemma unescape_percent: "unescape form (percent c @ s) = map_option ((#) c) (unescape form s)"
proof -
  have "(of_char c :: nat) < 256" by (rule of_char_less_256)
  then have "unhex (hex_upper (of_char c div 16)) = Some (of_char c div 16)"
    "unhex (hex_upper (of_char c mod 16)) = Some (of_char c mod 16)"
    by (simp_all add: unhex_upper less_mult_imp_div_less)
  moreover have "16 * (of_char c div 16) + of_char c mod 16 = (of_char c :: nat)" by simp
  ultimately show ?thesis by (simp add: percent_def del: mult_div_mod_eq)
qed

lemma url_alnum_ne: "url_alnum c \<Longrightarrow> c \<noteq> CHR ''%'' \<and> c \<noteq> CHR ''+'' \<and> c \<noteq> CHR ''='' \<and> c \<noteq> CHR ''&'' \<and> c \<noteq> CHR '';''
    \<and> c \<noteq> CHR ''#'' \<and> c \<noteq> CHR '' '' \<and> \<not> ctl c"
  by (auto simp: url_alnum_def byte_in_def ctl_def)

lemma path_plain_ne: "path_plain c \<Longrightarrow> c \<noteq> CHR ''%''"
  by (auto simp: path_plain_def dest: url_alnum_ne)

lemma unescape_escape_path: "unescape False (escape_path s) = Some s"
  by (induction s) (auto simp: escape_path_def unescape_percent path_plain_ne)

lemma unescape_query_escape: "unescape True (query_escape s) = Some s"
  by (induction s) (auto simp: query_escape_def query_code_def unescape_percent dest: url_alnum_ne)

text \<open>Text without percent signs is its own decoding.\<close>

lemma unescape_plain: "CHR ''%'' \<notin> set s \<Longrightarrow> unescape False s = Some s"
  by (induction s) auto

lemma unescape_append:
  "CHR ''%'' \<notin> set s \<Longrightarrow> unescape False (s @ t) = map_option ((@) s) (unescape False t)"
proof (induction s)
  case Nil
  then show ?case by (cases "unescape False t") simp_all
next
  case (Cons c s)
  then show ?case by (cases "unescape False t") auto
qed

lemma cut_at_append: "z \<notin> set s \<Longrightarrow> cut_at z (s @ t) = (s @ fst (cut_at z t), snd (cut_at z t))"
  by (induction s) (auto split: prod.splits)

lemma cut_at_none: "z \<notin> set s \<Longrightarrow> cut_at z s = (s, [])"
  by (induction s) auto

lemma cut_at_hit: "z \<notin> set s \<Longrightarrow> cut_at z (s @ z # t) = (s, t)"
  by (induction s) auto

text \<open>A text that a URL takes as it is.\<close>

definition url_safe :: "string \<Rightarrow> bool" where
  "url_safe s \<longleftrightarrow> (\<forall>c \<in> set s. c \<noteq> CHR ''%'' \<and> c \<noteq> CHR ''?'' \<and> c \<noteq> CHR ''#'' \<and> \<not> ctl c)"

lemma url_safe_append [simp]: "url_safe (s @ t) \<longleftrightarrow> url_safe s \<and> url_safe t"
  by (auto simp: url_safe_def)

lemma url_safe_no [simp]:
  "url_safe s \<Longrightarrow> CHR ''%'' \<notin> set s" "url_safe s \<Longrightarrow> CHR ''?'' \<notin> set s" "url_safe s \<Longrightarrow> CHR ''#'' \<notin> set s"
  by (auto simp: url_safe_def)

lemma url_safe_ctl: "url_safe s \<Longrightarrow> \<not> list_ex ctl s"
  by (auto simp: url_safe_def list_ex_iff)

lemma url_parse_query:
  assumes "url_safe s" and "CHR ''#'' \<notin> set q" and "\<not> list_ex ctl q"
  shows "url_parse (s @ CHR ''?'' # q) =
    Some \<lparr>u_path = s, u_rawpath = (if s = escape_path s then [] else s), u_query = q\<rparr>"
  using assms url_safe_ctl[of s]
  by (simp add: url_parse_def cut_at_none cut_at_hit unescape_plain) (simp add: ctl_def byte_in_def)

lemma url_parse_safe:
  assumes "url_safe s"
  shows "url_parse s = Some \<lparr>u_path = s, u_rawpath = (if s = escape_path s then [] else s), u_query = []\<rparr>"
  using assms url_safe_ctl[of s] by (simp add: url_parse_def cut_at_none unescape_plain)

lemma route_path_safe:
  assumes "CHR ''%'' \<notin> set s" and "s \<noteq> ''*''"
  shows "route_path \<lparr>u_path = s, u_rawpath = (if s = escape_path s then [] else s), u_query = q\<rparr> = s"
  using assms by (auto simp: route_path_def escaped_path_def Let_def unescape_plain unescape_escape_path)

text \<open>Whatever follows a safe prefix, the router sees the prefix.\<close>

lemma route_path_prefix:
  assumes "url_safe s" and "2 \<le> length s" and "url_parse (s @ t) = Some u"
  shows "\<exists>t'. route_path u = s @ t'"
proof -
  obtain a fr where a: "cut_at CHR ''#'' t = (a, fr)" by fastforce
  obtain b q where b: "cut_at CHR ''?'' a = (b, q)" by fastforce
  have c: "cut_at CHR ''#'' (s @ t) = (s @ a, fr)" "cut_at CHR ''?'' (s @ a) = (s @ b, q)"
    using assms(1) a b by (simp_all add: cut_at_append)
  from assms(3) c obtain p where p: "unescape False b = Some p"
    and u: "u = \<lparr>u_path = s @ p, u_rawpath = (if s @ b = escape_path (s @ p) then [] else s @ b), u_query = q\<rparr>"
    using assms(1) by (auto simp: url_parse_def unescape_append split: if_splits option.splits)
  have d: "unescape False (s @ b) = Some (s @ p)" using p assms(1) by (simp add: unescape_append)
  have "s @ p \<noteq> ''*''" using assms(2) by (auto dest: arg_cong[where f = length])
  then have "escaped_path u = s @ b \<or> escaped_path u = escape_path (s @ p)"
    by (auto simp: u escaped_path_def)
  then show ?thesis
    by (auto simp: route_path_def Let_def d unescape_escape_path)
qed

text \<open>A query with one encoded value gives the value back.\<close>

lemma query_code_chars:
  "c \<in> set (query_escape s) \<Longrightarrow> url_alnum c \<or> c = CHR ''%'' \<or> c = CHR ''+''"
proof -
  have "\<forall>x \<in> set ''0123456789ABCDEF''. url_alnum x" by code_simp
  note hex = this[rule_format, OF hex_upper_chars]
  have p: "c = CHR ''%'' \<or> url_alnum c" if "c \<in> set (percent b)" for b
    using that hex[of "of_char b div 16"] hex[of "of_char b mod 16"] of_char_less_256[of b]
    by (auto simp: percent_def less_mult_imp_div_less)
  assume "c \<in> set (query_escape s)"
  then show ?thesis by (auto simp: query_escape_def query_code_def dest: p split: if_splits)
qed

lemma query_escape_no:
  "CHR ''='' \<notin> set (query_escape s)" "CHR ''&'' \<notin> set (query_escape s)" "CHR '';'' \<notin> set (query_escape s)"
  "CHR ''#'' \<notin> set (query_escape s)" "CHR '' '' \<notin> set (query_escape s)" "\<not> list_ex ctl (query_escape s)"
proof -
  show "\<not> list_ex ctl (query_escape s)"
    by (auto simp: list_ex_iff ctl_def byte_in_def dest!: query_code_chars dest: url_alnum_ne)
qed (auto dest!: query_code_chars simp: url_alnum_def byte_in_def)

lemma query_get_encode: "query_get (encode_query k v) k = v"
  by (simp add: query_get_def query_pairs_def encode_query_def query_pair_def split_at_char_none
      query_escape_no cut_at_hit unescape_query_escape List.map_filter_simps)

lemma encode_query_ok: "CHR ''#'' \<notin> set (encode_query k v)" "\<not> list_ex ctl (encode_query k v)"
  "CHR '' '' \<notin> set (encode_query k v)"
  by (simp_all add: encode_query_def query_escape_no ctl_def byte_in_def)

end
