(* ===== verification/SigV4.thy ===== *)
theory SigV4
  imports Go_Url "HOL-Library.Product_Lexorder" "HOL-Library.Multiset"
begin

text \<open>
  AWS Signature Version 4 as api-service verifies it (\<open>internal/sigv4/sigv4.go\<close>): parsing of the
  Authorization header, the canonical request, the signing key and the comparison of the
  signatures.  The lemmas show what a signature binds: the encoding of the query and of the path
  loses nothing, and the canonical request determines the method, the path, the query and the
  values of the signed headers.
\<close>

section \<open>The request\<close>

text \<open>
  The parts of an \<open>http.Request\<close> that are read: the decoded path, the query as a map from keys to
  values (\<open>url.Values\<close>), the headers under their canonical names.
\<close>

record http_request =
  r_method :: string
  r_host :: string
  r_path :: string
  r_query :: "(string \<times> string list) list"
  r_header :: header

record credential =
  cAccessKey :: string
  cDate :: string
  cRegion :: string
  cService :: string
  cSignedHeaders :: "string list"
  cSignature :: string

definition Algorithm :: string where
  "Algorithm = ''AWS4-HMAC-SHA256''"

definition ErrMalformedAuthHeader :: go_error where
  "ErrMalformedAuthHeader = Plain [Lit ''malformed Authorization header'']"

definition ErrMissingDate :: go_error where
  "ErrMissingDate = Plain [Lit ''missing X-Amz-Date header'']"

definition ErrRequestExpired :: go_error where
  "ErrRequestExpired = Plain [Lit ''request timestamp outside the allowed window'']"

definition ErrSignatureMismatch :: go_error where
  "ErrSignatureMismatch = Plain [Lit ''signature does not match'']"

section \<open>ParseAuthorization\<close>

text \<open>\<open>strings.SplitN(s, "=", 2)\<close>, when it gives two parts.\<close>

fun split_eq :: "string \<Rightarrow> (string \<times> string) option" where
  "split_eq [] = None"
| "split_eq (c # s) =
     (if c = CHR ''='' then Some ([], s)
      else case split_eq s of None \<Rightarrow> None | Some (k, v) \<Rightarrow> Some (c # k, v))"

fun auth_fields :: "string list \<Rightarrow> (string \<rightharpoonup> string) \<Rightarrow> (string \<rightharpoonup> string) option" where
  "auth_fields [] m = Some m"
| "auth_fields (part # parts) m =
     (case split_eq (trim_space part) of
        None \<Rightarrow> None
      | Some (k, v) \<Rightarrow> auth_fields parts (m(k \<mapsto> v)))"

definition ParseAuthorization :: "string \<Rightarrow> go_error + credential" where
  "ParseAuthorization header =
     (if \<not> prefix (Algorithm @ '' '') header then Inl ErrMalformedAuthHeader
      else
        (let rest = drop (length (Algorithm @ '' '')) header
         in case auth_fields (split_at_char CHR '','' rest) (\<lambda>_. None) of
              None \<Rightarrow> Inl ErrMalformedAuthHeader
            | Some m \<Rightarrow>
                (case (m ''Credential'', m ''SignedHeaders'', m ''Signature'') of
                   (Some cred, Some names, Some sigv) \<Rightarrow>
                     if cred = [] \<or> names = [] \<or> sigv = [] then Inl ErrMalformedAuthHeader
                     else
                       (case split_at_char CHR ''/'' cred of
                          [k, d, r, s, t] \<Rightarrow>
                            if t \<noteq> ''aws4_request'' then Inl ErrMalformedAuthHeader
                            else Inr \<lparr>cAccessKey = k, cDate = d, cRegion = r, cService = s,
                              cSignedHeaders =
                                sort (map (\<lambda>h. to_lower_str (trim_space h)) (split_at_char CHR '';'' names)),
                              cSignature = sigv\<rparr>
                        | _ \<Rightarrow> Inl ErrMalformedAuthHeader)
                 | _ \<Rightarrow> Inl ErrMalformedAuthHeader)))"

section \<open>The canonical request\<close>

definition isUnreserved :: "char \<Rightarrow> bool" where
  "isUnreserved b \<longleftrightarrow> byte_in 65 90 b \<or> byte_in 97 122 b \<or> byte_in 48 57 b
     \<or> b = CHR ''-'' \<or> b = CHR ''_'' \<or> b = CHR ''.'' \<or> b = CHR ''~''"

fun uriEncode :: "string \<Rightarrow> bool \<Rightarrow> string" where
  "uriEncode [] encodeSlash = []"
| "uriEncode (b # s) encodeSlash =
     (if isUnreserved b then [b]
      else if b = CHR ''/'' \<and> \<not> encodeSlash then [b]
      else percent b) @ uriEncode s encodeSlash"

definition canonicalURI :: "string \<Rightarrow> string" where
  "canonicalURI path = (if path = [] then ''/'' else uriEncode path False)"

definition query_parts :: "(string \<times> string list) list \<Rightarrow> string list" where
  "query_parts q =
     concat (map (\<lambda>k. map (\<lambda>v. uriEncode k True @ ''='' @ uriEncode v True)
                        (sort (case map_of q k of None \<Rightarrow> [] | Some vs \<Rightarrow> vs)))
               (sort (map fst q)))"

definition canonicalQueryString :: "(string \<times> string list) list \<Rightarrow> string" where
  "canonicalQueryString q = join ''&'' (query_parts q)"

definition collapseWhitespace :: "string \<Rightarrow> string" where
  "collapseWhitespace s = join '' '' (str_fields s)"

definition header_line_values :: "http_request \<Rightarrow> string \<Rightarrow> string list" where
  "header_line_values r h =
     (if h = ''host'' then [if r_host r = [] then header_get (r_header r) ''Host'' else r_host r]
      else header_values (r_header r) h)"

definition header_line :: "http_request \<Rightarrow> string \<Rightarrow> string" where
  "header_line r h =
     h @ '':'' @ join '','' (map (\<lambda>v. collapseWhitespace (trim_space v)) (header_line_values r h)) @ [CHR 0x0A]"

definition content_sha256 :: "http_request \<Rightarrow> string" where
  "content_sha256 r =
     (let c = header_get (r_header r) ''X-Amz-Content-Sha256'' in if c = [] then ''UNSIGNED-PAYLOAD'' else c)"

definition buildCanonicalRequest :: "http_request \<Rightarrow> string list \<Rightarrow> string" where
  "buildCanonicalRequest r signedHeaders =
     join [CHR 0x0A]
       [r_method r, canonicalURI (r_path r), canonicalQueryString (r_query r),
        concat (map (header_line r) signedHeaders), join '';'' signedHeaders, content_sha256 r]"

section \<open>Verify\<close>

definition deriveSigningKey :: "string \<Rightarrow> string \<Rightarrow> string \<Rightarrow> string \<Rightarrow> bytes" where
  "deriveSigningKey secretKey date region service =
     (let kDate = hmacSHA256 (''AWS4'' @ secretKey) date;
          kRegion = hmacSHA256 kDate region;
          kService = hmacSHA256 kRegion service
      in hmacSHA256 kService ''aws4_request'')"

definition string_to_sign :: "http_request \<Rightarrow> credential \<Rightarrow> string \<Rightarrow> string" where
  "string_to_sign r cred amzDate =
     join [CHR 0x0A]
       [Algorithm, amzDate, join ''/'' [cDate cred, cRegion cred, cService cred, ''aws4_request''],
        sha256_hex (buildCanonicalRequest r (cSignedHeaders cred))]"

definition expected_signature :: "http_request \<Rightarrow> credential \<Rightarrow> string \<Rightarrow> string \<Rightarrow> string" where
  "expected_signature r cred secretKey amzDate =
     hex_encode (hmacSHA256 (deriveSigningKey secretKey (cDate cred) (cRegion cred) (cService cred))
       (string_to_sign r cred amzDate))"

definition Verify :: "time \<Rightarrow> http_request \<Rightarrow> credential \<Rightarrow> string \<Rightarrow> int \<Rightarrow> go_error option" where
  "Verify now r cred secretKey maxSkew =
     (let amzDate = header_get (r_header r) ''X-Amz-Date''
      in if amzDate = [] then Some ErrMissingDate
         else case parse_amz_date amzDate of
           None \<Rightarrow> Some (Wrap [Lit ''invalid X-Amz-Date: ''] (Plain [Lit ''parsing time'']) [])
         | Some ts \<Rightarrow>
             (let skew = duration_since now ts
              in if skew > maxSkew \<or> skew < - maxSkew then Some ErrRequestExpired
                 else if expected_signature r cred secretKey amzDate \<noteq> to_lower_str (cSignature cred)
                 then Some ErrSignatureMismatch
                 else None))"

section \<open>The encoding loses nothing\<close>

lemma not_unreserved [simp]: "\<not> isUnreserved CHR ''%''" "\<not> isUnreserved CHR ''&''"
  "\<not> isUnreserved CHR ''=''" "\<not> isUnreserved CHR 0x0A"
  by (simp_all add: isUnreserved_def byte_in_def)

text \<open>The code of one byte.\<close>

definition uri_code :: "bool \<Rightarrow> char \<Rightarrow> string" where
  "uri_code es b = (if isUnreserved b \<or> b = CHR ''/'' \<and> \<not> es then [b] else percent b)"

lemma uriEncode_Cons: "uriEncode (b # s) es = uri_code es b @ uriEncode s es"
  by (auto simp: uri_code_def)

lemma uri_code_ne [simp]: "uri_code es b \<noteq> []"
  by (simp add: uri_code_def percent_def)

lemma uri_code_append: "uri_code es b @ s = uri_code es c @ t \<longleftrightarrow> b = c \<and> s = t"
proof
  assume e: "uri_code es b @ s = uri_code es c @ t"
  have p: "percent x = [CHR ''%'', hex_upper (of_char x div 16), hex_upper (of_char x mod 16)]" for x
    by (simp add: percent_def)
  consider "length (uri_code es b) = length (uri_code es c)"
    | "uri_code es b = [b]" "uri_code es c = percent c" "b \<noteq> CHR ''%''"
    | "uri_code es c = [c]" "uri_code es b = percent b" "c \<noteq> CHR ''%''"
    by (fastforce simp: uri_code_def p split: if_splits)
  then show "b = c \<and> s = t"
  proof cases
    case 1
    with e have "uri_code es b = uri_code es c" "s = t" by auto
    moreover have "percent x \<noteq> [y]" "[y] \<noteq> percent x" for x y by (simp_all add: p)
    ultimately show ?thesis by (auto simp: uri_code_def percent_inject split: if_splits)
  qed (use e p in auto)
qed simp

lemma uriEncode_inject: "uriEncode s es = uriEncode t es \<longleftrightarrow> s = t"
proof (induction s arbitrary: t)
  case Nil
  then show ?case by (cases t) (auto simp: uriEncode_Cons simp del: uriEncode.simps(2))
next
  case (Cons b s)
  show ?case
  proof (cases t)
    case Nil
    then show ?thesis by (simp add: uriEncode_Cons del: uriEncode.simps(2))
  next
    case t: (Cons c u)
    then show ?thesis
      by (simp add: uriEncode_Cons uri_code_append Cons.IH del: uriEncode.simps(2))
  qed
qed

lemma percent_chars: "c \<in> set (percent b) \<Longrightarrow> isUnreserved c \<or> c = CHR ''%''"
proof -
  have "\<forall>x \<in> set ''0123456789ABCDEF''. isUnreserved x" by code_simp
  note hex = this[rule_format]
  have "of_char b div 16 < (16 :: nat)" "of_char b mod 16 < (16 :: nat)"
    by (simp_all add: less_mult_imp_div_less)
  note h = hex[OF hex_upper_chars[OF this(1)]] hex[OF hex_upper_chars[OF this(2)]]
  assume "c \<in> set (percent b)"
  then consider "c = CHR ''%''" | "c = hex_upper (of_char b div 16)" | "c = hex_upper (of_char b mod 16)"
    by (auto simp: percent_def)
  then show ?thesis
  proof cases
    case 2
    show ?thesis unfolding 2 by (rule disjI1) (rule h(1))
  next
    case 3
    show ?thesis unfolding 3 by (rule disjI1) (rule h(2))
  qed simp
qed

lemma uri_code_chars:
  "c \<in> set (uri_code es b) \<Longrightarrow> isUnreserved c \<or> c = CHR ''%'' \<or> (c = CHR ''/'' \<and> \<not> es)"
  using percent_chars[of c b] by (auto simp: uri_code_def split: if_splits)

lemma uriEncode_chars:
  "c \<in> set (uriEncode s es) \<Longrightarrow> isUnreserved c \<or> c = CHR ''%'' \<or> (c = CHR ''/'' \<and> \<not> es)"
proof (induction s)
  case Nil
  then show ?case by simp
next
  case (Cons b s)
  then have "c \<in> set (uri_code es b) \<or> c \<in> set (uriEncode s es)"
    by (auto simp: uriEncode_Cons simp del: uriEncode.simps(2))
  with Cons.IH uri_code_chars show ?case by blast
qed

lemma uriEncode_no_sep:
  "CHR ''&'' \<notin> set (uriEncode s True)" "CHR ''='' \<notin> set (uriEncode s True)" "CHR 0x0A \<notin> set (uriEncode s es)"
  by (auto dest!: uriEncode_chars)

section \<open>The canonical query\<close>

definition flat_query :: "(string \<times> string list) list \<Rightarrow> (string \<times> string) list" where
  "flat_query q = concat (map (\<lambda>kvs. map (Pair (fst kvs)) (snd kvs)) q)"

definition sorted_query :: "(string \<times> string list) list \<Rightarrow> (string \<times> string) list" where
  "sorted_query q =
     concat (map (\<lambda>k. map (Pair k) (sort (case map_of q k of None \<Rightarrow> [] | Some vs \<Rightarrow> vs))) (sort (map fst q)))"

definition query_part :: "string \<times> string \<Rightarrow> string" where
  "query_part kv = uriEncode (fst kv) True @ ''='' @ uriEncode (snd kv) True"

lemma query_parts_sorted: "query_parts q = map query_part (sorted_query q)"
  by (simp add: query_parts_def sorted_query_def map_concat query_part_def o_def)

lemma query_part_inject: "query_part a = query_part b \<longleftrightarrow> a = b"
  using append_sep_inject[OF uriEncode_no_sep(2) uriEncode_no_sep(2)]
  by (auto simp: query_part_def uriEncode_inject prod_eq_iff)

lemma mset_sorted_query: "distinct (map fst q) \<Longrightarrow> mset (sorted_query q) = mset (flat_query q)"
proof -
  assume d: "distinct (map fst q)"
  have "mset (sorted_query q) = (\<Sum>k\<in>#mset (map fst q). mset (map (Pair k) (the (map_of q k))))"
  proof -
    have "mset (sorted_query q) = (\<Sum>k\<in>#mset (sort (map fst q)).
        mset (map (Pair k) (sort (case map_of q k of None \<Rightarrow> [] | Some vs \<Rightarrow> vs))))"
      by (simp add: sorted_query_def mset_concat o_def sum_mset_sum_list[symmetric] del: mset_sort)
    also have "\<dots> = (\<Sum>k\<in>#mset (map fst q). mset (map (Pair k) (the (map_of q k))))"
      unfolding mset_sort by (rule arg_cong[where f = sum_mset], rule image_mset_cong)
        (auto split: option.splits simp: map_of_eq_None_iff)
    finally show ?thesis .
  qed
  also have "\<dots> = (\<Sum>kvs\<in>#mset q. mset (map (Pair (fst kvs)) (snd kvs)))"
  proof -
    have "map_of q (fst x) = Some (snd x)" if "x \<in># mset q" for x
      using d that by (cases x) simp
    then have "image_mset (\<lambda>x. mset (map (Pair (fst x)) (the (map_of q (fst x))))) (mset q)
      = image_mset (\<lambda>x. mset (map (Pair (fst x)) (snd x))) (mset q)"
      by (intro image_mset_cong) simp
    then show ?thesis by (simp add: image_mset.compositionality o_def)
  qed
  also have "\<dots> = mset (flat_query q)"
    by (simp add: flat_query_def mset_concat sum_mset_sum_list[symmetric] o_def)
  finally show ?thesis .
qed

lemma sorted_sorted_query: "distinct (map fst q) \<Longrightarrow> sorted (sorted_query q)"
proof -
  assume "distinct (map fst q)"
  then have s: "sorted_wrt (<) (sort (map fst q))" by (simp add: strict_sorted_iff)
  have "sorted (concat (map (\<lambda>k. map (Pair k) (f k)) ks))"
    if "sorted_wrt (<) ks" "\<And>k. sorted (f k)" for ks and f :: "string \<Rightarrow> string list"
    using that(1)
  proof (induction ks)
    case Nil
    then show ?case by simp
  next
    case (Cons k ks)
    have "sorted (map (Pair k) (f k))" using that(2)[of k] by (simp add: sorted_map)
    with Cons show ?case by (auto simp: sorted_append less_imp_le)
  qed
  from this[OF s] show ?thesis by (simp add: sorted_query_def)
qed

lemma sorted_query_eq:
  "distinct (map fst q) \<Longrightarrow> distinct (map fst q') \<Longrightarrow>
     sorted_query q = sorted_query q' \<longleftrightarrow> mset (flat_query q) = mset (flat_query q')"
  by (metis mset_sorted_query sorted_sorted_query properties_for_sort)

text \<open>The canonical query determines the pairs of keys and values.\<close>

lemma canonicalQueryString_inject:
  "canonicalQueryString q = canonicalQueryString q' \<longleftrightarrow> sorted_query q = sorted_query q'"
proof -
  have no: "\<forall>s \<in> set (query_parts x). CHR ''&'' \<notin> set s" for x
    using uriEncode_no_sep(1) by (auto simp: query_parts_sorted query_part_def)
  have ne: "join ''&'' (query_parts x) \<noteq> []" if "query_parts x \<noteq> []" for x
    using that by (cases "query_parts x" rule: remdups_adj.cases)
      (auto simp: query_parts_sorted query_part_def)
  have "canonicalQueryString q = canonicalQueryString q' \<longleftrightarrow> query_parts q = query_parts q'"
    using join_inject[OF no no, of q q'] ne[of q] ne[of q']
    by (cases "query_parts q = []"; cases "query_parts q' = []") (auto simp: canonicalQueryString_def)
  also have "\<dots> \<longleftrightarrow> sorted_query q = sorted_query q'"
    by (simp add: query_parts_sorted inj_map_eq_map inj_def query_part_inject)
  finally show ?thesis .
qed

lemma canonicalQueryString_lines: "CHR 0x0A \<notin> set (canonicalQueryString q)"
proof -
  have "set (join sep ss) \<subseteq> set sep \<union> (\<Union>s \<in> set ss. set s)" for sep and ss :: "string list"
    by (induction sep ss rule: join.induct) auto
  moreover have "CHR 0x0A \<notin> set s" if "s \<in> set (query_parts q)" for s
    using that uriEncode_no_sep(3) by (auto simp: query_parts_sorted query_part_def)
  ultimately show ?thesis unfolding canonicalQueryString_def by fastforce
qed

section \<open>What the canonical request determines\<close>

text \<open>What \<open>net/http\<close> guarantees of a request it hands over: no line feed in the method and in header values.\<close>

definition no_lf :: "string \<Rightarrow> bool" where
  "no_lf s \<longleftrightarrow> CHR 0x0A \<notin> set s"

definition request_lines_ok :: "http_request \<Rightarrow> bool" where
  "request_lines_ok r \<longleftrightarrow> no_lf (r_method r) \<and> no_lf (r_host r)
     \<and> (\<forall>(k, vs) \<in> set (r_header r). \<forall>v \<in> set vs. no_lf v)"

lemma set_join: "set (join sep ss) \<subseteq> set sep \<union> (\<Union>s \<in> set ss. set s)"
  by (induction sep ss rule: join.induct) auto

lemma concat_runes: "concat (runes s) = s"
  by (induction s rule: runes.induct) (auto split: option.splits)

lemma set_runes: "r \<in> set (runes s) \<Longrightarrow> set r \<subseteq> set s"
  by (metis concat_runes UN_upper set_concat)

lemma set_trim_space: "set (trim_space s) \<subseteq> set s"
  by (auto simp: trim_space_def dest!: set_dropWhileD dest: subsetD[OF set_runes])

lemma set_str_fields: "f \<in> set (str_fields_from rs acc) \<Longrightarrow> set f \<subseteq> set acc \<union> (\<Union>r \<in> set rs. set r)"
  by (induction rs acc rule: str_fields_from.induct) (fastforce split: if_splits)+

lemma set_collapseWhitespace: "set (collapseWhitespace s) \<subseteq> {CHR '' ''} \<union> set s"
proof -
  have "set f \<subseteq> set s" if "f \<in> set (str_fields s)" for f
    using set_str_fields[OF that[unfolded str_fields_def]] set_runes[of _ s] by auto
  then show ?thesis using set_join[of "'' ''" "str_fields s"] by (fastforce simp: collapseWhitespace_def)
qed

definition header_text :: "http_request \<Rightarrow> string \<Rightarrow> string" where
  "header_text r h = join '','' (map (\<lambda>v. collapseWhitespace (trim_space v)) (header_line_values r h))"

lemma header_line_text: "header_line r = (\<lambda>h. (h @ '':'' @ header_text r h) @ [CHR 0x0A])"
  by (simp add: header_line_def header_text_def fun_eq_iff)

lemma header_values_ok: "request_lines_ok r \<Longrightarrow> v \<in> set (header_values (r_header r) h) \<Longrightarrow> no_lf v"
  by (cases "map_of (r_header r) (canonical_header h)")
    (auto simp: header_values_def request_lines_ok_def dest!: map_of_SomeD)

lemma header_get_ok: "request_lines_ok r \<Longrightarrow> no_lf (header_get (r_header r) h)"
  using header_values_ok[of r _ h]
  by (cases "header_values (r_header r) h") (auto simp: header_get_def no_lf_def)

lemma no_lf_header_text:
  assumes "request_lines_ok r"
  shows "no_lf (header_text r h)"
proof -
  have v: "no_lf v" if "v \<in> set (header_line_values r h)" for v
    using that header_values_ok[OF assms, of v h] header_get_ok[OF assms] assms
    by (auto simp: header_line_values_def request_lines_ok_def split: if_splits)
  have "no_lf (collapseWhitespace (trim_space v))" if "v \<in> set (header_line_values r h)" for v
    using set_collapseWhitespace[of "trim_space v"] set_trim_space[of v] v[OF that] by (auto simp: no_lf_def)
  then show ?thesis
    using set_join[of "'',''" "map (\<lambda>v. collapseWhitespace (trim_space v)) (header_line_values r h)"]
    by (fastforce simp: header_text_def no_lf_def)
qed

text \<open>The canonical request as a list of lines.\<close>

lemma join_Cons: "ys \<noteq> [] \<Longrightarrow> join sep (x # ys) = x @ sep @ join sep ys"
  by (cases ys) auto

lemma join_lines: "join [z] (xs @ [concat (map (\<lambda>l. f l @ [z]) ls), y] @ ys)
    = join [z] (xs @ map f ls @ [[], y] @ ys)"
proof -
  have "join [z] (concat (map (\<lambda>l. f l @ [z]) ls) # y # ys) = join [z] (map f ls @ [] # y # ys)"
    by (induction ls) (simp_all add: join_Cons)
  then show ?thesis by (induction xs) (simp_all add: join_Cons)
qed

definition request_lines :: "http_request \<Rightarrow> string list \<Rightarrow> string list" where
  "request_lines r hs =
     [r_method r, canonicalURI (r_path r), canonicalQueryString (r_query r)]
     @ map (\<lambda>h. h @ '':'' @ header_text r h) hs @ [[], join '';'' hs, content_sha256 r]"

lemma buildCanonicalRequest_lines: "buildCanonicalRequest r hs = join [CHR 0x0A] (request_lines r hs)"
  using join_lines[of "CHR 0x0A" "[r_method r, canonicalURI (r_path r), canonicalQueryString (r_query r)]"
      "\<lambda>h. h @ '':'' @ header_text r h" hs "join '';'' hs" "[content_sha256 r]"]
  by (simp add: buildCanonicalRequest_def request_lines_def header_line_text)

lemma request_lines_no_lf:
  assumes "request_lines_ok r" and "\<forall>h \<in> set hs. no_lf h"
  shows "\<forall>l \<in> set (request_lines r hs). CHR 0x0A \<notin> set l"
proof -
  have "no_lf (join '';'' hs)" using set_join[of "'';''" hs] assms(2) by (fastforce simp: no_lf_def)
  moreover have "no_lf (content_sha256 r)"
    using header_get_ok[OF assms(1)] by (simp add: content_sha256_def Let_def no_lf_def)
  moreover have "no_lf (canonicalURI (r_path r))"
    using uriEncode_no_sep(3) by (simp add: canonicalURI_def no_lf_def)
  ultimately show ?thesis
    using no_lf_header_text[OF assms(1)] assms canonicalQueryString_lines
    by (auto simp: request_lines_def no_lf_def request_lines_ok_def)
qed

definition same_path :: "string \<Rightarrow> string \<Rightarrow> bool" where
  "same_path p q \<longleftrightarrow> (if p = [] then ''/'' else p) = (if q = [] then ''/'' else q)"

lemma canonicalURI_inject: "canonicalURI p = canonicalURI q \<longleftrightarrow> same_path p q"
proof -
  have "canonicalURI x = uriEncode (if x = [] then ''/'' else x) False" for x
    by (simp add: canonicalURI_def isUnreserved_def byte_in_def)
  then show ?thesis by (simp add: same_path_def uriEncode_inject)
qed

text \<open>Two requests with the same canonical request for the same signed headers agree on all of it.\<close>

lemma buildCanonicalRequest_inject:
  assumes "request_lines_ok r" "request_lines_ok r'" and "\<forall>h \<in> set hs. no_lf h"
    and eq: "buildCanonicalRequest r hs = buildCanonicalRequest r' hs"
  shows "r_method r = r_method r' \<and> same_path (r_path r) (r_path r')
    \<and> sorted_query (r_query r) = sorted_query (r_query r')
    \<and> (\<forall>h \<in> set hs. header_text r h = header_text r' h) \<and> content_sha256 r = content_sha256 r'"
proof -
  have "request_lines r hs = request_lines r' hs"
    using eq join_inject[OF request_lines_no_lf[OF assms(1,3)] request_lines_no_lf[OF assms(2,3)]]
    by (simp add: buildCanonicalRequest_lines) (simp add: request_lines_def)
  then show ?thesis
    by (auto simp: request_lines_def canonicalURI_inject canonicalQueryString_inject map_eq_conv)
qed

text \<open>The time stamp and the canonical request are in the string to sign.\<close>

lemma string_to_sign_inject:
  assumes "no_lf a" "no_lf a'" and "no_lf (cDate cred)" "no_lf (cRegion cred)" "no_lf (cService cred)"
    and eq: "string_to_sign r cred a = string_to_sign r' cred a'"
  shows "a = a' \<and> sha256_hex (buildCanonicalRequest r (cSignedHeaders cred))
    = sha256_hex (buildCanonicalRequest r' (cSignedHeaders cred))"
proof -
  have hex: "CHR 0x0A \<notin> set (sha256_hex m)" for m
    using sha256_hex_chars[of "CHR 0x0A" m] by (auto simp: hex_char_def byte_in_def)
  have scope: "CHR 0x0A \<notin> set (join ''/'' [cDate cred, cRegion cred, cService cred, ''aws4_request''])"
    using set_join[of "''/''" "[cDate cred, cRegion cred, cService cred, ''aws4_request'']"] assms(3-5)
    by (auto simp: no_lf_def)
  have alg: "CHR 0x0A \<notin> set Algorithm" by (simp add: Algorithm_def)
  let ?l = "\<lambda>r a. [Algorithm, a, join ''/'' [cDate cred, cRegion cred, cService cred, ''aws4_request''],
        sha256_hex (buildCanonicalRequest r (cSignedHeaders cred))]"
  have "?l r a = ?l r' a'"
    using eq join_inject[of "?l r a" "CHR 0x0A" "?l r' a'"] hex scope alg assms(1,2)
    by (simp add: string_to_sign_def no_lf_def del: join.simps)
  then show ?thesis by simp
qed

lemma Verify_None:
  "Verify now r cred secretKey maxSkew = None \<longleftrightarrow>
     (\<exists>ts. parse_amz_date (header_get (r_header r) ''X-Amz-Date'') = Some ts
        \<and> header_get (r_header r) ''X-Amz-Date'' \<noteq> []
        \<and> - maxSkew \<le> duration_since now ts \<and> duration_since now ts \<le> maxSkew
        \<and> to_lower_str (cSignature cred)
          = expected_signature r cred secretKey (header_get (r_header r) ''X-Amz-Date''))"
  by (auto simp: Verify_def Let_def split: option.splits)

end
