(* ===== verification/Sig_Properties.thy ===== *)
theory Sig_Properties
  imports SigV4
begin

text \<open>
  The properties of the signature verification of api-service, with witnesses on a signed sample
  request.
\<close>

section \<open>Plain ASCII text\<close>

definition graphic :: "char \<Rightarrow> bool" where
  "graphic c \<longleftrightarrow> byte_in 33 126 c"

lemma runes_ascii: "\<forall>c \<in> set s. byte_in 0 127 c \<Longrightarrow> runes s = map (\<lambda>c. [c]) s"
  by (induction s) (auto simp: utf8_len.simps(2))

lemma graphic_ascii: "graphic c \<Longrightarrow> byte_in 0 127 c"
  by (simp add: graphic_def byte_in_def)

lemma space_not_graphic: "is_space [c] \<Longrightarrow> \<not> graphic c"
  by (auto simp: is_space_def graphic_def byte_in_def)

lemma concat_singletons: "concat (map (\<lambda>c. [c]) s) = s"
  by (induction s) auto

lemma dropWhile_none: "\<forall>x \<in> set xs. \<not> P x \<Longrightarrow> dropWhile P xs = xs"
  by (cases xs) auto

lemma trim_graphic:
  assumes "\<forall>c \<in> set s. graphic c"
  shows "trim_space s = s" and "trim_space (CHR '' '' # s) = s"
proof -
  have r: "runes s = map (\<lambda>c. [c]) s" using assms by (intro runes_ascii) (auto dest: graphic_ascii)
  have no: "\<forall>x \<in> set (runes s). \<not> is_space x" using assms r space_not_graphic by auto
  then have d: "dropWhile is_space (runes s) = runes s" "dropWhile is_space (rev (runes s)) = rev (runes s)"
    by (simp_all add: dropWhile_none)
  then show "trim_space s = s" by (simp add: trim_space_def r concat_singletons)
  have "runes (CHR '' '' # s) = '' '' # runes s" by (simp add: utf8_len.simps(2) byte_in_def)
  moreover have "is_space '' ''" by (simp add: is_space_def)
  ultimately show "trim_space (CHR '' '' # s) = s" using d by (simp add: trim_space_def r concat_singletons)
qed

lemma to_lower_str_ascii: "\<forall>c \<in> set s. byte_in 0 127 c \<Longrightarrow> to_lower_str s = map to_lower s"
  by (simp add: to_lower_str_def runes_ascii lower_rune_def o_def)

lemma hex_lower: "to_lower_str (hex_encode s) = hex_encode s"
proof -
  have "\<forall>c \<in> set (hex_encode s). byte_in 0 127 c \<and> to_lower c = c"
    using hex_encode_chars[of _ s] by (fastforce simp: hex_char_def byte_in_def to_lower_def)
  then show ?thesis by (simp add: to_lower_str_ascii map_idI)
qed

section \<open>Properties\<close>

text \<open>
  C21: the percent-encoding of a string determines the string, and the canonical query string
  determines the query up to the order of its pairs (and does not depend on that order), so no two
  different queries are signed alike.
\<close>

theorem canonical_forms_lose_nothing:
  assumes "distinct (map fst q)" and "distinct (map fst q')"
  shows "(uriEncode s es = uriEncode t es \<longleftrightarrow> s = t)
    \<and> (canonicalURI p = canonicalURI p' \<longleftrightarrow> p = p' \<or> {p, p'} = {[], ''/''})
    \<and> (canonicalQueryString q = canonicalQueryString q' \<longleftrightarrow> mset (flat_query q) = mset (flat_query q'))"
  by (auto simp: uriEncode_inject canonicalURI_inject same_path_def canonicalQueryString_inject
      sorted_query_eq[OF assms] split: if_splits)

theorem canonical_forms_lose_nothing_witness:
  "canonicalQueryString [(''b'', [''2'', ''1'']), (''a'', [''=&''])]
     = canonicalQueryString [(''a'', [''=&'']), (''b'', [''1'', ''2''])]
   \<and> canonicalQueryString [(''a'', [''b'']), (''c'', [''d''])] \<noteq> canonicalQueryString [(''a'', [''b&c=d''])]"
  using canonical_forms_lose_nothing[of "[(''b'', [''2'', ''1'']), (''a'', [''=&''])]"
      "[(''a'', [''=&'']), (''b'', [''1'', ''2''])]" "[]" True "[]" "[]" "[]"]
    canonical_forms_lose_nothing[of "[(''a'', [''b'']), (''c'', [''d''])]" "[(''a'', [''b&c=d''])]"
      "[]" True "[]" "[]" "[]"]
  by (simp add: flat_query_def)

definition authorization_header :: "credential \<Rightarrow> string" where
  "authorization_header c =
     Algorithm @ '' Credential='' @ join ''/'' [cAccessKey c, cDate c, cRegion c, cService c, ''aws4_request'']
     @ '', SignedHeaders='' @ join '';'' (cSignedHeaders c) @ '', Signature='' @ cSignature c"

definition credential_text_ok :: "credential \<Rightarrow> bool" where
  "credential_text_ok c \<longleftrightarrow>
     (\<forall>s \<in> {cAccessKey c, cDate c, cRegion c, cService c}.
        \<forall>x \<in> set s. graphic x \<and> x \<noteq> CHR '','' \<and> x \<noteq> CHR ''/'')
     \<and> (\<forall>x \<in> set (cSignature c). graphic x \<and> x \<noteq> CHR '','') \<and> cSignature c \<noteq> []
     \<and> (\<forall>h \<in> set (cSignedHeaders c). h \<noteq> []
          \<and> (\<forall>x \<in> set h. graphic x \<and> x \<noteq> CHR '','' \<and> x \<noteq> CHR '';'' \<and> to_lower x = x))
     \<and> cSignedHeaders c \<noteq> [] \<and> sorted (cSignedHeaders c)"

lemma split_eq_append: "CHR ''='' \<notin> set k \<Longrightarrow> split_eq (k @ CHR ''='' # v) = Some (k, v)"
  by (induction k) auto

lemma set_join_mem: "x \<in> set (join sep ss) \<Longrightarrow> x \<in> set sep \<or> (\<exists>s \<in> set ss. x \<in> set s)"
  using set_join[of sep ss] by auto

lemma split_three:
  "z \<notin> set a \<Longrightarrow> z \<notin> set b \<Longrightarrow> z \<notin> set c \<Longrightarrow> split_at_char z (a @ z # b @ z # c) = [a, b, c]"
  by (simp add: split_at_char_append split_at_char_none)

text \<open>The three fields are found whatever their text, as long as it is graphic and has no comma.\<close>

lemma auth_fields_three:
  assumes "\<forall>x \<in> set cr. graphic x \<and> x \<noteq> CHR '',''" "\<forall>x \<in> set sh. graphic x \<and> x \<noteq> CHR '',''"
    "\<forall>x \<in> set si. graphic x \<and> x \<noteq> CHR '',''"
  shows "auth_fields (split_at_char CHR '','' (''Credential='' @ cr @ '', SignedHeaders='' @ sh @ '', Signature='' @ si))
      (\<lambda>_. None) = Some (\<lambda>k. if k = ''Signature'' then Some si else if k = ''SignedHeaders'' then Some sh
        else if k = ''Credential'' then Some cr else None)"
proof -
  define a b c where "a = ''Credential='' @ cr" and "b = ''SignedHeaders='' @ sh" and "c = ''Signature='' @ si"
  have g: "\<forall>x \<in> set a. graphic x" "\<forall>x \<in> set b. graphic x" "\<forall>x \<in> set c. graphic x"
    using assms by (auto simp: a_def b_def c_def graphic_def byte_in_def)
  have n: "CHR '','' \<notin> set a" "CHR '','' \<notin> set (CHR '' '' # b)" "CHR '','' \<notin> set (CHR '' '' # c)"
    using assms by (auto simp: a_def b_def c_def)
  have whole: "''Credential='' @ cr @ '', SignedHeaders='' @ sh @ '', Signature='' @ si
      = a @ CHR '','' # (CHR '' '' # b) @ CHR '','' # CHR '' '' # c"
    by (simp add: a_def b_def c_def)
  have eq: "split_eq a = Some (''Credential'', cr)" "split_eq b = Some (''SignedHeaders'', sh)"
    "split_eq c = Some (''Signature'', si)" by (simp_all add: a_def b_def c_def)
  show ?thesis
    unfolding whole split_three[OF n]
    by (simp add: trim_graphic[OF g(1)] trim_graphic[OF g(2)] trim_graphic[OF g(3)] eq fun_eq_iff)
qed

lemma ParseAuthorization_printed:
  assumes ok: "credential_text_ok c"
  shows "ParseAuthorization (authorization_header c) = Inr c"
proof -
  let ?l = "[cAccessKey c, cDate c, cRegion c, cService c, ''aws4_request'']"
  let ?names = "join '';'' (cSignedHeaders c)"
  have cred: "\<forall>x \<in> set (join ''/'' ?l). graphic x \<and> x \<noteq> CHR '',''"
    using ok by (auto simp: credential_text_ok_def graphic_def byte_in_def)
  have names: "\<forall>x \<in> set ?names. graphic x \<and> x \<noteq> CHR '',''"
  proof
    fix x assume "x \<in> set ?names"
    then consider "x = CHR '';''" | h where "h \<in> set (cSignedHeaders c)" "x \<in> set h"
      using set_join_mem[of x "'';''" "cSignedHeaders c"] by auto
    then show "graphic x \<and> x \<noteq> CHR '',''"
      using ok by cases (auto simp: credential_text_ok_def graphic_def byte_in_def)
  qed
  have sigok: "\<forall>x \<in> set (cSignature c). graphic x \<and> x \<noteq> CHR '',''"
    using ok by (auto simp: credential_text_ok_def)
  from ok have "\<forall>s \<in> {cAccessKey c, cDate c, cRegion c, cService c}. CHR ''/'' \<notin> set s"
    unfolding credential_text_ok_def by blast
  then have "\<forall>s \<in> set ?l. CHR ''/'' \<notin> set s" by simp
  then have split: "split_at_char CHR ''/'' (join ''/'' ?l) = ?l"
    by (intro split_join) (simp_all del: join.simps)
  from ok have "\<forall>h \<in> set (cSignedHeaders c). CHR '';'' \<notin> set h" "cSignedHeaders c \<noteq> []"
    unfolding credential_text_ok_def by blast+
  then have names_split: "split_at_char CHR '';'' ?names = cSignedHeaders c"
    by (intro split_join) simp_all
  have "to_lower_str (trim_space h) = h" if h: "h \<in> set (cSignedHeaders c)" for h
  proof -
    from ok h have "\<forall>x \<in> set h. graphic x \<and> to_lower x = x" by (auto simp: credential_text_ok_def)
    then show ?thesis by (simp add: trim_graphic to_lower_str_ascii graphic_ascii map_idI)
  qed
  then have hs: "sort (map (\<lambda>h. to_lower_str (trim_space h)) (cSignedHeaders c)) = cSignedHeaders c"
    using ok by (simp add: map_idI credential_text_ok_def sort_key_id_if_sorted)
  have ne: "join ''/'' ?l \<noteq> []" "?names \<noteq> []" "cSignature c \<noteq> []"
  proof -
    show "join ''/'' ?l \<noteq> []" using split by (metis split_at_char.simps(1) list.inject list.distinct(1))
    have "[] \<notin> set (cSignedHeaders c)" using ok unfolding credential_text_ok_def by blast
    with names_split show "?names \<noteq> []" by (metis split_at_char.simps(1) list.set_intros(1))
    show "cSignature c \<noteq> []" using ok by (simp add: credential_text_ok_def)
  qed
  have pre: "prefix (Algorithm @ '' '') (authorization_header c)"
    and rest: "drop (length (Algorithm @ '' '')) (authorization_header c)
      = ''Credential='' @ join ''/'' ?l @ '', SignedHeaders='' @ ?names @ '', Signature='' @ cSignature c"
    by (simp_all add: authorization_header_def Algorithm_def)
  show ?thesis
    unfolding ParseAuthorization_def Let_def rest auth_fields_three[OF cred names sigok]
    using pre ne by (simp add: split names_split hs del: join.simps)
qed

text \<open>
  C22: parsing an Authorization header of the documented form gives back its parts, the signed
  headers in sorted order.
\<close>

theorem authorization_round_trip:
  assumes ok: "credential_text_ok c"
  shows "ParseAuthorization (authorization_header c) = Inr c"
  by (rule ParseAuthorization_printed[OF assms])

text \<open>A signed request, to witness the properties.\<close>

definition g_header :: header where
  "g_header = [(''X-Amz-Date'', [''20260101T000000Z''])]"

definition g_request :: http_request where
  "g_request = \<lparr>r_method = ''GET'', r_host = ''ms3.local'', r_path = ''/buckets/pics'',
     r_query = [(''prefix'', [''a'']), (''delimiter'', [''/''])], r_header = g_header\<rparr>"

definition g_unsigned :: credential where
  "g_unsigned = \<lparr>cAccessKey = ''AKID'', cDate = ''20260101'', cRegion = ''us-east-1'', cService = ''s3'',
     cSignedHeaders = [''host'', ''x-amz-date''], cSignature = ''0''\<rparr>"

definition g_cred :: credential where
  "g_cred = g_unsigned\<lparr>cSignature := expected_signature g_request g_unsigned ''secret'' ''20260101T000000Z''\<rparr>"

definition g_now :: time where
  "g_now = the (parse_amz_date ''20260101T000500Z'')"

lemma g_text_ok: "credential_text_ok g_unsigned"
  by code_simp

theorem authorization_round_trip_witness:
  "ParseAuthorization (authorization_header g_unsigned) = Inr g_unsigned"
  by (rule authorization_round_trip[OF g_text_ok])

lemma g_date: "parse_amz_date ''20260101T000000Z'' = Some (g_now - 300 * second)"
  by code_simp

lemma g_lines: "request_lines_ok g_request"
  by (simp add: request_lines_ok_def g_request_def g_header_def no_lf_def)

lemma g_amz: "header_get (r_header g_request) ''X-Amz-Date'' = ''20260101T000000Z''"
  by code_simp

lemma expected_signature_update [simp]:
  "expected_signature r (c\<lparr>cSignature := x\<rparr>) key date = expected_signature r c key date"
  by (simp add: expected_signature_def string_to_sign_def)

lemma expected_signature_lower: "to_lower_str (expected_signature r c key date) = expected_signature r c key date"
  by (simp add: expected_signature_def hex_lower)

lemma g_verifies:
  assumes "\<bar>t\<bar> \<le> 600 * second"
  shows "Verify (g_now + t) g_request g_cred ''secret'' (900 * second) = None"
proof -
  have "duration_since (g_now + t) (g_now - 300 * second) = t + 300 * second"
    using assms by (simp add: duration_since_def second_def)
  with assms show ?thesis
    by (auto simp: Verify_None g_amz g_date g_cred_def expected_signature_lower second_def)
qed

text \<open>The same signed request from a client that adds a header it does not sign and orders the query differently.\<close>

definition g_request2 :: http_request where
  "g_request2 = g_request\<lparr>r_query := rev (r_query g_request),
     r_header := (''User-Agent'', [''curl'']) # r_header g_request\<rparr>"

lemma g_lines2: "request_lines_ok g_request2"
  by (simp add: request_lines_ok_def g_request2_def g_request_def g_header_def no_lf_def)

lemma g_same:
  "buildCanonicalRequest g_request2 (cSignedHeaders g_cred) = buildCanonicalRequest g_request (cSignedHeaders g_cred)"
  "header_get (r_header g_request2) ''X-Amz-Date'' = header_get (r_header g_request) ''X-Amz-Date''"
proof -
  have "buildCanonicalRequest g_request2 [''host'', ''x-amz-date''] = buildCanonicalRequest g_request [''host'', ''x-amz-date'']"
    by code_simp
  then show "buildCanonicalRequest g_request2 (cSignedHeaders g_cred) = buildCanonicalRequest g_request (cSignedHeaders g_cred)"
    by (simp add: g_cred_def g_unsigned_def)
  show "header_get (r_header g_request2) ''X-Amz-Date'' = header_get (r_header g_request) ''X-Amz-Date''" by code_simp
qed

lemma g_same_string: "string_to_sign g_request2 g_cred x = string_to_sign g_request g_cred x"
  by (simp add: string_to_sign_def g_same(1))

lemma g_verifies2: "Verify now g_request2 g_cred key skew = Verify now g_request g_cred key skew"
  by (simp only: Verify_def g_same(2) expected_signature_def g_same_string)

text \<open>
  C23: a signature binds the request: if the same credential text is accepted for two requests
  under one secret key, and the two strings to sign do not collide under HMAC with the one signing
  key the secret and the scope of the credential give, nor the two canonical requests under SHA-256,
  then the requests have the same time stamp, method, path, query (up to
  the order of pairs), payload hash and values of all signed headers (up to white space).
\<close>

theorem signature_binds_request:
  assumes "Verify now r cred key skew = None" and "Verify now' r' cred key skew = None"
    and "request_lines_ok r" "request_lines_ok r'"
    and "distinct (map fst (r_query r))" "distinct (map fst (r_query r'))"
    and "\<forall>s \<in> set ([cDate cred, cRegion cred, cService cred] @ cSignedHeaders cred). no_lf s"
    and no_collision: "hmacSHA256 (deriveSigningKey key (cDate cred) (cRegion cred) (cService cred))
          (string_to_sign r cred (header_get (r_header r) ''X-Amz-Date''))
        = hmacSHA256 (deriveSigningKey key (cDate cred) (cRegion cred) (cService cred))
          (string_to_sign r' cred (header_get (r_header r') ''X-Amz-Date''))
        \<Longrightarrow> string_to_sign r cred (header_get (r_header r) ''X-Amz-Date'')
          = string_to_sign r' cred (header_get (r_header r') ''X-Amz-Date'')"
      "sha256 (buildCanonicalRequest r (cSignedHeaders cred)) = sha256 (buildCanonicalRequest r' (cSignedHeaders cred))
        \<Longrightarrow> buildCanonicalRequest r (cSignedHeaders cred) = buildCanonicalRequest r' (cSignedHeaders cred)"
  shows "header_get (r_header r) ''X-Amz-Date'' = header_get (r_header r') ''X-Amz-Date''
    \<and> r_method r = r_method r' \<and> same_path (r_path r) (r_path r')
    \<and> mset (flat_query (r_query r)) = mset (flat_query (r_query r'))
    \<and> content_sha256 r = content_sha256 r'
    \<and> (\<forall>h \<in> set (cSignedHeaders cred). header_text r h = header_text r' h)"
proof -
  let ?d = "header_get (r_header r) ''X-Amz-Date''" and ?d' = "header_get (r_header r') ''X-Amz-Date''"
  have "expected_signature r cred key ?d = expected_signature r' cred key ?d'"
    using assms(1,2) by (auto simp: Verify_None)
  then have "hmacSHA256 (deriveSigningKey key (cDate cred) (cRegion cred) (cService cred)) (string_to_sign r cred ?d)
    = hmacSHA256 (deriveSigningKey key (cDate cred) (cRegion cred) (cService cred)) (string_to_sign r' cred ?d')"
    by (simp add: expected_signature_def hex_encode_inject)
  then have "string_to_sign r cred ?d = string_to_sign r' cred ?d'" by (rule no_collision(1))
  with string_to_sign_inject[of ?d ?d' cred r r'] header_get_ok[OF assms(3)] header_get_ok[OF assms(4)] assms(7)
  have d: "?d = ?d'" and "sha256_hex (buildCanonicalRequest r (cSignedHeaders cred))
      = sha256_hex (buildCanonicalRequest r' (cSignedHeaders cred))" by auto
  then have c: "buildCanonicalRequest r (cSignedHeaders cred) = buildCanonicalRequest r' (cSignedHeaders cred)"
    using no_collision(2) by (simp add: sha256_hex_def hex_encode_inject)
  have "\<forall>h \<in> set (cSignedHeaders cred). no_lf h" using assms(7) by simp
  from buildCanonicalRequest_inject[OF assms(3,4) this c] d sorted_query_eq[OF assms(5,6)] show ?thesis
    by blast
qed

theorem signature_binds_request_witness:
  "g_request \<noteq> g_request2
   \<and> Verify g_now g_request g_cred ''secret'' (900 * second) = None
   \<and> Verify (g_now + 60 * second) g_request2 g_cred ''secret'' (900 * second) = None
   \<and> mset (flat_query (r_query g_request)) = mset (flat_query (r_query g_request2))
   \<and> header_text g_request ''host'' = header_text g_request2 ''host''"
proof -
  have v: "Verify g_now g_request g_cred ''secret'' (900 * second) = None"
    "Verify (g_now + 60 * second) g_request2 g_cred ''secret'' (900 * second) = None"
    using g_verifies[of 0] g_verifies[of "60 * second"] by (simp_all add: second_def g_verifies2)
  have "distinct (map fst (r_query g_request))" "distinct (map fst (r_query g_request2))"
    by (simp_all add: g_request_def g_request2_def)
  moreover have "\<forall>s \<in> set ([cDate g_cred, cRegion g_cred, cService g_cred] @ cSignedHeaders g_cred). no_lf s"
    by (simp add: g_cred_def g_unsigned_def no_lf_def)
  ultimately have "mset (flat_query (r_query g_request)) = mset (flat_query (r_query g_request2))
      \<and> (\<forall>h \<in> set (cSignedHeaders g_cred). header_text g_request h = header_text g_request2 h)"
    using signature_binds_request[OF v g_lines g_lines2] by (simp add: g_same g_same_string)
  moreover have "''host'' \<in> set (cSignedHeaders g_cred)" by (simp add: g_cred_def g_unsigned_def)
  moreover have "g_request \<noteq> g_request2" by (simp add: g_request_def g_request2_def)
  ultimately show ?thesis using v by blast
qed

text \<open>
  C24: a captured request can be replayed for at most twice the allowed clock skew: whenever a
  request is accepted at two instants, they are no further apart than that.
\<close>

theorem replay_window:
  assumes "Verify now r cred key skew = None" and "Verify now' r cred' key' skew = None"
    and "0 \<le> skew" and "skew < 2 ^ 63 - 1"
  shows "\<bar>now - now'\<bar> \<le> 2 * skew"
proof -
  from assms(1) obtain ts where ts: "parse_amz_date (header_get (r_header r) ''X-Amz-Date'') = Some ts"
    "- skew \<le> duration_since now ts" "duration_since now ts \<le> skew" by (auto simp: Verify_None)
  with assms(2) have "- skew \<le> duration_since now' ts" "duration_since now' ts \<le> skew"
    by (auto simp: Verify_None)
  with ts(2,3) assms(3,4) show ?thesis by (auto simp: duration_since_def min_def max_def split: if_splits)
qed

theorem replay_window_witness: "\<bar>g_now - (g_now + 600 * second)\<bar> \<le> 2 * (900 * second)"
  by (rule replay_window[of _ g_request g_cred "''secret''" _ _ g_cred "''secret''"])
    (use g_verifies[of 0] g_verifies[of "600 * second"] in \<open>simp_all add: second_def\<close>)

end
