(* ===== verification/Chi_Router.thy ===== *)
theory Chi_Router
  imports Go_Url
begin

text \<open>
  The router chi (\<open>github.com/go-chi/chi\<close>), third-party code, as a parameter: a function from a
  table of routes, a method and a path to the index of the route and its parameters, or to the
  status of a miss.  The locale states the documented behaviour the services rely on, for the
  paths it is clear for: if one route of the table matches and its parameters are not empty, that
  route is taken; if none does, the answer is 404 or 405.
\<close>

section \<open>Route patterns\<close>

text \<open>
  \<open>Param\<close> stands for \<open>{name}\<close>, the text up to the next slash; \<open>Rest\<close> for \<open>*\<close>, whatever remains;
  \<open>Slash\<close> for the end of a mounted sub-router, which takes its path with or without a final slash.
\<close>

datatype pat_item = Static string | Param | Rest | Slash

type_synonym route = "string \<times> pat_item list"

definition no_slash :: "char \<Rightarrow> bool" where
  "no_slash c \<longleftrightarrow> c \<noteq> CHR ''/''"

fun pat_match :: "pat_item list \<Rightarrow> string \<Rightarrow> string list option" where
  "pat_match [] s = (if s = [] then Some [] else None)"
| "pat_match (Static t # ps) s = (if prefix t s then pat_match ps (drop (length t) s) else None)"
| "pat_match (Param # ps) s =
     map_option ((#) (takeWhile no_slash s)) (pat_match ps (dropWhile no_slash s))"
| "pat_match (Rest # ps) s = Some [s]"
| "pat_match (Slash # ps) s = (if s = [] \<or> s = ''/'' then Some [] else None)"

fun route_hits :: "nat \<Rightarrow> route list \<Rightarrow> string \<Rightarrow> string \<Rightarrow> (nat \<times> string list) list" where
  "route_hits i [] m p = []"
| "route_hits i ((m', pat) # rs) m p =
     (case (if m' = m then pat_match pat p else None) of
        None \<Rightarrow> route_hits (Suc i) rs m p
      | Some ps \<Rightarrow> (i, ps) # route_hits (Suc i) rs m p)"

section \<open>The law of the router\<close>

type_synonym chi = "route list \<Rightarrow> string \<Rightarrow> string \<Rightarrow> nat + nat \<times> string list"

definition chi_law :: "chi \<Rightarrow> bool" where
  "chi_law chi \<longleftrightarrow>
     (\<forall>rs m p i ps. route_hits 0 rs m p = [(i, ps)] \<longrightarrow> [] \<notin> set ps \<longrightarrow> chi rs m p = Inr (i, ps))
     \<and> (\<forall>rs m p. route_hits 0 rs m p = [] \<longrightarrow> chi rs m p = Inl 404 \<or> chi rs m p = Inl 405)
     \<and> (\<forall>rs m p i ps. chi rs m p = Inr (i, ps) \<longrightarrow> (i, ps) \<in> set (route_hits 0 rs m p))
     \<and> (\<forall>rs m p st. chi rs m p = Inl st \<longrightarrow> st = 404 \<or> st = 405)"

locale chi_router =
  fixes chi :: chi
  assumes law: "chi_law chi"
begin

lemma chi_hit: "route_hits 0 rs m p = [(i, ps)] \<Longrightarrow> [] \<notin> set ps \<Longrightarrow> chi rs m p = Inr (i, ps)"
  using law by (simp add: chi_law_def)

lemma chi_miss: "route_hits 0 rs m p = [] \<Longrightarrow> chi rs m p = Inl 404 \<or> chi rs m p = Inl 405"
  using law by (simp add: chi_law_def)

lemma chi_sound: "chi rs m p = Inr (i, ps) \<Longrightarrow> (i, ps) \<in> set (route_hits 0 rs m p)"
  using law by (simp add: chi_law_def)

lemma chi_status: "chi rs m p = Inl st \<Longrightarrow> st = 404 \<or> st = 405"
  using law by (simp add: chi_law_def)

end

text \<open>A router with this law: the first route that matches.\<close>

definition first_route :: chi where
  "first_route rs m p = (case route_hits 0 rs m p of [] \<Rightarrow> Inl 404 | h # _ \<Rightarrow> Inr h)"

interpretation first_route: chi_router first_route
  by unfold_locales (auto simp: chi_law_def first_route_def split: list.splits)

section \<open>Matching\<close>

lemma takeWhile_no_slash: "CHR ''/'' \<notin> set v \<Longrightarrow>
    takeWhile no_slash (v @ CHR ''/'' # s) = v \<and> dropWhile no_slash (v @ CHR ''/'' # s) = CHR ''/'' # s"
  by (induction v) (auto simp: no_slash_def)

lemma takeWhile_no_slash_end: "CHR ''/'' \<notin> set v \<Longrightarrow> takeWhile no_slash v = v \<and> dropWhile no_slash v = []"
  by (induction v) (auto simp: no_slash_def)

lemmas pat_match_simps = takeWhile_no_slash takeWhile_no_slash_end prefix_def

end
