(* ===== verification/Go_Net.thy ===== *)
theory Go_Net
  imports Chi_Router Data_Api
begin

text \<open>
  A call over the network with the HTTP client of \<open>net/http\<close>: the request, and what can go wrong
  between the services.  A request may be lost before it is served, its reply may be lost after
  it was served (a timeout of the client looks the same), or the body of the reply may break off.
\<close>

text \<open>The body of an upload: the bytes that arrive and the error that ends them early, if any.\<close>

datatype req_body = NoReqBody | JsonReq json | StreamReq upload

record http_call =
  hc_method :: string
  hc_url :: url
  hc_header :: header
  hc_body :: req_body

datatype fault = Delivered | RequestLost | ReplyLost | ReplyCut nat

type_synonym 's transport = "http_call \<Rightarrow> 's \<Rightarrow> (unit + response) \<times> 's"

fun cut_body :: "nat \<Rightarrow> http_body \<Rightarrow> http_body" where
  "cut_body n (RawBody b) = RawBody (take n b)"
| "cut_body n _ = NoBody"

fun exchange :: "fault \<Rightarrow> ('s \<Rightarrow> response \<times> 's) \<Rightarrow> 's \<Rightarrow> (unit + response) \<times> 's" where
  "exchange Delivered serve s = (case serve s of (r, s') \<Rightarrow> (Inr r, s'))"
| "exchange RequestLost serve s = (Inl (), s)"
| "exchange ReplyLost serve s = (case serve s of (r, s') \<Rightarrow> (Inl (), s'))"
| "exchange (ReplyCut n) serve s = (case serve s of (r, s') \<Rightarrow> (Inr (r\<lparr>body := cut_body n (body r)\<rparr>), s'))"

definition resp_json :: "response \<Rightarrow> json option" where
  "resp_json r = (case body r of JsonBody j \<Rightarrow> Some j | _ \<Rightarrow> None)"

definition req_json :: "req_body \<Rightarrow> json option" where
  "req_json b = (case b of JsonReq j \<Rightarrow> Some j | _ \<Rightarrow> None)"

text \<open>
  What an exchange can come to: an error, with the request served or not, or the reply of the
  service with its body, perhaps cut off.
\<close>

lemma exchange_cases:
  assumes "exchange f serve s = (res, s')"
  obtains (lost) "res = Inl ()" "s' = s" | (served) r where "serve s = (r, s')"
      "res = Inl () \<or> res = Inr r \<or> (\<exists>n. res = Inr (r\<lparr>body := cut_body n (body r)\<rparr>))"
      "f = Delivered \<longrightarrow> res = Inr r"
  using assms by (cases f) (auto split: prod.splits)

end
