(* ===== verification/Api_Clients.thy ===== *)
theory Api_Clients
  imports Go_Net
begin

text \<open>
  The upstream clients of api-service (\<open>clients/\<close>): their interfaces as records of operations over a
  state, and the HTTP clients, which put names and keys into URLs by concatenation, send the request
  over a transport and turn statuses into errors.  A status line (\<open>resp.Status\<close>) in an error text is
  shown by its code.
\<close>

section \<open>Interfaces and errors\<close>

record bucket_info =
  biName :: string
  biOwnerID :: string
  biCreatedAt :: time

record object_info =
  oiKey :: string
  oiBucket :: string
  oiSizeBytes :: "64 word"
  oiETag :: string
  oiContentType :: string
  oiStorageRef :: string
  oiCreatedAt :: time

datatype client_error =
    NotFoundError string
  | ConflictError message
  | InvalidInputError message
  | ForbiddenError message
  | OtherError message

fun empty_text :: "message \<Rightarrow> bool" where
  "empty_text [] = True"
| "empty_text (Lit s # m) = (s = [] \<and> empty_text m)"
| "empty_text (_ # m) = False"

fun client_error_text :: "client_error \<Rightarrow> message" where
  "client_error_text (NotFoundError r) = [Lit r, Lit '' not found'']"
| "client_error_text (ConflictError m) = (if \<not> empty_text m then m else [Lit ''conflict''])"
| "client_error_text (InvalidInputError m) = (if \<not> empty_text m then m else [Lit ''invalid input''])"
| "client_error_text (ForbiddenError m) = (if \<not> empty_text m then m else [Lit ''forbidden''])"
| "client_error_text (OtherError m) = m"

type_synonym ('s, 'a) call = "'s \<Rightarrow> (client_error + 'a) \<times> 's"

record 's metadata_client =
  mc_create_bucket :: "string \<Rightarrow> string \<Rightarrow> ('s, bucket_info) call"
  mc_get_bucket :: "string \<Rightarrow> ('s, bucket_info) call"
  mc_list_buckets :: "string \<Rightarrow> ('s, bucket_info list) call"
  mc_delete_bucket :: "string \<Rightarrow> ('s, unit) call"
  mc_list_objects :: "string \<Rightarrow> string \<Rightarrow> ('s, object_info list) call"
  mc_put_object :: "object_info \<Rightarrow> ('s, object_info) call"
  mc_get_object :: "string \<Rightarrow> string \<Rightarrow> ('s, object_info) call"
  mc_delete_object :: "string \<Rightarrow> string \<Rightarrow> ('s, unit) call"
  mc_ping :: "('s, unit) call"

text \<open>A read returns the bytes that arrive before the stream ends or breaks off.\<close>

record 's data_client =
  dc_write :: "string \<Rightarrow> upload \<Rightarrow> ('s, string \<times> 64 word) call"
  dc_read :: "string \<Rightarrow> string \<Rightarrow> ('s, bytes) call"
  dc_delete :: "string \<Rightarrow> string \<Rightarrow> ('s, unit) call"
  dc_ping :: "('s, unit) call"

record client_credential =
  ccUserID :: string
  ccSecretKey :: string

record 's auth_client =
  ac_lookup :: "string \<Rightarrow> ('s, client_credential) call"
  ac_ping :: "('s, unit) call"

section \<open>Sending a request\<close>

definition send ::
    "'s transport \<Rightarrow> string \<Rightarrow> string \<Rightarrow> header \<Rightarrow> req_body \<Rightarrow> ('s, response) call" where
  "send T mth txt hdr bdy s =
     (case url_parse txt of
        None \<Rightarrow> (Inl (OtherError [Lit ''parse URL'']), s)
      | Some u \<Rightarrow>
          (case T \<lparr>hc_method = mth, hc_url = u, hc_header = hdr, hc_body = bdy\<rparr> s of
             (Inl _, s') \<Rightarrow> (Inl (OtherError [Lit ''request failed'']), s')
           | (Inr resp, s') \<Rightarrow> (Inr resp, s')))"

definition json_content :: header where
  "json_content = [(''Content-Type'', [''application/json''])]"

record errorResponse =
  erError :: message

definition errorResponse_fields :: "errorResponse field list" where
  "errorResponse_fields = [(''error'', message_field (\<lambda>m r. r\<lparr>erError := m\<rparr>))]"

text \<open>A body that cannot be decoded leaves what was decoded before the error.\<close>

definition error_body :: "response \<Rightarrow> message" where
  "error_body resp =
     (case resp_json resp of
        None \<Rightarrow> []
      | Some j \<Rightarrow> erError (fst (decode_struct errorResponse_fields False j \<lparr>erError = []\<rparr>)))"

definition decoded :: "'a field list \<Rightarrow> 'a \<Rightarrow> response \<Rightarrow> client_error + 'a" where
  "decoded fs zero resp =
     (case decode_body fs False zero (resp_json resp) of
        Inl e \<Rightarrow> Inl (OtherError (error_text e))
      | Inr x \<Rightarrow> Inr x)"

definition decoded_list :: "'a field list \<Rightarrow> 'a \<Rightarrow> response \<Rightarrow> client_error + 'a list" where
  "decoded_list fs zero resp =
     (case decode_list_body fs zero (resp_json resp) of
        Inl e \<Rightarrow> Inl (OtherError (error_text e))
      | Inr x \<Rightarrow> Inr x)"

section \<open>The metadata client\<close>

definition meta_do :: "'s transport \<Rightarrow> nat \<Rightarrow> string \<Rightarrow> string \<Rightarrow> header \<Rightarrow> req_body \<Rightarrow> ('s, response) call" where
  "meta_do T wantStatus mth txt hdr bdy s =
     (case send T mth txt hdr bdy s of
        (Inl e, s') \<Rightarrow> (Inl e, s')
      | (Inr resp, s') \<Rightarrow>
          (if status resp \<noteq> wantStatus then
             (if status resp = StatusNotFound then Inl (NotFoundError ''metadata record'')
              else if status resp = StatusConflict then Inl (ConflictError (error_body resp))
              else if status resp = StatusBadRequest then Inl (InvalidInputError (error_body resp))
              else Inl (OtherError [Lit ''metadata-service returned '', Dec (int (status resp))]), s')
           else (Inr resp, s')))"

record client_bucketResponse =
  cbrID :: string
  cbrName :: string
  cbrOwnerID :: string
  cbrVersioning :: bool
  cbrCreatedAt :: time

definition client_bucketResponse_fields :: "client_bucketResponse field list" where
  "client_bucketResponse_fields =
     [(''id'', string_field (\<lambda>x r. r\<lparr>cbrID := x\<rparr>)),
      (''name'', string_field (\<lambda>x r. r\<lparr>cbrName := x\<rparr>)),
      (''owner_id'', string_field (\<lambda>x r. r\<lparr>cbrOwnerID := x\<rparr>)),
      (''versioning'', bool_field (\<lambda>x r. r\<lparr>cbrVersioning := x\<rparr>)),
      (''created_at'', time_field (\<lambda>x r. r\<lparr>cbrCreatedAt := x\<rparr>))]"

definition zero_bucketResponse :: client_bucketResponse where
  "zero_bucketResponse = \<lparr>cbrID = [], cbrName = [], cbrOwnerID = [], cbrVersioning = False, cbrCreatedAt = 0\<rparr>"

definition toBucketInfo :: "client_bucketResponse \<Rightarrow> bucket_info" where
  "toBucketInfo b = \<lparr>biName = cbrName b, biOwnerID = cbrOwnerID b, biCreatedAt = cbrCreatedAt b\<rparr>"

record client_objectResponse =
  corID :: string
  corBucketName :: string
  corKey :: string
  corSizeBytes :: "64 word"
  corETag :: string
  corContentType :: string
  corStorageRef :: string
  corVersionID :: string
  corCreatedAt :: time

definition client_objectResponse_fields :: "client_objectResponse field list" where
  "client_objectResponse_fields =
     [(''id'', string_field (\<lambda>x r. r\<lparr>corID := x\<rparr>)),
      (''bucket_name'', string_field (\<lambda>x r. r\<lparr>corBucketName := x\<rparr>)),
      (''key'', string_field (\<lambda>x r. r\<lparr>corKey := x\<rparr>)),
      (''size_bytes'', int64_field (\<lambda>x r. r\<lparr>corSizeBytes := x\<rparr>)),
      (''etag'', string_field (\<lambda>x r. r\<lparr>corETag := x\<rparr>)),
      (''content_type'', string_field (\<lambda>x r. r\<lparr>corContentType := x\<rparr>)),
      (''storage_ref'', string_field (\<lambda>x r. r\<lparr>corStorageRef := x\<rparr>)),
      (''version_id'', string_field (\<lambda>x r. r\<lparr>corVersionID := x\<rparr>)),
      (''created_at'', time_field (\<lambda>x r. r\<lparr>corCreatedAt := x\<rparr>))]"

definition zero_objectResponse :: client_objectResponse where
  "zero_objectResponse = \<lparr>corID = [], corBucketName = [], corKey = [], corSizeBytes = 0, corETag = [],
     corContentType = [], corStorageRef = [], corVersionID = [], corCreatedAt = 0\<rparr>"

definition toObjectInfo :: "client_objectResponse \<Rightarrow> object_info" where
  "toObjectInfo r = \<lparr>oiKey = corKey r, oiBucket = corBucketName r, oiSizeBytes = corSizeBytes r,
     oiETag = corETag r, oiContentType = corContentType r, oiStorageRef = corStorageRef r,
     oiCreatedAt = corCreatedAt r\<rparr>"

definition returned :: "(client_error + response) \<times> 's \<Rightarrow> (response \<Rightarrow> client_error + 'a) \<Rightarrow> (client_error + 'a) \<times> 's" where
  "returned rs k = (case rs of (Inl e, s) \<Rightarrow> (Inl e, s) | (Inr resp, s) \<Rightarrow> (k resp, s))"

definition MetadataClient_CreateBucket :: "'s transport \<Rightarrow> string \<Rightarrow> string \<Rightarrow> ('s, bucket_info) call" where
  "MetadataClient_CreateBucket T name ownerID s =
     returned
       (meta_do T StatusCreated ''POST'' ''/buckets'' json_content
         (JsonReq (JObj [(''name'', jstr name), (''owner_id'', jstr ownerID)])) s)
       (\<lambda>resp. map_sum id toBucketInfo (decoded client_bucketResponse_fields zero_bucketResponse resp))"

definition MetadataClient_GetBucket :: "'s transport \<Rightarrow> string \<Rightarrow> ('s, bucket_info) call" where
  "MetadataClient_GetBucket T name s =
     returned (meta_do T StatusOK ''GET'' (''/buckets/'' @ name) [] NoReqBody s)
       (\<lambda>resp. map_sum id toBucketInfo (decoded client_bucketResponse_fields zero_bucketResponse resp))"

definition MetadataClient_ListBucketsByOwner :: "'s transport \<Rightarrow> string \<Rightarrow> ('s, bucket_info list) call" where
  "MetadataClient_ListBucketsByOwner T ownerID s =
     returned (meta_do T StatusOK ''GET'' (''/buckets?'' @ encode_query ''owner_id'' ownerID) [] NoReqBody s)
       (\<lambda>resp. map_sum id (map toBucketInfo)
          (decoded_list client_bucketResponse_fields zero_bucketResponse resp))"

definition MetadataClient_DeleteBucket :: "'s transport \<Rightarrow> string \<Rightarrow> ('s, unit) call" where
  "MetadataClient_DeleteBucket T name s =
     returned (meta_do T StatusNoContent ''DELETE'' (''/buckets/'' @ name) [] NoReqBody s) (\<lambda>_. Inr ())"

definition MetadataClient_ListObjects :: "'s transport \<Rightarrow> string \<Rightarrow> string \<Rightarrow> ('s, object_info list) call" where
  "MetadataClient_ListObjects T bucket pref s =
     returned
       (meta_do T StatusOK ''GET''
         (''/buckets/'' @ bucket @ ''/objects'' @ (if pref \<noteq> [] then ''?'' @ encode_query ''prefix'' pref else []))
         [] NoReqBody s)
       (\<lambda>resp. map_sum id (map toObjectInfo)
          (decoded_list client_objectResponse_fields zero_objectResponse resp))"

definition MetadataClient_PutObjectMeta :: "'s transport \<Rightarrow> object_info \<Rightarrow> ('s, object_info) call" where
  "MetadataClient_PutObjectMeta T ob s =
     returned
       (meta_do T StatusCreated ''POST'' (''/buckets/'' @ oiBucket ob @ ''/objects'') json_content
         (JsonReq (JObj [(''key'', jstr (oiKey ob)), (''size_bytes'', JInt (sint (oiSizeBytes ob))),
           (''etag'', jstr (oiETag ob)), (''content_type'', jstr (oiContentType ob)),
           (''storage_ref'', jstr (oiStorageRef ob))])) s)
       (\<lambda>resp. map_sum id toObjectInfo (decoded client_objectResponse_fields zero_objectResponse resp))"

definition MetadataClient_GetObjectMeta :: "'s transport \<Rightarrow> string \<Rightarrow> string \<Rightarrow> ('s, object_info) call" where
  "MetadataClient_GetObjectMeta T bucket key s =
     returned (meta_do T StatusOK ''GET'' (''/buckets/'' @ bucket @ ''/objects/'' @ key) [] NoReqBody s)
       (\<lambda>resp. map_sum id toObjectInfo (decoded client_objectResponse_fields zero_objectResponse resp))"

definition MetadataClient_DeleteObjectMeta :: "'s transport \<Rightarrow> string \<Rightarrow> string \<Rightarrow> ('s, unit) call" where
  "MetadataClient_DeleteObjectMeta T bucket key s =
     returned (meta_do T StatusNoContent ''DELETE'' (''/buckets/'' @ bucket @ ''/objects/'' @ key) [] NoReqBody s)
       (\<lambda>_. Inr ())"

definition ping :: "string \<Rightarrow> 's transport \<Rightarrow> ('s, unit) call" where
  "ping service T s =
     returned (send T ''GET'' ''/healthz/live'' [] NoReqBody s)
       (\<lambda>resp. if status resp \<noteq> StatusOK
          then Inl (OtherError [Lit service, Lit '' healthz returned '', Dec (int (status resp))]) else Inr ())"

definition MetadataClient_Ping :: "'s transport \<Rightarrow> ('s, unit) call" where
  "MetadataClient_Ping = ping ''metadata-service''"

definition HTTPMetadataClient :: "'s transport \<Rightarrow> 's metadata_client" where
  "HTTPMetadataClient T =
     \<lparr>mc_create_bucket = MetadataClient_CreateBucket T, mc_get_bucket = MetadataClient_GetBucket T,
      mc_list_buckets = MetadataClient_ListBucketsByOwner T, mc_delete_bucket = MetadataClient_DeleteBucket T,
      mc_list_objects = MetadataClient_ListObjects T, mc_put_object = MetadataClient_PutObjectMeta T,
      mc_get_object = MetadataClient_GetObjectMeta T, mc_delete_object = MetadataClient_DeleteObjectMeta T,
      mc_ping = MetadataClient_Ping T\<rparr>"

section \<open>The data client\<close>

definition dataServiceError :: "response \<Rightarrow> string \<Rightarrow> client_error" where
  "dataServiceError resp fallback =
     OtherError
       (if \<not> empty_text (error_body resp) then [Lit fallback, Lit '': ''] @ error_body resp
        else [Lit fallback, Lit '': '', Dec (int (status resp))])"

record upload_out =
  uoHash :: string
  uoSize :: "64 word"

definition upload_out_fields :: "upload_out field list" where
  "upload_out_fields =
     [(''hash'', string_field (\<lambda>x r. r\<lparr>uoHash := x\<rparr>)), (''size'', int64_field (\<lambda>x r. r\<lparr>uoSize := x\<rparr>))]"

text \<open>An error of the body that is streamed makes the request fail.\<close>

definition DataClient_Write :: "'s transport \<Rightarrow> string \<Rightarrow> upload \<Rightarrow> ('s, string \<times> 64 word) call" where
  "DataClient_Write T namespace r s =
     returned (send T ''POST'' (''/namespaces/'' @ namespace @ ''/objects'') [] (StreamReq r) s)
       (\<lambda>resp.
          if u_error r \<noteq> None then Inl (OtherError [Lit ''request failed''])
          else if status resp \<noteq> StatusCreated then Inl (dataServiceError resp ''data-service upload failed'')
          else map_sum id (\<lambda>out. (uoHash out, uoSize out))
                 (decoded upload_out_fields \<lparr>uoHash = [], uoSize = 0\<rparr> resp))"

definition stream :: "response \<Rightarrow> bytes" where
  "stream resp = (case body resp of RawBody b \<Rightarrow> b | _ \<Rightarrow> [])"

definition DataClient_Read :: "'s transport \<Rightarrow> string \<Rightarrow> string \<Rightarrow> ('s, bytes) call" where
  "DataClient_Read T namespace hash s =
     returned (send T ''GET'' (''/namespaces/'' @ namespace @ ''/objects/'' @ hash) [] NoReqBody s)
       (\<lambda>resp.
          if status resp = StatusNotFound then Inl (NotFoundError ''object data'')
          else if status resp \<noteq> StatusOK then Inl (dataServiceError resp ''data-service download failed'')
          else Inr (stream resp))"

definition DataClient_Delete :: "'s transport \<Rightarrow> string \<Rightarrow> string \<Rightarrow> ('s, unit) call" where
  "DataClient_Delete T namespace hash s =
     returned (send T ''DELETE'' (''/namespaces/'' @ namespace @ ''/objects/'' @ hash) [] NoReqBody s)
       (\<lambda>resp. if status resp \<noteq> StatusNoContent then Inl (dataServiceError resp ''data-service delete failed'')
          else Inr ())"

definition DataClient_Ping :: "'s transport \<Rightarrow> ('s, unit) call" where
  "DataClient_Ping = ping ''data-service''"

definition HTTPDataClient :: "'s transport \<Rightarrow> 's data_client" where
  "HTTPDataClient T = \<lparr>dc_write = DataClient_Write T, dc_read = DataClient_Read T,
     dc_delete = DataClient_Delete T, dc_ping = DataClient_Ping T\<rparr>"

section \<open>The auth client\<close>

record internalCredentialResponse =
  icUserID :: string
  icSecretKey :: string

definition internalCredentialResponse_fields :: "internalCredentialResponse field list" where
  "internalCredentialResponse_fields =
     [(''user_id'', string_field (\<lambda>x r. r\<lparr>icUserID := x\<rparr>)),
      (''secret_key'', string_field (\<lambda>x r. r\<lparr>icSecretKey := x\<rparr>))]"

definition AuthClient_LookupCredential :: "string \<Rightarrow> 's transport \<Rightarrow> string \<Rightarrow> ('s, client_credential) call" where
  "AuthClient_LookupCredential token T accessKey s =
     returned
       (send T ''GET'' (''/internal/credentials/'' @ accessKey) [(''X-Internal-Token'', [token])] NoReqBody s)
       (\<lambda>resp.
          if status resp \<noteq> StatusOK then
            (if status resp = StatusNotFound then Inl (NotFoundError ''access key'')
             else Inl (OtherError ([Lit ''auth-service returned '', Dec (int (status resp)), Lit '': ''] @ error_body resp)))
          else map_sum id (\<lambda>out. \<lparr>ccUserID = icUserID out, ccSecretKey = icSecretKey out\<rparr>)
                 (decoded internalCredentialResponse_fields \<lparr>icUserID = [], icSecretKey = []\<rparr> resp))"

definition AuthClient_Ping :: "'s transport \<Rightarrow> ('s, unit) call" where
  "AuthClient_Ping = ping ''auth-service''"

definition HTTPAuthClient :: "string \<Rightarrow> 's transport \<Rightarrow> 's auth_client" where
  "HTTPAuthClient token T = \<lparr>ac_lookup = AuthClient_LookupCredential token T, ac_ping = AuthClient_Ping T\<rparr>"

section \<open>Lemmas\<close>

lemma HTTPMetadataClient_sel [simp]:
  "mc_create_bucket (HTTPMetadataClient T) = MetadataClient_CreateBucket T"
  "mc_get_bucket (HTTPMetadataClient T) = MetadataClient_GetBucket T"
  "mc_list_buckets (HTTPMetadataClient T) = MetadataClient_ListBucketsByOwner T"
  "mc_delete_bucket (HTTPMetadataClient T) = MetadataClient_DeleteBucket T"
  "mc_list_objects (HTTPMetadataClient T) = MetadataClient_ListObjects T"
  "mc_put_object (HTTPMetadataClient T) = MetadataClient_PutObjectMeta T"
  "mc_get_object (HTTPMetadataClient T) = MetadataClient_GetObjectMeta T"
  "mc_delete_object (HTTPMetadataClient T) = MetadataClient_DeleteObjectMeta T"
  "mc_ping (HTTPMetadataClient T) = MetadataClient_Ping T"
  by (simp_all add: HTTPMetadataClient_def)

lemma HTTPDataClient_sel [simp]:
  "dc_write (HTTPDataClient T) = DataClient_Write T" "dc_read (HTTPDataClient T) = DataClient_Read T"
  "dc_delete (HTTPDataClient T) = DataClient_Delete T" "dc_ping (HTTPDataClient T) = DataClient_Ping T"
  by (simp_all add: HTTPDataClient_def)

lemma HTTPAuthClient_sel [simp]:
  "ac_lookup (HTTPAuthClient token T) = AuthClient_LookupCredential token T"
  "ac_ping (HTTPAuthClient token T) = AuthClient_Ping T"
  by (simp_all add: HTTPAuthClient_def)

lemma resp_json_write [simp]: "resp_json (write_json st v) = Some v" "resp_json (write_header st) = None"
  by (simp_all add: resp_json_def)

lemma returned_simps [simp]: "returned (Inl e, s) k = (Inl e, s)" "returned (Inr resp, s) k = (k resp, s)"
  by (simp_all add: returned_def)

lemma snd_returned [simp]: "snd (returned rs k) = snd rs"
  by (simp add: returned_def split: prod.split sum.split)

end
