(* ===== verification/Api_Handlers.thy ===== *)
theory Api_Handlers
  imports Api_Clients SigV4
begin

text \<open>
  The handlers of api-service (\<open>api/\<close>, \<open>utils/\<close>) over the interfaces of the upstream clients: the
  mapping of upstream errors, the signature check, the ownership check, and the bucket and object
  handlers.  The state \<open>'s\<close> is whatever the clients act on.
\<close>

section \<open>Responses\<close>

definition WriteError :: "nat \<Rightarrow> message \<Rightarrow> response" where
  "WriteError st msg = write_json st (error_json msg)"

fun WriteUpstreamError :: "client_error \<Rightarrow> response" where
  "WriteUpstreamError (NotFoundError r) = WriteError StatusNotFound (client_error_text (NotFoundError r))"
| "WriteUpstreamError (ConflictError m) = WriteError StatusConflict (client_error_text (ConflictError m))"
| "WriteUpstreamError (InvalidInputError m) =
     WriteError StatusBadRequest (client_error_text (InvalidInputError m))"
| "WriteUpstreamError (ForbiddenError m) = WriteError StatusForbidden (client_error_text (ForbiddenError m))"
| "WriteUpstreamError (OtherError m) = WriteError StatusBadGateway [Lit ''upstream service error'']"

definition bucket_info_json :: "bucket_info \<Rightarrow> json" where
  "bucket_info_json b = JObj [(''name'', jstr (biName b)), (''owner_id'', jstr (biOwnerID b)),
     (''created_at'', JTime (biCreatedAt b))]"

definition object_info_json :: "object_info \<Rightarrow> json" where
  "object_info_json ob = JObj [(''object_key'', jstr (oiKey ob)), (''bucket_name'', jstr (oiBucket ob)),
     (''size_bytes'', JInt (sint (oiSizeBytes ob))), (''etag'', jstr (oiETag ob)),
     (''content_type'', jstr (oiContentType ob)), (''storage_ref'', jstr (oiStorageRef ob)),
     (''created_at'', JTime (oiCreatedAt ob))]"

section \<open>Principals\<close>

record principal =
  pUserID :: string
  pAccessKey :: string

record 's server =
  sv_metadata :: "'s metadata_client"
  sv_data :: "'s data_client"
  sv_auth :: "'s auth_client"

definition sigv4Region :: string where
  "sigv4Region = ''us-east-1''"

definition sigv4Service :: string where
  "sigv4Service = ''s3''"

definition maxClockSkew :: int where
  "maxClockSkew = 15 * 60 * second"

definition unauthorized :: "string \<Rightarrow> response" where
  "unauthorized msg = WriteError StatusUnauthorized [Lit msg]"

text \<open>The middleware gives the principal for the next handler, or the response.\<close>

definition requireSigV4 :: "'s auth_client \<Rightarrow> time \<Rightarrow> http_request \<Rightarrow> 's \<Rightarrow> (response + principal) \<times> 's" where
  "requireSigV4 auth now r s =
     (let authHeader = header_get (r_header r) ''Authorization''
      in if authHeader = [] then (Inl (unauthorized ''missing Authorization header''), s)
         else case ParseAuthorization authHeader of
           Inl _ \<Rightarrow> (Inl (unauthorized ''malformed Authorization header''), s)
         | Inr cred \<Rightarrow>
             if cRegion cred \<noteq> sigv4Region \<or> cService cred \<noteq> sigv4Service then
               (Inl (unauthorized ''unsupported signing region/service''), s)
             else
               (case ac_lookup auth (cAccessKey cred) s of
                  (Inl (NotFoundError _), s') \<Rightarrow> (Inl (unauthorized ''unknown access key''), s')
                | (Inl _, s') \<Rightarrow> (Inl (WriteError StatusBadGateway [Lit ''auth-service unavailable'']), s')
                | (Inr credential, s') \<Rightarrow>
                    (case Verify now r cred (ccSecretKey credential) maxClockSkew of
                       Some _ \<Rightarrow> (Inl (unauthorized ''signature verification failed''), s')
                     | None \<Rightarrow> (Inr \<lparr>pUserID = ccUserID credential, pAccessKey = cAccessKey cred\<rparr>, s'))))"

text \<open>
  The middleware is not installed in \<open>NewServer\<close>; without a principal in the context the handlers
  act for a fixed one.
\<close>

definition requirePrincipal :: "principal option \<Rightarrow> principal" where
  "requirePrincipal ctx =
     (case ctx of
        None \<Rightarrow> \<lparr>pUserID = ''local-test-user'', pAccessKey = ''local-test''\<rparr>
      | Some p \<Rightarrow> p)"

definition authorizeBucketOwner :: "'s server \<Rightarrow> string \<Rightarrow> principal \<Rightarrow> 's \<Rightarrow> response option \<times> 's" where
  "authorizeBucketOwner srv bucket p s =
     (case mc_get_bucket (sv_metadata srv) bucket s of
        (Inl err, s') \<Rightarrow> (Some (WriteUpstreamError err), s')
      | (Inr b, s') \<Rightarrow>
          if biOwnerID b \<noteq> pUserID p
          then (Some (WriteUpstreamError (ForbiddenError [Lit ''not the bucket owner''])), s')
          else (None, s'))"

definition if_owner ::
    "'s server \<Rightarrow> principal option \<Rightarrow> string \<Rightarrow> ('s \<Rightarrow> response \<times> 's) \<Rightarrow> 's \<Rightarrow> response \<times> 's" where
  "if_owner srv ctx bucket act s =
     (case authorizeBucketOwner srv bucket (requirePrincipal ctx) s of
        (Some resp, s') \<Rightarrow> (resp, s')
      | (None, s') \<Rightarrow> act s')"

section \<open>Buckets\<close>

definition handleListBuckets :: "'s server \<Rightarrow> principal option \<Rightarrow> 's \<Rightarrow> response \<times> 's" where
  "handleListBuckets srv ctx s =
     (case mc_list_buckets (sv_metadata srv) (pUserID (requirePrincipal ctx)) s of
        (Inl err, s') \<Rightarrow> (WriteUpstreamError err, s')
      | (Inr bs, s') \<Rightarrow> (write_json StatusOK (JArr (map bucket_info_json bs)), s'))"

definition handleCreateBucket :: "'s server \<Rightarrow> principal option \<Rightarrow> string \<Rightarrow> 's \<Rightarrow> response \<times> 's" where
  "handleCreateBucket srv ctx bucket s =
     (case mc_create_bucket (sv_metadata srv) bucket (pUserID (requirePrincipal ctx)) s of
        (Inl err, s') \<Rightarrow> (WriteUpstreamError err, s')
      | (Inr b, s') \<Rightarrow> (write_json StatusCreated (bucket_info_json b), s'))"

definition handleDeleteBucket :: "'s server \<Rightarrow> principal option \<Rightarrow> string \<Rightarrow> 's \<Rightarrow> response \<times> 's" where
  "handleDeleteBucket srv ctx bucket =
     if_owner srv ctx bucket (\<lambda>s.
       (case mc_delete_bucket (sv_metadata srv) bucket s of
          (Inl err, s') \<Rightarrow> (WriteUpstreamError err, s')
        | (Inr _, s') \<Rightarrow> (write_header StatusNoContent, s')))"

section \<open>Objects\<close>

definition handleListObjects :: "'s server \<Rightarrow> principal option \<Rightarrow> string \<Rightarrow> string \<Rightarrow> 's \<Rightarrow> response \<times> 's" where
  "handleListObjects srv ctx bucket pref =
     if_owner srv ctx bucket (\<lambda>s.
       (case mc_list_objects (sv_metadata srv) bucket pref s of
          (Inl err, s') \<Rightarrow> (WriteUpstreamError err, s')
        | (Inr obs, s') \<Rightarrow> (write_json StatusOK (JArr (map object_info_json obs)), s')))"

text \<open>\<open>http.MaxBytesReader\<close>: the bytes up to the limit, and an error if there are more.\<close>

definition maxUploadBytes :: nat where
  "maxUploadBytes = 5 * 2 ^ 30"

definition max_bytes :: "nat \<Rightarrow> upload \<Rightarrow> upload" where
  "max_bytes n r = (if n < length (u_data r) then \<lparr>u_data = take n (u_data r), u_error = Some EIO\<rparr> else r)"

definition handlePutObject ::
    "'s server \<Rightarrow> principal option \<Rightarrow> string \<Rightarrow> string \<Rightarrow> string \<Rightarrow> upload \<Rightarrow> 's \<Rightarrow> response \<times> 's" where
  "handlePutObject srv ctx bucket key contentType r =
     if_owner srv ctx bucket (\<lambda>s.
       (case dc_write (sv_data srv) bucket (max_bytes maxUploadBytes r) s of
          (Inl _, s1) \<Rightarrow> (WriteError StatusBadGateway [Lit ''failed to store object data''], s1)
        | (Inr (hash, sz), s1) \<Rightarrow>
            (let meta = \<lparr>oiKey = key, oiBucket = bucket, oiSizeBytes = sz, oiETag = [],
                         oiContentType = contentType, oiStorageRef = hash, oiCreatedAt = 0\<rparr>
             in case mc_put_object (sv_metadata srv) meta s1 of
                  (Inl err, s2) \<Rightarrow> (WriteUpstreamError err, snd (dc_delete (sv_data srv) bucket hash s2))
                | (Inr saved, s2) \<Rightarrow> (write_json StatusCreated (object_info_json saved), s2))))"

definition content_type_header :: "string \<Rightarrow> (string \<times> string) list" where
  "content_type_header ct = (if ct \<noteq> [] then [(''Content-Type'', ct)] else [])"

text \<open>The error of copying the stream is dropped, so a stream that breaks off ends the response early.\<close>

definition handleGetObject :: "'s server \<Rightarrow> principal option \<Rightarrow> string \<Rightarrow> string \<Rightarrow> 's \<Rightarrow> response \<times> 's" where
  "handleGetObject srv ctx bucket key =
     if_owner srv ctx bucket (\<lambda>s.
       (case mc_get_object (sv_metadata srv) bucket key s of
          (Inl err, s1) \<Rightarrow> (WriteUpstreamError err, s1)
        | (Inr meta, s1) \<Rightarrow>
            (case dc_read (sv_data srv) bucket (oiStorageRef meta) s1 of
               (Inl err, s2) \<Rightarrow> (WriteUpstreamError err, s2)
             | (Inr bs, s2) \<Rightarrow>
                 (\<lparr>status = StatusOK, headers = content_type_header (oiContentType meta), body = RawBody bs\<rparr>, s2))))"

text \<open>\<open>strconv.FormatInt(n, 10)\<close>.\<close>

function nat_text :: "nat \<Rightarrow> string" where
  "nat_text n = (if n < 10 then [char_of (48 + n)] else nat_text (n div 10) @ [char_of (48 + n mod 10)])"
  by pat_completeness auto
termination by (relation "measure id") auto

declare nat_text.simps [simp del]

definition int_text :: "int \<Rightarrow> string" where
  "int_text n = (if n < 0 then CHR ''-'' # nat_text (nat (- n)) else nat_text (nat n))"

definition handleHeadObject :: "'s server \<Rightarrow> principal option \<Rightarrow> string \<Rightarrow> string \<Rightarrow> 's \<Rightarrow> response \<times> 's" where
  "handleHeadObject srv ctx bucket key =
     if_owner srv ctx bucket (\<lambda>s.
       (case mc_get_object (sv_metadata srv) bucket key s of
          (Inl err, s') \<Rightarrow> (WriteUpstreamError err, s')
        | (Inr meta, s') \<Rightarrow>
            (\<lparr>status = StatusOK,
              headers = content_type_header (oiContentType meta)
                @ (if oiETag meta \<noteq> [] then [(''ETag'', oiETag meta)] else [])
                @ [(''Content-Length'', int_text (sint (oiSizeBytes meta)))],
              body = NoBody\<rparr>, s')))"

definition handleDeleteObject :: "'s server \<Rightarrow> principal option \<Rightarrow> string \<Rightarrow> string \<Rightarrow> 's \<Rightarrow> response \<times> 's" where
  "handleDeleteObject srv ctx bucket key =
     if_owner srv ctx bucket (\<lambda>s.
       (case mc_get_object (sv_metadata srv) bucket key s of
          (Inl err, s1) \<Rightarrow> (WriteUpstreamError err, s1)
        | (Inr meta, s1) \<Rightarrow>
            (case dc_delete (sv_data srv) bucket (oiStorageRef meta) s1 of
               (Inl _, s2) \<Rightarrow> (WriteError StatusBadGateway [Lit ''failed to delete object data''], s2)
             | (Inr _, s2) \<Rightarrow>
                 (case mc_delete_object (sv_metadata srv) bucket key s2 of
                    (Inl err, s3) \<Rightarrow> (WriteUpstreamError err, s3)
                  | (Inr _, s3) \<Rightarrow> (write_header StatusNoContent, s3)))))"

section \<open>Health\<close>

definition handleHealthz :: response where
  "handleHealthz = write_json StatusOK status_ok_json"

definition failure :: "string \<Rightarrow> client_error + unit \<Rightarrow> (string \<times> json) list" where
  "failure name res = (case res of Inl e \<Rightarrow> [(name, JMsg (client_error_text e))] | Inr _ \<Rightarrow> [])"

text \<open>
  The three pings run concurrently and touch nothing but their own call; here they are taken in a
  fixed order.  The members of the map of failures are written in the order of their names.
\<close>

definition handleHealthzReady :: "'s server \<Rightarrow> 's \<Rightarrow> response \<times> 's" where
  "handleHealthzReady srv s =
     (case mc_ping (sv_metadata srv) s of
        (m, s1) \<Rightarrow>
          (case dc_ping (sv_data srv) s1 of
             (d, s2) \<Rightarrow>
               (case ac_ping (sv_auth srv) s2 of
                  (a, s3) \<Rightarrow>
                    (let failures = failure ''auth'' a @ failure ''data'' d @ failure ''metadata'' m
                     in if failures \<noteq> [] then
                          (write_json StatusServiceUnavailable
                             (JObj [(''errors'', JObj failures), (''status'', JStr ''unavailable'')]), s3)
                        else (write_json StatusOK status_ok_json, s3)))))"

section \<open>Dispatch\<close>

text \<open>A request after routing, with the values the handler reads from it.\<close>

datatype api_request =
    AHealthz | AHealthzLive | AHealthzReady | AHealthzStartup
  | AListBuckets
  | ACreateBucket string
  | ADeleteBucket string
  | AListObjects string string
  | APutObject string string string upload
  | AGetObject string string
  | AHeadObject string string
  | ADeleteObject string string

fun api_serve :: "'s server \<Rightarrow> principal option \<Rightarrow> api_request \<Rightarrow> 's \<Rightarrow> response \<times> 's" where
  "api_serve srv ctx AHealthz s = (handleHealthz, s)"
| "api_serve srv ctx AHealthzLive s = (handleHealthz, s)"
| "api_serve srv ctx AHealthzReady s = handleHealthzReady srv s"
| "api_serve srv ctx AHealthzStartup s = handleHealthzReady srv s"
| "api_serve srv ctx AListBuckets s = handleListBuckets srv ctx s"
| "api_serve srv ctx (ACreateBucket b) s = handleCreateBucket srv ctx b s"
| "api_serve srv ctx (ADeleteBucket b) s = handleDeleteBucket srv ctx b s"
| "api_serve srv ctx (AListObjects b p) s = handleListObjects srv ctx b p s"
| "api_serve srv ctx (APutObject b k ct r) s = handlePutObject srv ctx b k ct r s"
| "api_serve srv ctx (AGetObject b k) s = handleGetObject srv ctx b k s"
| "api_serve srv ctx (AHeadObject b k) s = handleHeadObject srv ctx b k s"
| "api_serve srv ctx (ADeleteObject b k) s = handleDeleteObject srv ctx b k s"

end
