(* ===== verification/Api_System.thy ===== *)
theory Api_System
  imports Api_Handlers Meta_Spec
begin

text \<open>
  The services put together: the route tables of metadata-service and data-service
  (\<open>internal/api/router.go\<close> of each), the services as HTTP servers behind the clients of
  api-service, and the whole system as one state.
\<close>

section \<open>Routes of metadata-service\<close>

definition meta_routes :: "route list" where
  "meta_routes =
     [(''GET'', [Static ''/healthz'']), (''GET'', [Static ''/healthz/live'']),
      (''GET'', [Static ''/healthz/ready'']), (''GET'', [Static ''/healthz/startup'']),
      (''POST'', [Static ''/buckets'', Slash]),
      (''GET'', [Static ''/buckets'', Slash]),
      (''GET'', [Static ''/buckets/'', Param, Slash]),
      (''DELETE'', [Static ''/buckets/'', Param, Slash]),
      (''POST'', [Static ''/buckets/'', Param, Static ''/objects'', Slash]),
      (''GET'', [Static ''/buckets/'', Param, Static ''/objects'', Slash]),
      (''GET'', [Static ''/buckets/'', Param, Static ''/objects/'', Rest]),
      (''DELETE'', [Static ''/buckets/'', Param, Static ''/objects/'', Rest])]"

text \<open>The handler of each route with the values it reads.\<close>

definition meta_requests :: "string list \<Rightarrow> string \<Rightarrow> json option \<Rightarrow> meta_request list" where
  "meta_requests ps q bdy =
     [MHealthz, MHealthzLive, MHealthzReady, MHealthzStartup, MCreateBucket bdy,
      MListBuckets (query_get q ''owner_id''), MGetBucket (ps ! 0), MDeleteBucket (ps ! 0),
      MPutObject (ps ! 0) bdy, MListObjects (ps ! 0) (query_get q ''prefix'') (query_get q ''limit''),
      MGetObject (ps ! 0) (ps ! 1), MDeleteObject (ps ! 0) (ps ! 1)]"

definition meta_http :: "chi \<Rightarrow> 'd bolt \<Rightarrow> env \<Rightarrow> http_call \<Rightarrow> 'd \<Rightarrow> response \<times> 'd" where
  "meta_http chi B e c d =
     (if \<not> wire_query_ok (hc_url c) then (write_header StatusBadRequest, d)
      else case chi meta_routes (hc_method c) (route_path (hc_url c)) of
        Inl st \<Rightarrow> (write_header st, d)
      | Inr (i, ps) \<Rightarrow> meta_serve B e (meta_requests ps (u_query (hc_url c)) (req_json (hc_body c)) ! i) d)"

section \<open>Routes of data-service\<close>

definition data_routes :: "route list" where
  "data_routes =
     [(''GET'', [Static ''/healthz'']), (''GET'', [Static ''/healthz/live'']),
      (''GET'', [Static ''/healthz/ready'']), (''GET'', [Static ''/healthz/startup'']),
      (''GET'', [Static ''/namespaces/'', Param, Static ''/objects/'', Param]),
      (''DELETE'', [Static ''/namespaces/'', Param, Static ''/objects/'', Param]),
      (''POST'', [Static ''/namespaces/'', Param, Static ''/objects''])]"

fun req_stream :: "req_body \<Rightarrow> upload" where
  "req_stream (StreamReq r) = r"
| "req_stream _ = \<lparr>u_data = [], u_error = None\<rparr>"

definition data_requests :: "string list \<Rightarrow> req_body \<Rightarrow> data_request list" where
  "data_requests ps bdy =
     [DHealthz, DHealthzLive, DHealthzReady, DHealthzStartup, DDownload (ps ! 0) (ps ! 1),
      DDelete (ps ! 0) (ps ! 1), DUpload (ps ! 0) (req_stream bdy)]"

definition data_http :: "chi \<Rightarrow> path \<Rightarrow> data_env \<Rightarrow> http_call \<Rightarrow> fsys \<Rightarrow> response \<times> fsys" where
  "data_http chi base e c fs =
     (if \<not> wire_query_ok (hc_url c) then (write_header StatusBadRequest, fs)
      else case chi data_routes (hc_method c) (route_path (hc_url c)) of
        Inl st \<Rightarrow> (write_header st, fs)
      | Inr (i, ps) \<Rightarrow> data_serve base e (data_requests ps (hc_body c) ! i) fs)"

section \<open>Routes of api-service\<close>

definition api_routes :: "route list" where
  "api_routes =
     [(''GET'', [Static ''/healthz'']), (''GET'', [Static ''/healthz/live'']),
      (''GET'', [Static ''/healthz/ready'']), (''GET'', [Static ''/healthz/startup'']),
      (''GET'', [Static ''/'']),
      (''PUT'', [Static ''/buckets/'', Param]), (''DELETE'', [Static ''/buckets/'', Param]),
      (''GET'', [Static ''/buckets/'', Param]),
      (''PUT'', [Static ''/buckets/'', Param, Static ''/objects/'', Rest]),
      (''GET'', [Static ''/buckets/'', Param, Static ''/objects/'', Rest]),
      (''HEAD'', [Static ''/buckets/'', Param, Static ''/objects/'', Rest]),
      (''DELETE'', [Static ''/buckets/'', Param, Static ''/objects/'', Rest])]"

definition api_requests :: "string list \<Rightarrow> string \<Rightarrow> header \<Rightarrow> req_body \<Rightarrow> api_request list" where
  "api_requests ps q h bdy =
     [AHealthz, AHealthzLive, AHealthzReady, AHealthzStartup, AListBuckets,
      ACreateBucket (ps ! 0), ADeleteBucket (ps ! 0), AListObjects (ps ! 0) (query_get q ''prefix''),
      APutObject (ps ! 0) (ps ! 1) (header_get h ''Content-Type'') (req_stream bdy),
      AGetObject (ps ! 0) (ps ! 1), AHeadObject (ps ! 0) (ps ! 1), ADeleteObject (ps ! 0) (ps ! 1)]"

text \<open>The context of a request is what the middleware leaves in it: nothing, as \<open>NewServer\<close> is written.\<close>

definition api_http ::
    "chi \<Rightarrow> 's server \<Rightarrow> principal option \<Rightarrow> http_call \<Rightarrow> 's \<Rightarrow> response \<times> 's" where
  "api_http chi srv ctx c s =
     (if \<not> wire_query_ok (hc_url c) then (write_header StatusBadRequest, s)
      else case chi api_routes (hc_method c) (route_path (hc_url c)) of
        Inl st \<Rightarrow> (write_header st, s)
      | Inr (i, ps) \<Rightarrow>
          api_serve srv ctx (api_requests ps (u_query (hc_url c)) (hc_header c) (hc_body c) ! i) s)"

section \<open>The system\<close>

text \<open>
  The state of both services and the number of calls made so far; the environment gives each call
  what the network does to it and what the called service reads of its surroundings.
\<close>

record 'd system =
  sys_meta :: 'd
  sys_fs :: fsys
  sys_calls :: nat

record net =
  nt_fault :: "nat \<Rightarrow> fault"
  nt_meta :: "nat \<Rightarrow> env"
  nt_data :: "nat \<Rightarrow> data_env"

definition at_meta :: "chi \<Rightarrow> 'd bolt \<Rightarrow> env \<Rightarrow> http_call \<Rightarrow> 'd system \<Rightarrow> response \<times> 'd system" where
  "at_meta chi B e c s = (case meta_http chi B e c (sys_meta s) of (r, d) \<Rightarrow> (r, s\<lparr>sys_meta := d\<rparr>))"

definition at_data :: "chi \<Rightarrow> path \<Rightarrow> data_env \<Rightarrow> http_call \<Rightarrow> 'd system \<Rightarrow> response \<times> 'd system" where
  "at_data chi base e c s = (case data_http chi base e c (sys_fs s) of (r, fs) \<Rightarrow> (r, s\<lparr>sys_fs := fs\<rparr>))"

definition counted :: "'d system \<Rightarrow> 'd system" where
  "counted s = s\<lparr>sys_calls := Suc (sys_calls s)\<rparr>"

definition meta_transport :: "chi \<Rightarrow> 'd bolt \<Rightarrow> net \<Rightarrow> 'd system transport" where
  "meta_transport chi B net c s =
     exchange (nt_fault net (sys_calls s)) (at_meta chi B (nt_meta net (sys_calls s)) c) (counted s)"

definition data_transport :: "chi \<Rightarrow> path \<Rightarrow> net \<Rightarrow> 'd system transport" where
  "data_transport chi base net c s =
     exchange (nt_fault net (sys_calls s)) (at_data chi base (nt_data net (sys_calls s)) c) (counted s)"

text \<open>The server of \<open>cmd/server/main.go\<close>, with its clients; the auth client is left open.\<close>

definition api_server :: "chi \<Rightarrow> 'd bolt \<Rightarrow> path \<Rightarrow> net \<Rightarrow> 'd system auth_client \<Rightarrow> 'd system server" where
  "api_server chi B base net auth =
     \<lparr>sv_metadata = HTTPMetadataClient (meta_transport chi B net),
      sv_data = HTTPDataClient (data_transport chi base net), sv_auth = auth\<rparr>"

lemma api_server_sel [simp]:
  "sv_metadata (api_server chi B base net auth) = HTTPMetadataClient (meta_transport chi B net)"
  "sv_data (api_server chi B base net auth) = HTTPDataClient (data_transport chi base net)"
  "sv_auth (api_server chi B base net auth) = auth"
  by (simp_all add: api_server_def)

lemma counted_sel [simp]: "sys_meta (counted s) = sys_meta s" "sys_fs (counted s) = sys_fs s"
  "sys_calls (counted s) = Suc (sys_calls s)"
  by (simp_all add: counted_def)

section \<open>Which route is taken\<close>

text \<open>A name that is one segment of a path and needs no encoding.\<close>

definition segment :: "string \<Rightarrow> bool" where
  "segment b \<longleftrightarrow> b \<noteq> [] \<and> CHR ''/'' \<notin> set b \<and> url_safe b"

lemma segmentD: "segment b \<Longrightarrow> b \<noteq> []" "segment b \<Longrightarrow> CHR ''/'' \<notin> set b" "segment b \<Longrightarrow> url_safe b"
  by (simp_all add: segment_def)

lemmas segment_pat = takeWhile_no_slash[OF segmentD(2)] takeWhile_no_slash_end[OF segmentD(2)]

lemma no_slash_slash [simp]: "\<not> no_slash CHR ''/''"
  by (simp add: no_slash_def)

lemmas routes_simps = meta_routes_def data_routes_def segment_pat

context chi_router
begin

lemma meta_route_buckets:
  "chi meta_routes ''POST'' ''/buckets'' = Inr (4, [])" "chi meta_routes ''GET'' ''/buckets'' = Inr (5, [])"
  by (rule chi_hit; simp add: routes_simps)+

lemma meta_route_bucket:
  assumes "segment b"
  shows "chi meta_routes ''GET'' (''/buckets/'' @ b) = Inr (6, [b])"
    "chi meta_routes ''DELETE'' (''/buckets/'' @ b) = Inr (7, [b])"
  using segmentD[OF assms] assms by (auto intro!: chi_hit simp: routes_simps)

lemma meta_route_objects:
  assumes "segment b"
  shows "chi meta_routes ''POST'' (''/buckets/'' @ b @ ''/objects'') = Inr (8, [b])"
    "chi meta_routes ''GET'' (''/buckets/'' @ b @ ''/objects'') = Inr (9, [b])"
  using segmentD[OF assms] assms by (auto intro!: chi_hit simp: routes_simps)

lemma meta_route_object:
  assumes "segment b" and "k \<noteq> []"
  shows "chi meta_routes ''GET'' (''/buckets/'' @ b @ ''/objects/'' @ k) = Inr (10, [b, k])"
    "chi meta_routes ''DELETE'' (''/buckets/'' @ b @ ''/objects/'' @ k) = Inr (11, [b, k])"
  using segmentD[OF assms(1)] assms by (auto intro!: chi_hit simp: routes_simps)

text \<open>Whatever follows, a path of this form reaches nothing but the objects of the bucket.\<close>

lemma meta_route_below:
  assumes "segment b" and "chi meta_routes m (''/buckets/'' @ b @ ''/objects/'' @ k) = Inr (i, ps)"
  shows "(m = ''POST'' \<and> i = 8 \<or> m = ''GET'' \<and> i = 9) \<and> k = [] \<and> ps = [b]
    \<or> m = ''GET'' \<and> i = 10 \<and> ps = [b, k] \<or> m = ''DELETE'' \<and> i = 11 \<and> ps = [b, k]"
  using chi_sound[OF assms(2)] segmentD[OF assms(1)] assms(1)
  by (auto simp: routes_simps split: if_splits)

lemma data_route:
  assumes "segment ns"
  shows "chi data_routes ''POST'' (''/namespaces/'' @ ns @ ''/objects'') = Inr (6, [ns])"
  using segmentD[OF assms] assms by (auto intro!: chi_hit simp: routes_simps)

lemma data_route_blob:
  assumes "segment ns" and "segment h"
  shows "chi data_routes ''GET'' (''/namespaces/'' @ ns @ ''/objects/'' @ h) = Inr (4, [ns, h])"
    "chi data_routes ''DELETE'' (''/namespaces/'' @ ns @ ''/objects/'' @ h) = Inr (5, [ns, h])"
  using segmentD[OF assms(1)] segmentD[OF assms(2)] assms by (auto intro!: chi_hit simp: routes_simps)

lemma data_route_below:
  assumes "segment ns" and "chi data_routes m (''/namespaces/'' @ ns @ ''/objects/'' @ h) = Inr (i, ps)"
  shows "CHR ''/'' \<notin> set h \<and> ps = [ns, h] \<and> (m = ''GET'' \<and> i = 4 \<or> m = ''DELETE'' \<and> i = 5)"
  using chi_sound[OF assms(2)] segmentD[OF assms(1)] assms(1)
  by (auto simp: routes_simps split: if_splits dest: set_takeWhileD)

end

end
