(* ===== verification/Api_Contract.thy ===== *)
theory Api_Contract
  imports Api_System
begin

text \<open>
  What api-service relies on from its upstream clients: a view of the system (who owns which bucket,
  the object records, the blobs) and what each call does to it, also when the call fails or its
  reply is lost.  The handlers are proved against this contract; \<open>calm\<close> says that no fault lies
  ahead.
\<close>

section \<open>The view\<close>

record api_view =
  vw_owner :: "string \<Rightarrow> string option"
  vw_object :: "string \<Rightarrow> string \<Rightarrow> object_info option"
  vw_blob :: "string \<Rightarrow> string \<Rightarrow> bytes option"

definition set_owner :: "string \<Rightarrow> string option \<Rightarrow> api_view \<Rightarrow> api_view" where
  "set_owner b x v = v\<lparr>vw_owner := (vw_owner v)(b := x)\<rparr>"

definition set_object :: "string \<Rightarrow> string \<Rightarrow> object_info option \<Rightarrow> api_view \<Rightarrow> api_view" where
  "set_object b k x v = v\<lparr>vw_object := (vw_object v)(b := (vw_object v b)(k := x))\<rparr>"

definition set_blob :: "string \<Rightarrow> string \<Rightarrow> bytes option \<Rightarrow> api_view \<Rightarrow> api_view" where
  "set_blob b h x v = v\<lparr>vw_blob := (vw_blob v)(b := (vw_blob v b)(h := x))\<rparr>"

lemma set_view_sel [simp]:
  "vw_owner (set_owner b x v) = (vw_owner v)(b := x)" "vw_object (set_owner b x v) = vw_object v"
  "vw_blob (set_owner b x v) = vw_blob v"
  "vw_owner (set_object b k y v) = vw_owner v" "vw_blob (set_object b k y v) = vw_blob v"
  "vw_object (set_object b k y v) = (vw_object v)(b := (vw_object v b)(k := y))"
  "vw_owner (set_blob b h z v) = vw_owner v" "vw_object (set_blob b h z v) = vw_object v"
  "vw_blob (set_blob b h z v) = (vw_blob v)(b := (vw_blob v b)(h := z))"
  by (simp_all add: set_owner_def set_object_def set_blob_def)

text \<open>The two views agree on every bucket but one.\<close>

definition only_bucket :: "string \<Rightarrow> api_view \<Rightarrow> api_view \<Rightarrow> bool" where
  "only_bucket b v v' \<longleftrightarrow>
     (\<forall>c. c \<noteq> b \<longrightarrow> vw_owner v' c = vw_owner v c \<and> vw_object v' c = vw_object v c \<and> vw_blob v' c = vw_blob v c)"

lemma only_bucket_refl [simp]: "only_bucket b v v"
  by (simp add: only_bucket_def)

lemma only_bucket_set [simp]:
  "only_bucket b v (set_owner b x w) = only_bucket b v w" "only_bucket b v (set_object b k y w) = only_bucket b v w"
  "only_bucket b v (set_blob b h z w) = only_bucket b v w"
  by (auto simp: only_bucket_def)

text \<open>How an object record is stored: JSON makes its strings valid UTF-8.\<close>

definition stored_as :: "object_info \<Rightarrow> object_info \<Rightarrow> bool" where
  "stored_as ob m \<longleftrightarrow> oiKey m = utf8_fix (oiKey ob) \<and> oiBucket m = oiBucket ob
     \<and> oiSizeBytes m = oiSizeBytes ob \<and> oiETag m = utf8_fix (oiETag ob)
     \<and> oiContentType m = utf8_fix (oiContentType ob) \<and> oiStorageRef m = utf8_fix (oiStorageRef ob)"

definition object_param :: "string \<Rightarrow> bool" where
  "object_param k \<longleftrightarrow> k \<noteq> [] \<and> url_safe k \<and> valid_utf8 k"

section \<open>The contract\<close>

locale upstream_contract =
  fixes M :: "'s metadata_client" and D :: "'s data_client"
    and inv :: "'s \<Rightarrow> bool" and view :: "'s \<Rightarrow> api_view" and calm :: "'s \<Rightarrow> bool"
  assumes get_bucket: "inv s \<Longrightarrow> segment b \<Longrightarrow> mc_get_bucket M b s = (found, s') \<Longrightarrow>
      inv s' \<and> view s' = view s \<and> (\<forall>i. found = Inr i \<longrightarrow> vw_owner (view s) b = Some (biOwnerID i))"
    and delete_bucket: "inv s \<Longrightarrow> segment b \<Longrightarrow> mc_delete_bucket M b s = (res, s') \<Longrightarrow>
      inv s' \<and> (view s' = view s \<and> res \<noteq> Inr ()
        \<or> view s' = set_owner b None (view s) \<and> (\<forall>k. vw_object (view s) b k = None))"
    and list_objects: "inv s \<Longrightarrow> segment b \<Longrightarrow> mc_list_objects M b p s = (obs, s') \<Longrightarrow>
      inv s' \<and> view s' = view s"
    and put_object: "inv s \<Longrightarrow> segment (oiBucket ob) \<Longrightarrow> mc_put_object M ob s = (saved, s') \<Longrightarrow>
      inv s' \<and> (view s' = view s \<and> (\<forall>m. saved \<noteq> Inr m)
        \<or> (\<exists>m. stored_as ob m \<and> view s' = set_object (oiBucket ob) (oiKey m) (Some m) (view s)
             \<and> (\<forall>m'. saved = Inr m' \<longrightarrow> m' = m)))"
    and get_object: "inv s \<Longrightarrow> segment b \<Longrightarrow> mc_get_object M b k s = (got, s') \<Longrightarrow>
      inv s' \<and> view s' = view s \<and> (\<forall>m. got = Inr m \<longrightarrow> object_param k \<longrightarrow> vw_object (view s) b k = Some m)"
    and delete_object: "inv s \<Longrightarrow> segment b \<Longrightarrow> mc_delete_object M b k s = (res, s') \<Longrightarrow>
      inv s' \<and> (view s' = view s \<and> res \<noteq> Inr ()
        \<or> (\<exists>k'. view s' = set_object b k' None (view s) \<and> (object_param k \<longrightarrow> k' = k)))"
    and dwrite: "inv s \<Longrightarrow> segment b \<Longrightarrow> plain b \<Longrightarrow> dc_write D b r s = (ref, s') \<Longrightarrow>
      inv s' \<and> (view s' = view s \<and> (\<forall>x. ref \<noteq> Inr x)
        \<or> view s' = set_blob b (sha256_hex (u_data r)) (Some (u_data r)) (view s) \<and> u_error r = None
           \<and> (\<forall>h n. ref = Inr (h, n) \<longrightarrow> h = sha256_hex (u_data r) \<and> n = word_of_int (int (length (u_data r)))))"
    and dread: "inv s \<Longrightarrow> segment b \<Longrightarrow> plain b \<Longrightarrow> dc_read D b h s = (bs, s') \<Longrightarrow>
      inv s' \<and> view s' = view s
      \<and> (\<forall>x. bs = Inr x \<longrightarrow> good_hash h \<longrightarrow> (case vw_blob (view s) b h of Some d \<Rightarrow> prefix x d | None \<Rightarrow> x = []))"
    and dremove: "inv s \<Longrightarrow> segment b \<Longrightarrow> plain b \<Longrightarrow> dc_delete D b h s = (res, s') \<Longrightarrow>
      inv s' \<and> (view s' = view s \<and> res \<noteq> Inr ()
        \<or> (\<exists>h'. view s' = set_blob b h' None (view s) \<and> (good_hash h \<longrightarrow> h' = h)))"
    and names: "inv s \<Longrightarrow> vw_owner (view s) b \<noteq> None \<Longrightarrow> segment b \<and> plain b \<and> valid_utf8 b"
    and blob_names: "inv s \<Longrightarrow> vw_blob (view s) b h = Some d \<Longrightarrow> h = sha256_hex d"
    and calm_get_bucket: "inv s \<Longrightarrow> calm s \<Longrightarrow> vw_owner (view s) b = Some u \<Longrightarrow>
      mc_get_bucket M b s = (found, s') \<Longrightarrow> calm s' \<and> (\<exists>i. found = Inr i)"
    and calm_get_object: "inv s \<Longrightarrow> calm s \<Longrightarrow> segment b \<Longrightarrow> object_param k \<Longrightarrow> vw_object (view s) b k = Some m \<Longrightarrow>
      mc_get_object M b k s = (got, s') \<Longrightarrow> calm s' \<and> got = Inr m"
    and calm_read: "inv s \<Longrightarrow> calm s \<Longrightarrow> segment b \<Longrightarrow> plain b \<Longrightarrow> vw_blob (view s) b h = Some d \<Longrightarrow>
      dc_read D b h s = (bs, s') \<Longrightarrow> calm s' \<and> bs = Inr d"
    and calm_write: "calm s \<Longrightarrow> dc_write D b r s = (ref, s') \<Longrightarrow> calm s'"
    and calm_put_object: "calm s \<Longrightarrow> mc_put_object M ob s = (saved, s') \<Longrightarrow> calm s'"
    and calm_remove: "inv s \<Longrightarrow> calm s \<Longrightarrow> segment b \<Longrightarrow> plain b \<Longrightarrow> vw_blob (view s) b h = Some d \<Longrightarrow>
      dc_delete D b h s = (res, s') \<Longrightarrow> res = Inr ()"

text \<open>A handler's server is any that has these two clients.\<close>

definition has_clients :: "'s server \<Rightarrow> 's metadata_client \<Rightarrow> 's data_client \<Rightarrow> bool" where
  "has_clients srv M D \<longleftrightarrow> sv_metadata srv = M \<and> sv_data srv = D"

section \<open>The handlers under the contract\<close>

context upstream_contract
begin

lemma WriteUpstreamError_status: "400 \<le> status (WriteUpstreamError e)"
  by (cases e) (simp_all add: WriteError_def)

lemma WriteUpstreamError_not_ok [simp]:
  "status (WriteUpstreamError e) \<noteq> StatusOK" "status (WriteUpstreamError e) \<noteq> StatusCreated"
  "status (WriteUpstreamError e) \<noteq> StatusNoContent"
  using WriteUpstreamError_status[of e] by auto

text \<open>Nobody but the owner gets past the ownership check.\<close>

lemma authorize_bucket:
  assumes "inv s" and "segment b" and "has_clients srv M D"
    and "authorizeBucketOwner srv b p s = (r, s')"
  shows "inv s' \<and> view s' = view s
    \<and> (r = None \<longrightarrow> vw_owner (view s) b = Some (pUserID p))
    \<and> (\<forall>resp. r = Some resp \<longrightarrow> 400 \<le> status resp)"
  using assms(3,4) get_bucket[OF assms(1,2)] WriteUpstreamError_status
  by (auto simp: authorizeBucketOwner_def has_clients_def WriteError_def split: prod.splits sum.splits if_splits)

lemma if_owner_cases:
  assumes "inv s" and "segment b" and "has_clients srv M D"
    and "if_owner srv ctx b act s = (resp, s')"
  obtains (refused) "inv s'" "view s' = view s" "400 \<le> status resp"
    | (allowed) s0 where "inv s0" "view s0 = view s" "act s0 = (resp, s')"
        "vw_owner (view s) b = Some (pUserID (requirePrincipal ctx))" "plain b"
proof -
  obtain r s0 where a: "authorizeBucketOwner srv b (requirePrincipal ctx) s = (r, s0)" by fastforce
  from authorize_bucket[OF assms(1-3) a] have v: "inv s0" "view s0 = view s"
    "r = None \<longrightarrow> vw_owner (view s) b = Some (pUserID (requirePrincipal ctx))"
    "\<forall>resp. r = Some resp \<longrightarrow> 400 \<le> status resp" by auto
  show ?thesis
  proof (cases r)
    case None
    with v a assms(4) names[OF assms(1), of b] show ?thesis by (auto simp: if_owner_def intro: allowed)
  next
    case (Some x)
    with v a assms(4) show ?thesis by (auto simp: if_owner_def intro: refused)
  qed
qed

text \<open>
  A handler for one bucket: whoever is not the owner changes nothing and is told so, the owner
  changes that bucket only.
\<close>

definition guarded :: "principal option \<Rightarrow> string \<Rightarrow> 's \<Rightarrow> response \<Rightarrow> 's \<Rightarrow> bool" where
  "guarded ctx b s resp s' \<longleftrightarrow> inv s' \<and> only_bucket b (view s) (view s')
     \<and> (vw_owner (view s) b \<noteq> Some (pUserID (requirePrincipal ctx)) \<longrightarrow> view s' = view s \<and> 400 \<le> status resp)"

lemma if_owner_guarded:
  assumes "inv s" and "segment b" and "has_clients srv M D"
    and "if_owner srv ctx b act s = (resp, s')"
    and "\<And>s0. inv s0 \<Longrightarrow> plain b \<Longrightarrow> act s0 = (resp, s') \<Longrightarrow> inv s' \<and> only_bucket b (view s0) (view s')"
  shows "guarded ctx b s resp s'"
  using assms(1-4)
proof (cases rule: if_owner_cases)
  case refused
  then show ?thesis by (simp add: guarded_def)
next
  case (allowed s0)
  with assms(5)[of s0] show ?thesis by (simp add: guarded_def)
qed

lemma delete_bucket_guarded:
  assumes "inv s" and "segment b" and "has_clients srv M D"
    and "handleDeleteBucket srv ctx b s = (resp, s')"
  shows "guarded ctx b s resp s'"
  using assms(1-3) assms(4)[unfolded handleDeleteBucket_def]
proof (rule if_owner_guarded, goal_cases)
  case (1 s0)
  with assms(3) show ?case using delete_bucket[OF 1(1) assms(2)]
    by (auto simp: has_clients_def split: prod.splits sum.splits)
qed

lemma list_objects_guarded:
  assumes "inv s" and "segment b" and "has_clients srv M D"
    and "handleListObjects srv ctx b p s = (resp, s')"
  shows "guarded ctx b s resp s'"
  using assms(1-3) assms(4)[unfolded handleListObjects_def]
proof (rule if_owner_guarded, goal_cases)
  case (1 s0)
  with assms(3) show ?case using list_objects[OF 1(1) assms(2)]
    by (auto simp: has_clients_def split: prod.splits sum.splits)
qed

lemma get_object_guarded:
  assumes "inv s" and "segment b" and "has_clients srv M D"
    and "handleGetObject srv ctx b k s = (resp, s')"
  shows "guarded ctx b s resp s'"
  using assms(1-3) assms(4)[unfolded handleGetObject_def]
proof (rule if_owner_guarded, goal_cases)
  case (1 s0)
  obtain got s1 where g: "mc_get_object M b k s0 = (got, s1)" by fastforce
  from get_object[OF 1(1) assms(2) g] have v: "inv s1" "view s1 = view s0" by auto
  with 1 g assms(3) show ?case using dread[OF v(1) assms(2) 1(2)]
    by (auto simp: has_clients_def split: prod.splits sum.splits)
qed

lemma head_object_guarded:
  assumes "inv s" and "segment b" and "has_clients srv M D"
    and "handleHeadObject srv ctx b k s = (resp, s')"
  shows "guarded ctx b s resp s'"
  using assms(1-3) assms(4)[unfolded handleHeadObject_def]
proof (rule if_owner_guarded, goal_cases)
  case (1 s0)
  with assms(3) show ?case using get_object[OF 1(1) assms(2)]
    by (auto simp: has_clients_def split: prod.splits sum.splits)
qed

lemma put_object_guarded:
  assumes "inv s" and "segment b" and "has_clients srv M D"
    and "handlePutObject srv ctx b k ct r s = (resp, s')"
  shows "guarded ctx b s resp s'"
  using assms(1-3) assms(4)[unfolded handlePutObject_def]
proof (rule if_owner_guarded, goal_cases)
  case (1 s0)
  obtain ref s1 where w: "dc_write D b (max_bytes maxUploadBytes r) s0 = (ref, s1)" by fastforce
  from dwrite[OF 1(1) assms(2) 1(2) w] have v: "inv s1" "only_bucket b (view s0) (view s1)" by auto
  show ?case
  proof (cases ref)
    case (Inl e)
    with 1(3) w v assms(3) show ?thesis by (auto simp: has_clients_def)
  next
    case (Inr x)
    define ob where "ob = \<lparr>oiKey = k, oiBucket = b, oiSizeBytes = snd x, oiETag = [], oiContentType = ct,
      oiStorageRef = fst x, oiCreatedAt = 0\<rparr>"
    obtain saved s2 where p: "mc_put_object M ob s1 = (saved, s2)" by fastforce
    from put_object[OF v(1) _ p] assms(2) v(2) have u: "inv s2" "only_bucket b (view s0) (view s2)"
      by (auto simp: ob_def)
    obtain gone s3 where g: "dc_delete D b (fst x) s2 = (gone, s3)" by fastforce
    from dremove[OF u(1) assms(2) 1(2) g] u(2) have "inv s3" "only_bucket b (view s0) (view s3)" by auto
    with 1(3) w p g u Inr assms(3) show ?thesis
      by (auto simp: has_clients_def ob_def split: prod.splits sum.splits)
  qed
qed

lemma delete_object_guarded:
  assumes "inv s" and "segment b" and "has_clients srv M D"
    and "handleDeleteObject srv ctx b k s = (resp, s')"
  shows "guarded ctx b s resp s'"
  using assms(1-3) assms(4)[unfolded handleDeleteObject_def]
proof (rule if_owner_guarded, goal_cases)
  case (1 s0)
  obtain got s1 where g: "mc_get_object M b k s0 = (got, s1)" by fastforce
  from get_object[OF 1(1) assms(2) g] have v: "inv s1" "view s1 = view s0" by auto
  show ?case
  proof (cases got)
    case (Inl e)
    with 1(3) g v assms(3) show ?thesis by (auto simp: has_clients_def)
  next
    case (Inr m)
    obtain gone s2 where d: "dc_delete D b (oiStorageRef m) s1 = (gone, s2)" by fastforce
    from dremove[OF v(1) assms(2) 1(2) d] v(2) have u: "inv s2" "only_bucket b (view s0) (view s2)" by auto
    obtain res s3 where x: "mc_delete_object M b k s2 = (res, s3)" by fastforce
    from delete_object[OF u(1) assms(2) x] u(2) have "inv s3" "only_bucket b (view s0) (view s3)" by auto
    with 1(3) g d x u Inr assms(3) show ?thesis
      by (auto simp: has_clients_def split: prod.splits sum.splits)
  qed
qed

end

text \<open>The bucket a request is about; the requests that only list or create have none.\<close>

fun request_bucket :: "api_request \<Rightarrow> string option" where
  "request_bucket (ADeleteBucket b) = Some b"
| "request_bucket (AListObjects b p) = Some b"
| "request_bucket (APutObject b k ct r) = Some b"
| "request_bucket (AGetObject b k) = Some b"
| "request_bucket (AHeadObject b k) = Some b"
| "request_bucket (ADeleteObject b k) = Some b"
| "request_bucket _ = None"

context upstream_contract
begin

lemma serve_guarded:
  assumes "inv s" and "segment b" and "has_clients srv M D" and "request_bucket r = Some b"
    and "api_serve srv ctx r s = (resp, s')"
  shows "guarded ctx b s resp s'"
  using assms(4,5) delete_bucket_guarded[OF assms(1-3)] list_objects_guarded[OF assms(1-3)]
    put_object_guarded[OF assms(1-3)] get_object_guarded[OF assms(1-3)] head_object_guarded[OF assms(1-3)]
    delete_object_guarded[OF assms(1-3)]
  by (cases r) auto

text \<open>What an upload answered 201 has done.\<close>

lemma put_object_created:
  assumes "inv s" and "segment b" and "has_clients srv M D"
    and "handlePutObject srv ctx b k ct r s = (resp, s')" and "status resp = StatusCreated"
  obtains m where "inv s'" "u_error r = None" "length (u_data r) \<le> maxUploadBytes"
    "oiKey m = utf8_fix k" "oiBucket m = b" "oiSizeBytes m = word_of_int (int (length (u_data r)))"
    "oiContentType m = utf8_fix ct" "oiStorageRef m = sha256_hex (u_data r)"
    "view s' = set_object b (utf8_fix k) (Some m) (set_blob b (sha256_hex (u_data r)) (Some (u_data r)) (view s))"
    "resp = write_json StatusCreated (object_info_json m)"
    "vw_owner (view s) b = Some (pUserID (requirePrincipal ctx))" "plain b"
proof -
  from assms(1-3) assms(4)[unfolded handlePutObject_def] show ?thesis
  proof (cases rule: if_owner_cases)
    case refused
    with assms(5) show ?thesis by simp
  next
    case (allowed s0)
    let ?r = "max_bytes maxUploadBytes r"
    obtain ref s1 where w: "dc_write D b ?r s0 = (ref, s1)" by fastforce
    with allowed(3) assms(3,5) obtain h n where ref: "ref = Inr (h, n)"
      by (cases ref) (auto simp: has_clients_def WriteError_def)
    from dwrite[OF allowed(1) assms(2) allowed(5) w] ref
    have v: "inv s1" "view s1 = set_blob b h (Some (u_data ?r)) (view s0)" "u_error ?r = None"
      "h = sha256_hex (u_data ?r)" "n = word_of_int (int (length (u_data ?r)))" by auto
    from v(3) have r: "?r = r" "length (u_data r) \<le> maxUploadBytes" "u_error r = None"
      by (auto simp: max_bytes_def split: if_splits)
    define ob where "ob = \<lparr>oiKey = k, oiBucket = b, oiSizeBytes = n, oiETag = [], oiContentType = ct,
      oiStorageRef = h, oiCreatedAt = 0\<rparr>"
    obtain saved s2 where p: "mc_put_object M ob s1 = (saved, s2)" by fastforce
    have "\<exists>m. saved = Inr m \<and> s' = s2 \<and> resp = write_json StatusCreated (object_info_json m)"
      using allowed(3) w ref p assms(3,5)
      by (cases saved) (auto simp: has_clients_def ob_def)
    then obtain m where m: "saved = Inr m" "s' = s2" "resp = write_json StatusCreated (object_info_json m)"
      by blast
    from put_object[OF v(1) _ p] assms(2) m(1) have st: "inv s2" "stored_as ob m"
      "view s2 = set_object b (oiKey m) (Some m) (view s1)" by (auto simp: ob_def)
    have "valid_utf8 h" unfolding v(4)
      by (rule valid_utf8_ascii) (auto dest!: sha256_hex_chars simp: hex_char_def byte_in_def)
    with st m v r allowed show ?thesis
      by (intro that[of m]) (auto simp: stored_as_def ob_def)
  qed
qed

lemma put_object_stored:
  assumes "inv s" and "segment b" and "has_clients srv M D" and "object_param k"
    and "handlePutObject srv ctx b k ct r s = (resp, s')" and "status resp = StatusCreated"
  shows "\<exists>m. inv s' \<and> oiStorageRef m = sha256_hex (u_data r) \<and> oiContentType m = utf8_fix ct
    \<and> view s' = set_object b k (Some m) (set_blob b (sha256_hex (u_data r)) (Some (u_data r)) (view s))
    \<and> length (u_data r) \<le> maxUploadBytes \<and> plain b
    \<and> vw_owner (view s) b = Some (pUserID (requirePrincipal ctx))"
  using put_object_created[OF assms(1-3,5,6)]
proof cases
  case (1 m)
  with assms(4) show ?thesis by (intro exI[of _ m]) (simp add: object_param_def)
qed

text \<open>A download when nothing fails.\<close>

lemma get_object_calm:
  assumes "inv s" and "calm s" and "has_clients srv M D" and "object_param k"
    and "vw_owner (view s) b = Some (pUserID (requirePrincipal ctx))"
    and "vw_object (view s) b k = Some m" and "vw_blob (view s) b (oiStorageRef m) = Some d"
  shows "\<exists>s'. handleGetObject srv ctx b k s =
    (\<lparr>status = StatusOK, headers = content_type_header (oiContentType m), body = RawBody d\<rparr>, s')"
proof -
  from names[OF assms(1)] assms(5) have n: "segment b" "plain b" by auto
  obtain found s0 where f: "mc_get_bucket M b s = (found, s0)" by fastforce
  from calm_get_bucket[OF assms(1,2,5) f] obtain i where i: "calm s0" "found = Inr i" by blast
  from get_bucket[OF assms(1) n(1) f] i(2) assms(5)
  have v: "inv s0" "view s0 = view s" "biOwnerID i = pUserID (requirePrincipal ctx)" by auto
  obtain got s1 where g: "mc_get_object M b k s0 = (got, s1)" by fastforce
  from calm_get_object[OF v(1) i(1) n(1) assms(4) _ g] assms(6) v(2) have c: "calm s1" "got = Inr m" by auto
  from get_object[OF v(1) n(1) g] v(2) have w: "inv s1" "view s1 = view s" by auto
  obtain bs s2 where r: "dc_read D b (oiStorageRef m) s1 = (bs, s2)" by fastforce
  from calm_read[OF w(1) c(1) n _ r] assms(7) w(2) have "bs = Inr d" by simp
  with f i v g c r assms(3) show ?thesis
    by (auto simp: handleGetObject_def if_owner_def authorizeBucketOwner_def has_clients_def)
qed

lemma put_then_get_calm:
  assumes "inv s" and "segment b" and "has_clients srv M D" and "object_param k"
    and "handlePutObject srv ctx b k ct r s = (resp, s')" and "status resp = StatusCreated" and "calm s'"
  shows "\<exists>s''. handleGetObject srv ctx b k s' =
    (\<lparr>status = StatusOK, headers = content_type_header (utf8_fix ct), body = RawBody (u_data r)\<rparr>, s'')"
proof -
  from put_object_stored[OF assms(1-6)] obtain m where "inv s'" "oiStorageRef m = sha256_hex (u_data r)"
    "oiContentType m = utf8_fix ct" "vw_owner (view s') b = Some (pUserID (requirePrincipal ctx))"
    "vw_object (view s') b k = Some m" "vw_blob (view s') b (oiStorageRef m) = Some (u_data r)" by auto
  from get_object_calm[OF this(1) assms(7,3,4) this(4,5,6)] this(3) show ?thesis by simp
qed

text \<open>What a download can answer with 200.\<close>

lemma get_object_ok:
  assumes "inv s" and "segment b" and "has_clients srv M D" and "object_param k"
    and "handleGetObject srv ctx b k s = (resp, s')" and "status resp = StatusOK"
  obtains m x where "vw_object (view s) b k = Some m" "body resp = RawBody x"
    "good_hash (oiStorageRef m) \<longrightarrow>
       (case vw_blob (view s) b (oiStorageRef m) of Some d \<Rightarrow> prefix x d | None \<Rightarrow> x = [])"
proof -
  from assms(1-3) assms(5)[unfolded handleGetObject_def] show ?thesis
  proof (cases rule: if_owner_cases)
    case refused
    with assms(6) show ?thesis by simp
  next
    case (allowed s0)
    obtain got s1 where g: "mc_get_object M b k s0 = (got, s1)" by fastforce
    with allowed(3) assms(3,6) obtain m where m: "got = Inr m"
      by (cases got) (auto simp: has_clients_def)
    from get_object[OF allowed(1) assms(2) g] m assms(4) allowed(2)
    have v: "inv s1" "view s1 = view s" "vw_object (view s) b k = Some m" by auto
    obtain bs s2 where r: "dc_read D b (oiStorageRef m) s1 = (bs, s2)" by fastforce
    with allowed(3) g m assms(3,6) obtain x where x: "bs = Inr x"
      by (cases bs) (auto simp: has_clients_def)
    from dread[OF v(1) assms(2) allowed(5) r] x v
    have "good_hash (oiStorageRef m) \<longrightarrow>
       (case vw_blob (view s) b (oiStorageRef m) of Some d \<Rightarrow> prefix x d | None \<Rightarrow> x = [])" by simp
    moreover have "body resp = RawBody x"
      using allowed(3) g m r x assms(3) by (auto simp: has_clients_def)
    ultimately show ?thesis using that v(3) by blast
  qed
qed

text \<open>A blob that is gone cannot be downloaded.\<close>

lemma get_object_lost:
  assumes "inv s" and "segment b" and "has_clients srv M D" and "object_param k"
    and "vw_object (view s) b k = Some m" and "good_hash (oiStorageRef m)"
    and "vw_blob (view s) b (oiStorageRef m) = None" and "d \<noteq> []"
  shows "\<not> (status (fst (handleGetObject srv ctx b k s)) = StatusOK
    \<and> body (fst (handleGetObject srv ctx b k s)) = RawBody d)"
proof
  assume a: "status (fst (handleGetObject srv ctx b k s)) = StatusOK
    \<and> body (fst (handleGetObject srv ctx b k s)) = RawBody d"
  have run: "handleGetObject srv ctx b k s
      = (fst (handleGetObject srv ctx b k s), snd (handleGetObject srv ctx b k s))" by simp
  from a have "status (fst (handleGetObject srv ctx b k s)) = StatusOK" by simp
  from get_object_ok[OF assms(1-4) run this] obtain m' x where
    "vw_object (view s) b k = Some m'" "body (fst (handleGetObject srv ctx b k s)) = RawBody x"
    "good_hash (oiStorageRef m') \<longrightarrow>
       (case vw_blob (view s) b (oiStorageRef m') of Some d \<Rightarrow> prefix x d | None \<Rightarrow> x = [])" by metis
  with a assms(5-8) show False by simp
qed

text \<open>What a delete answered 204 has done.\<close>

lemma delete_object_done:
  assumes "inv s" and "segment b" and "has_clients srv M D" and "object_param k"
    and "handleDeleteObject srv ctx b k s = (resp, s')" and "status resp = StatusNoContent"
    and "vw_object (view s) b k = Some m" and "good_hash (oiStorageRef m)"
  shows "inv s' \<and> view s' = set_object b k None (set_blob b (oiStorageRef m) None (view s))"
proof -
  from assms(1-3) assms(5)[unfolded handleDeleteObject_def] show ?thesis
  proof (cases rule: if_owner_cases)
    case refused
    with assms(6) show ?thesis by simp
  next
    case (allowed s0)
    obtain got s1 where g: "mc_get_object M b k s0 = (got, s1)" by fastforce
    from g allowed(3) assms(3,6) obtain m' where m: "got = Inr m'"
      by (cases got) (auto simp: has_clients_def)
    from get_object[OF allowed(1) assms(2) g] m assms(4,7) allowed(2)
    have v: "inv s1" "view s1 = view s" "m' = m" by auto
    obtain gone s2 where d: "dc_delete D b (oiStorageRef m) s1 = (gone, s2)" by fastforce
    from d g m v(3) allowed(3) assms(3,6) have gone: "gone = Inr ()"
      by (cases gone) (auto simp: has_clients_def WriteError_def)
    from dremove[OF v(1) assms(2) allowed(5) d] gone assms(8) v(2)
    have u: "inv s2" "view s2 = set_blob b (oiStorageRef m) None (view s)" by auto
    obtain res s3 where x: "mc_delete_object M b k s2 = (res, s3)" by fastforce
    from x g m d gone v(3) allowed(3) assms(3,6) have res: "res = Inr ()" "s' = s3"
      by (cases res; auto simp: has_clients_def)+
    from delete_object[OF u(1) assms(2) x] res assms(4) u(2) show ?thesis by auto
  qed
qed

text \<open>The content goes first, whatever becomes of the record.\<close>

lemma delete_object_calm:
  assumes "inv s" and "calm s" and "has_clients srv M D" and "object_param k"
    and "vw_owner (view s) b = Some (pUserID (requirePrincipal ctx))"
    and "vw_object (view s) b k = Some m" and "vw_blob (view s) b (oiStorageRef m) = Some d"
    and "handleDeleteObject srv ctx b k s = (resp, s')"
  shows "inv s' \<and> vw_blob (view s') b (oiStorageRef m) = None
    \<and> (\<forall>k'. k' \<noteq> k \<longrightarrow> vw_object (view s') b k' = vw_object (view s) b k')"
proof -
  from names[OF assms(1)] assms(5) have n: "segment b" "plain b" by auto
  have gh: "good_hash (oiStorageRef m)" using blob_names[OF assms(1,7)] by simp
  obtain found s0 where f: "mc_get_bucket M b s = (found, s0)" by fastforce
  from calm_get_bucket[OF assms(1,2,5) f] obtain i where i: "calm s0" "found = Inr i" by blast
  from get_bucket[OF assms(1) n(1) f] i(2) assms(5)
  have v: "inv s0" "view s0 = view s" "biOwnerID i = pUserID (requirePrincipal ctx)" by auto
  obtain got s1 where g: "mc_get_object M b k s0 = (got, s1)" by fastforce
  from calm_get_object[OF v(1) i(1) n(1) assms(4) _ g] assms(6) v(2) have c: "calm s1" "got = Inr m" by auto
  from get_object[OF v(1) n(1) g] v(2) have w: "inv s1" "view s1 = view s" by auto
  obtain gone s2 where x: "dc_delete D b (oiStorageRef m) s1 = (gone, s2)" by fastforce
  from calm_remove[OF w(1) c(1) n _ x] assms(7) w(2) have gone: "gone = Inr ()" by simp
  with dremove[OF w(1) n x] gh w(2) have u: "inv s2" "view s2 = set_blob b (oiStorageRef m) None (view s)" by auto
  obtain res s3 where y: "mc_delete_object M b k s2 = (res, s3)" by fastforce
  have "s' = s3" using assms(3,8) f i v g c x gone y
    by (auto simp: handleDeleteObject_def if_owner_def authorizeBucketOwner_def has_clients_def split: sum.splits)
  with delete_object[OF u(1) n(1) y] assms(4) u(2) show ?thesis by auto
qed

text \<open>
  Blobs are shared by content.  Deleting one of two objects with the same content takes the content
  of the other away.
\<close>

lemma shared_blob_lost:
  assumes "inv s" and "segment b" and "has_clients srv M D" and "object_param k" and "object_param k'"
    and "k \<noteq> k'" and "u_data r' = u_data r" and "u_data r \<noteq> []"
    and "handlePutObject srv ctx b k ct r s = (resp1, s1)" and "status resp1 = StatusCreated"
    and "handlePutObject srv ctx b k' ct' r' s1 = (resp2, s2)" and "status resp2 = StatusCreated"
    and "calm s2" and "handleDeleteObject srv ctx b k s2 = (resp3, s3)"
  shows "\<not> (status (fst (handleGetObject srv ctx' b k' s3)) = StatusOK
    \<and> body (fst (handleGetObject srv ctx' b k' s3)) = RawBody (u_data r))"
proof -
  from put_object_stored[OF assms(1-4,9,10)] obtain m where m: "inv s1"
    "oiStorageRef m = sha256_hex (u_data r)" "vw_object (view s1) b k = Some m" by auto
  from put_object_stored[OF m(1) assms(2,3,5,11,12)] m(3) assms(6,7) obtain m' where m': "inv s2"
    "oiStorageRef m' = sha256_hex (u_data r)" "vw_object (view s2) b k' = Some m'"
    "vw_object (view s2) b k = Some m" "vw_blob (view s2) b (oiStorageRef m') = Some (u_data r)"
    "vw_owner (view s2) b = Some (pUserID (requirePrincipal ctx))" by auto
  with delete_object_calm[OF m'(1) assms(13,3,4) _ m'(4) _ assms(14)] m(2) assms(6)
  have "inv s3" "vw_object (view s3) b k' = Some m'" "vw_blob (view s3) b (oiStorageRef m') = None" by auto
  from get_object_lost[OF this(1) assms(2,3,5) this(2) _ this(3) assms(8)] m'(2) show ?thesis by simp
qed

text \<open>
  So does the clean-up after an upload whose record is rejected, when its content was there before.
\<close>

lemma rejected_upload_lost:
  assumes "inv s" and "segment b" and "has_clients srv M D" and "object_param k"
    and "u_data r' = u_data r" and "u_data r \<noteq> []"
    and "handlePutObject srv ctx b k ct r s = (resp1, s1)" and "status resp1 = StatusCreated" and "calm s1"
    and "handlePutObject srv ctx b k' ct' r' s1 = (resp2, s2)"
    and "400 \<le> status resp2" and "status resp2 \<noteq> StatusBadGateway"
  shows "\<not> (status (fst (handleGetObject srv ctx' b k s2)) = StatusOK
    \<and> body (fst (handleGetObject srv ctx' b k s2)) = RawBody (u_data r))"
proof -
  let ?h = "sha256_hex (u_data r)" and ?r = "max_bytes maxUploadBytes r'"
  from put_object_stored[OF assms(1-4,7,8)] obtain m where m: "inv s1" "length (u_data r) \<le> maxUploadBytes"
    "oiStorageRef m = ?h" "vw_object (view s1) b k = Some m" "vw_blob (view s1) b ?h = Some (u_data r)"
    "vw_owner (view s1) b = Some (pUserID (requirePrincipal ctx))" "plain b" by auto
  have d: "u_data ?r = u_data r" using m(2) assms(5) by (simp add: max_bytes_def)
  obtain found s3 where f: "mc_get_bucket M b s1 = (found, s3)" by fastforce
  from calm_get_bucket[OF m(1) assms(9) m(6) f] obtain i where i: "calm s3" "found = Inr i" by blast
  from get_bucket[OF m(1) assms(2) f] i(2) m(6)
  have v: "inv s3" "view s3 = view s1" "biOwnerID i = pUserID (requirePrincipal ctx)" by auto
  obtain ref s4 where w: "dc_write D b ?r s3 = (ref, s4)" by fastforce
  note cw = calm_write[OF i(1) w]
  have ref: "\<exists>h n. ref = Inr (h, n)"
    using assms(3,10-12) f i v w
    by (cases ref) (auto simp: handlePutObject_def if_owner_def authorizeBucketOwner_def has_clients_def WriteError_def)
  with dwrite[OF v(1) assms(2) m(7) w] d obtain n where ref: "ref = Inr (?h, n)" and x: "inv s4"
    "view s4 = set_blob b ?h (Some (u_data r)) (view s1)" using v(2) by auto
  define ob where "ob = \<lparr>oiKey = k', oiBucket = b, oiSizeBytes = n, oiETag = [], oiContentType = ct',
      oiStorageRef = ?h, oiCreatedAt = 0\<rparr>"
  obtain saved s5 where p: "mc_put_object M ob s4 = (saved, s5)" by fastforce
  obtain gone s6 where g: "dc_delete D b ?h s5 = (gone, s6)" by fastforce
  have s2: "s2 = s6"
    using assms(3,10-12) f i v w ref p g
    by (cases saved)
      (auto simp: handlePutObject_def if_owner_def authorizeBucketOwner_def has_clients_def ob_def)
  have "valid_utf8 ?h" by (rule valid_utf8_ascii) (auto dest!: sha256_hex_chars simp: hex_char_def byte_in_def)
  with put_object[OF x(1) _ p] assms(2) x(2) m(3,4)
  have y: "inv s5" "vw_blob (view s5) b ?h = Some (u_data r)"
    "\<exists>m'. vw_object (view s5) b k = Some m' \<and> oiStorageRef m' = ?h"
    by (auto simp: ob_def stored_as_def)
  have gone: "gone = Inr ()"
    by (rule calm_remove[OF y(1) calm_put_object[OF cw p] assms(2) m(7) y(2) g])
  with dremove[OF y(1) assms(2) m(7) g] y(3)
  obtain m' where "inv s6" "vw_object (view s6) b k = Some m'" "oiStorageRef m' = ?h"
    "vw_blob (view s6) b (oiStorageRef m') = None" by auto
  from get_object_lost[OF this(1) assms(2-4) this(2) _ this(4) assms(6)] this(3) s2 show ?thesis by simp
qed

end

end
