(* ===== verification/Api_Compose.thy ===== *)
theory Api_Compose
  imports Api_Contract
begin

text \<open>
  The composed system keeps the contract of the clients: metadata-service over a bolt store and
  data-service over the file system, behind the router chi and a network that loses requests and
  replies.
\<close>

section \<open>The view of the system\<close>

definition object_info_of :: "object \<Rightarrow> object_info" where
  "object_info_of ob = \<lparr>oiKey = oObjectKey ob, oiBucket = oBucketName ob, oiSizeBytes = oSizeBytes ob,
     oiETag = oETag ob, oiContentType = oContentType ob, oiStorageRef = oStorageRef ob,
     oiCreatedAt = oCreatedAt ob\<rparr>"

definition sys_view :: "'d bolt \<Rightarrow> path \<Rightarrow> 'd system \<Rightarrow> api_view" where
  "sys_view B base s =
     \<lparr>vw_owner = (\<lambda>b. map_option bOwnerID (live_bucket B (sys_meta s) b)),
      vw_object = (\<lambda>b k. map_option object_info_of (live_object B (sys_meta s) b k)),
      vw_blob = blob base (sys_fs s)\<rparr>"

definition names_ok :: "'d bolt \<Rightarrow> 'd \<Rightarrow> bool" where
  "names_ok B d \<longleftrightarrow> (\<forall>b. live_bucket B d b \<noteq> None \<longrightarrow> re_match bucketNameRE b)"

definition sys_inv :: "'d bolt \<Rightarrow> path \<Rightarrow> 'd system \<Rightarrow> bool" where
  "sys_inv B base s \<longleftrightarrow> meta_inv B (sys_meta s) \<and> names_ok B (sys_meta s) \<and> store_ok base (sys_fs s)"

text \<open>No fault lies ahead: the network delivers, no context ends, no system call fails.\<close>

definition sys_calm :: "net \<Rightarrow> 'd system \<Rightarrow> bool" where
  "sys_calm net s \<longleftrightarrow> (\<forall>n \<ge> sys_calls s. nt_fault net n = Delivered
     \<and> e_ctx (nt_meta net n) = background \<and> no_faults (nt_data net n))"

definition net_ok :: "net \<Rightarrow> bool" where
  "net_ok net \<longleftrightarrow> (\<forall>n. env_ok (nt_meta net n))"

lemma sys_view_sel [simp]:
  "vw_owner (sys_view B base s) b = map_option bOwnerID (live_bucket B (sys_meta s) b)"
  "vw_object (sys_view B base s) b k = map_option object_info_of (live_object B (sys_meta s) b k)"
  "vw_blob (sys_view B base s) = blob base (sys_fs s)"
  by (simp_all add: sys_view_def)

lemma sys_view_counted [simp]:
  "sys_view B base (counted s) = sys_view B base s" "sys_inv B base (counted s) = sys_inv B base s"
  by (simp_all add: sys_view_def sys_inv_def)

lemma sys_calm_counted: "sys_calm net s \<Longrightarrow> sys_calls s' = Suc (sys_calls s) \<Longrightarrow> sys_calm net s'"
  by (simp add: sys_calm_def)

lemma sys_calm_now: "sys_calm net s \<Longrightarrow> nt_fault net (sys_calls s) = Delivered
    \<and> e_ctx (nt_meta net (sys_calls s)) = background \<and> no_faults (nt_data net (sys_calls s))"
  by (simp add: sys_calm_def)

text \<open>A valid bucket name is a segment, and plain to the file system.\<close>

lemma bucket_name_segment:
  assumes "re_match bucketNameRE b"
  shows "segment b" "plain b" "valid_utf8 b"
proof -
  have c: "\<forall>c \<in> set b. name_char c" and l: "3 \<le> length b"
    using assms by (auto simp: bucketNameRE_iff list_all_iff)
  have "\<forall>c \<in> set b. c \<noteq> CHR ''/'' \<and> c \<noteq> CHR ''.'' \<and> c \<noteq> CHR ''%'' \<and> c \<noteq> CHR ''?'' \<and> c \<noteq> CHR ''#'' \<and> \<not> ctl c"
    using c by (auto simp: name_char_def lower_alnum_def byte_in_def ctl_def)
  note safe = this
  have ne: "b \<noteq> []" "b \<noteq> ''.''" "b \<noteq> ''..''" using l by (auto simp: numeral_eq_Suc)
  have sl: "CHR ''/'' \<notin> set b" using safe by blast
  have "url_safe b" unfolding url_safe_def using safe by blast
  with ne sl show "segment b" "plain b" by (simp_all add: segment_def plain_def)
  show "valid_utf8 b" using bucketNameRE_good[OF assms] by simp
qed

section \<open>Calls to metadata-service\<close>

text \<open>What metadata-service does with a request to a URL.\<close>

definition is_call ::
    "chi \<Rightarrow> 'd bolt \<Rightarrow> string \<Rightarrow> string \<Rightarrow> req_body \<Rightarrow> (env \<Rightarrow> 'd \<Rightarrow> response \<times> 'd) \<Rightarrow> bool" where
  "is_call chi B mth txt bdy serve \<longleftrightarrow>
     (\<forall>u hdr e d. url_parse txt = Some u \<longrightarrow>
        meta_http chi B e \<lparr>hc_method = mth, hc_url = u, hc_header = hdr, hc_body = bdy\<rparr> d = serve e d)"

lemma meta_do_cases:
  fixes s :: "'d system"
  assumes run: "meta_do (meta_transport chi B net) want mth txt hdr bdy s = (res, s')"
    and call: "is_call chi B mth txt bdy serve"
  obtains (unsent) x where "res = Inl x" "url_parse txt = None" "s' = s"
    | (lost) x where "res = Inl x" "s' = counted s" "nt_fault net (sys_calls s) \<noteq> Delivered"
    | (served) r d where "serve (nt_meta net (sys_calls s)) (sys_meta s) = (r, d)"
        "s' = (counted s)\<lparr>sys_meta := d\<rparr>"
        "(\<exists>x. res = Inl x \<and> (status r \<noteq> want \<or> nt_fault net (sys_calls s) \<noteq> Delivered))
          \<or> res = Inr r \<and> status r = want
          \<or> (\<exists>n. res = Inr (r\<lparr>body := cut_body n (body r)\<rparr>) \<and> status r = want
               \<and> nt_fault net (sys_calls s) \<noteq> Delivered)"
proof (cases "url_parse txt")
  case None
  with run show ?thesis by (auto simp: meta_do_def send_def intro: unsent)
next
  case (Some u)
  let ?c = "\<lparr>hc_method = mth, hc_url = u, hc_header = hdr, hc_body = bdy\<rparr>"
  let ?f = "nt_fault net (sys_calls s)" and ?e = "nt_meta net (sys_calls s)"
  obtain x s1 where t: "exchange ?f (at_meta chi B ?e ?c) (counted s) = (x, s1)" by fastforce
  from run Some t have s': "s' = s1"
    by (auto simp: meta_do_def send_def meta_transport_def split: sum.splits if_splits)
  from t show ?thesis
  proof (cases rule: exchange_cases)
    case lost
    then have "?f \<noteq> Delivered" using t by (cases ?f) (auto split: prod.splits)
    with run Some t lost s' show ?thesis
      by (auto simp: meta_do_def send_def meta_transport_def intro: that(2))
  next
    case (served r)
    obtain r' d where m: "serve ?e (sys_meta s) = (r', d)" by fastforce
    with call Some have "meta_http chi B ?e ?c (sys_meta s) = (r', d)" by (simp add: is_call_def)
    with served(1) have r: "r' = r" "s1 = (counted s)\<lparr>sys_meta := d\<rparr>" by (auto simp: at_meta_def)
    have "(\<exists>x. res = Inl x \<and> (status r \<noteq> want \<or> ?f \<noteq> Delivered))
          \<or> res = Inr r \<and> status r = want
          \<or> (\<exists>n. res = Inr (r\<lparr>body := cut_body n (body r)\<rparr>) \<and> status r = want \<and> ?f \<noteq> Delivered)"
    proof (cases "?f = Delivered")
      case True
      with served(3) have "x = Inr r" by simp
      with run Some t show ?thesis
        by (auto simp: meta_do_def send_def meta_transport_def split: if_splits)
    next
      case False
      with served(2) run Some t show ?thesis
        by (auto simp: meta_do_def send_def meta_transport_def split: if_splits)
    qed
    with m r s' show ?thesis by (intro that(3)) auto
  qed
qed

lemma meta_writeError_not_ok [simp]:
  "status (meta_writeError e) \<noteq> StatusOK" "status (meta_writeError e) \<noteq> StatusCreated"
  "status (meta_writeError e) \<noteq> StatusNoContent"
  using writeError_status[of e] by auto

section \<open>The wire formats agree\<close>

lemma decode_bucketResponse:
  "decode_struct client_bucketResponse_fields False (bucketResponse_json r) zero_bucketResponse =
     (\<lparr>cbrID = utf8_fix (brID r), cbrName = utf8_fix (brName r), cbrOwnerID = utf8_fix (brOwnerID r),
       cbrVersioning = brVersioning r, cbrCreatedAt = brCreatedAt r\<rparr>, None)"
  by (simp add: bucketResponse_json_def client_bucketResponse_fields_def zero_bucketResponse_def
      json_decode_simps)

lemma decode_objectResponse:
  "decode_struct client_objectResponse_fields False (objectResponse_json r) zero_objectResponse =
     (\<lparr>corID = utf8_fix (orID r), corBucketName = utf8_fix (orBucketName r), corKey = utf8_fix (orKey r),
       corSizeBytes = orSizeBytes r, corETag = utf8_fix (orETag r),
       corContentType = utf8_fix (orContentType r), corStorageRef = utf8_fix (orStorageRef r),
       corVersionID = utf8_fix (orVersionID r), corCreatedAt = orCreatedAt r\<rparr>, None)"
  by (simp add: objectResponse_json_def client_objectResponse_fields_def zero_objectResponse_def
      json_decode_simps)

lemma decode_putObjectRequest:
  "decode_body putObjectRequest_fields False zero_putObjectRequest
     (Some (JObj [(''key'', jstr k), (''size_bytes'', JInt (sint sz)), (''etag'', jstr etag),
        (''content_type'', jstr ct), (''storage_ref'', jstr ref)]))
   = Inr \<lparr>poKey = utf8_fix k, poSizeBytes = sz, poETag = utf8_fix etag, poContentType = utf8_fix ct,
          poStorageRef = utf8_fix ref\<rparr>"
  by (simp add: putObjectRequest_fields_def zero_putObjectRequest_def json_decode_simps)

lemma decode_createBucketRequest:
  "decode_body createBucketRequest_fields False \<lparr>cbName = [], cbOwnerID = []\<rparr>
     (Some (JObj [(''name'', jstr n), (''owner_id'', jstr u)])) = Inr \<lparr>cbName = utf8_fix n, cbOwnerID = utf8_fix u\<rparr>"
  by (simp add: createBucketRequest_fields_def json_decode_simps)

text \<open>A reply whose body broke off cannot be decoded.\<close>

lemma decoded_NoBody [simp]: "decoded fs zero (r\<lparr>body := NoBody\<rparr>) = Inl (OtherError (error_text syntax_error))"
  by (simp add: decoded_def resp_json_def decode_body_def)

lemma decoded_json: "resp_json r = Some j \<Longrightarrow> decode_struct fs False j zero = (x, None) \<Longrightarrow> decoded fs zero r = Inr x"
  by (simp add: decoded_def decode_body_def)

section \<open>The calls of the client\<close>

lemma url_safe_Cons: "url_safe (c # s) \<longleftrightarrow>
    c \<noteq> CHR ''%'' \<and> c \<noteq> CHR ''?'' \<and> c \<noteq> CHR ''#'' \<and> \<not> ctl c \<and> url_safe s"
  by (auto simp: url_safe_def)

lemma url_safe_no_nul: "url_safe s \<Longrightarrow> no_nul s"
proof -
  have "ctl keySeparator" by (simp add: ctl_def byte_in_def keySeparator_def)
  then show "url_safe s \<Longrightarrow> no_nul s" by (auto simp: url_safe_def no_nul_def)
qed

lemma url_safe_Nil: "url_safe []"
  by (simp add: url_safe_def)

lemmas safe_simps = url_safe_Cons url_safe_Nil ctl_def byte_in_def

context chi_router
begin

lemma is_call_safe:
  assumes "url_safe txt" and "txt \<noteq> ''*''" and "chi meta_routes mth txt = Inr (i, ps)"
  shows "is_call chi B mth txt bdy (\<lambda>e. meta_serve B e (meta_requests ps [] (req_json bdy) ! i))"
  using assms by (simp add: is_call_def url_parse_safe meta_http_def wire_query_ok_def route_path_safe)

lemma is_call_query:
  assumes "url_safe txt" and "txt \<noteq> ''*''" and "chi meta_routes mth txt = Inr (i, ps)"
  shows "is_call chi B mth (txt @ CHR ''?'' # encode_query k v) bdy
    (\<lambda>e. meta_serve B e (meta_requests ps (encode_query k v) (req_json bdy) ! i))"
  using assms by (simp add: is_call_def url_parse_query encode_query_ok meta_http_def wire_query_ok_def route_path_safe)

lemma call_create: "is_call chi B ''POST'' ''/buckets'' (JsonReq j) (\<lambda>e. meta_serve B e (MCreateBucket (Some j)))"
  using is_call_safe[OF _ _ meta_route_buckets(1), of B "JsonReq j"]
  by (simp add: meta_requests_def req_json_def safe_simps)

lemma call_list_buckets:
  "is_call chi B ''GET'' (''/buckets?'' @ encode_query ''owner_id'' u) bdy (\<lambda>e. meta_serve B e (MListBuckets u))"
  using is_call_query[OF _ _ meta_route_buckets(2), of B "''owner_id''" u bdy]
  by (simp add: meta_requests_def query_get_encode safe_simps)

lemma call_bucket:
  assumes "segment b"
  shows "is_call chi B ''GET'' (''/buckets/'' @ b) bdy (\<lambda>e. meta_serve B e (MGetBucket b))"
    "is_call chi B ''DELETE'' (''/buckets/'' @ b) bdy (\<lambda>e. meta_serve B e (MDeleteBucket b))"
  using is_call_safe[OF _ _ meta_route_bucket(1)[OF assms], of B bdy]
    is_call_safe[OF _ _ meta_route_bucket(2)[OF assms], of B bdy] segmentD(3)[OF assms]
  by (simp_all add: safe_simps meta_requests_def)

lemma call_put:
  assumes "segment b"
  shows "is_call chi B ''POST'' (''/buckets/'' @ b @ ''/objects'') (JsonReq j) (\<lambda>e. meta_serve B e (MPutObject b (Some j)))"
  using is_call_safe[OF _ _ meta_route_objects(1)[OF assms], of B "JsonReq j"] segmentD(3)[OF assms]
  by (simp add: safe_simps meta_requests_def req_json_def)

lemma call_list_objects:
  assumes "segment b"
  shows "is_call chi B ''GET'' (''/buckets/'' @ b @ ''/objects'' @ (if p \<noteq> [] then ''?'' @ encode_query ''prefix'' p else []))
    bdy (\<lambda>e. meta_serve B e (MListObjects b p []))"
proof (cases "p = []")
  case True
  then show ?thesis
    using is_call_safe[OF _ _ meta_route_objects(2)[OF assms], of B bdy] segmentD(3)[OF assms]
    by (simp add: safe_simps meta_requests_def query_get_def query_pairs_def query_pair_def List.map_filter_simps)
next
  case False
  have "query_get (encode_query ''prefix'' p) ''limit'' = []"
    by (simp add: query_get_def query_pairs_def encode_query_def query_pair_def split_at_char_none
        query_escape_no cut_at_hit unescape_query_escape List.map_filter_simps)
  then show ?thesis
    using False is_call_query[OF _ _ meta_route_objects(2)[OF assms], of B "''prefix''" p bdy] segmentD(3)[OF assms]
    by (simp add: safe_simps meta_requests_def query_get_encode)
qed

lemma call_object:
  assumes "segment b" and "object_param k"
  shows "is_call chi B ''GET'' (''/buckets/'' @ b @ ''/objects/'' @ k) bdy (\<lambda>e. meta_serve B e (MGetObject b k))"
    "is_call chi B ''DELETE'' (''/buckets/'' @ b @ ''/objects/'' @ k) bdy (\<lambda>e. meta_serve B e (MDeleteObject b k))"
  using assms(2) is_call_safe[OF _ _ meta_route_object(1)[OF assms(1)], of k B bdy]
    is_call_safe[OF _ _ meta_route_object(2)[OF assms(1)], of k B bdy] segmentD(3)[OF assms(1)]
  by (simp_all add: safe_simps meta_requests_def object_param_def)

text \<open>Any other key: some read of the bucket's objects, some deletion of one of them, or an error.\<close>

lemma call_below:
  assumes "segment b"
  shows "\<exists>serve. is_call chi B ''GET'' (''/buckets/'' @ b @ ''/objects/'' @ k) bdy serve
      \<and> (\<forall>e d. snd (serve e d) = d)"
    and "\<exists>serve. is_call chi B ''DELETE'' (''/buckets/'' @ b @ ''/objects/'' @ k) bdy serve
      \<and> ((\<exists>st. 400 \<le> st \<and> (\<forall>e d. serve e d = (write_header st, d))) \<or> (\<exists>k'. \<forall>e. serve e = meta_serve B e (MDeleteObject b k')))"
proof -
  let ?p = "''/buckets/'' @ b @ ''/objects/''"
  define serve where "serve mth e d = (case url_parse (?p @ k) of None \<Rightarrow> (write_header 400, d)
    | Some u \<Rightarrow> meta_http chi B e \<lparr>hc_method = mth, hc_url = u, hc_header = [], hc_body = bdy\<rparr> d)" for mth e d
  have call: "is_call chi B mth (?p @ k) bdy (serve mth)" for mth
    by (auto simp: is_call_def serve_def meta_http_def split: option.split sum.split)
  have see: "\<exists>k'. route_path u = ?p @ k'" if "url_parse (?p @ k) = Some u" for u
    by (rule route_path_prefix[OF _ _ that]) (use segmentD(3)[OF assms] in \<open>simp_all add: safe_simps\<close>)
  have "snd (serve ''GET'' e d) = d" for e d
  proof (cases "url_parse (?p @ k)")
    case None
    then show ?thesis by (simp add: serve_def)
  next
    case (Some u)
    then obtain k' where k': "route_path u = ''/buckets/'' @ b @ ''/objects/'' @ k'" using see by auto
    show ?thesis
    proof (cases "chi meta_routes ''GET'' (''/buckets/'' @ b @ ''/objects/'' @ k')")
      case (Inl st)
      with Some k' show ?thesis by (simp add: serve_def meta_http_def)
    next
      case (Inr ip)
      obtain i ps where ip: "ip = (i, ps)" by fastforce
      from meta_route_below[OF assms Inr[unfolded ip]] Some k' Inr ip show ?thesis
        by (auto simp: serve_def meta_http_def meta_requests_def)
    qed
  qed
  with call[of "''GET''"] show "\<exists>serve. is_call chi B ''GET'' (''/buckets/'' @ b @ ''/objects/'' @ k) bdy serve
      \<and> (\<forall>e d. snd (serve e d) = d)" by auto
  have "(\<exists>st. 400 \<le> st \<and> (\<forall>e d. serve ''DELETE'' e d = (write_header st, d)))
    \<or> (\<exists>k'. \<forall>e. serve ''DELETE'' e = meta_serve B e (MDeleteObject b k'))"
  proof (cases "url_parse (?p @ k)")
    case None
    then show ?thesis by (intro disjI1 exI[of _ StatusBadRequest]) (simp add: serve_def)
  next
    case (Some u)
    then obtain k' where k': "route_path u = ''/buckets/'' @ b @ ''/objects/'' @ k'" using see by auto
    show ?thesis
    proof (cases "chi meta_routes ''DELETE'' (''/buckets/'' @ b @ ''/objects/'' @ k')")
      case (Inl st)
      with chi_status[OF Inl] Some k' show ?thesis
        by (intro disjI1 exI[of _ "if wire_query_ok u then st else StatusBadRequest"])
          (auto simp: serve_def meta_http_def)
    next
      case (Inr ip)
      obtain i ps where ip: "ip = (i, ps)" by fastforce
      from meta_route_below[OF assms Inr[unfolded ip]] Some k' Inr ip show ?thesis
        by (cases "wire_query_ok u") (auto simp: serve_def meta_http_def meta_requests_def fun_eq_iff
            intro: exI[of _ StatusBadRequest])
    qed
  qed
  with call[of "''DELETE''"] show "\<exists>serve. is_call chi B ''DELETE'' (''/buckets/'' @ b @ ''/objects/'' @ k) bdy serve
      \<and> ((\<exists>st. 400 \<le> st \<and> (\<forall>e d. serve e d = (write_header st, d))) \<or> (\<exists>k'. \<forall>e. serve e = meta_serve B e (MDeleteObject b k')))"
    by auto
qed

end

section \<open>The metadata client keeps the contract\<close>

text \<open>A deployment: a bolt store, the router, the base directory and the surroundings of each call.\<close>

locale deployment = bolt_store B + chi_router chi
  for B :: "'d bolt" and chi :: chi +
  fixes base :: path and net :: net
  assumes net: "net_ok net"
begin

abbreviation (input) "MC \<equiv> HTTPMetadataClient (meta_transport chi B net)"
abbreviation (input) "DC \<equiv> HTTPDataClient (data_transport chi base net)"
abbreviation (input) "sview \<equiv> sys_view B base"
abbreviation (input) "sinv \<equiv> sys_inv B base"

lemma env_ok_net: "env_ok (nt_meta net n)"
  using net by (simp add: net_ok_def)

text \<open>The new state of metadata-service, the rest as it was.\<close>

definition at_db :: "'d system \<Rightarrow> 'd \<Rightarrow> 'd system" where
  "at_db s d = (counted s)\<lparr>sys_meta := d\<rparr>"

lemma at_db_sel [simp]:
  "sys_meta (at_db s d) = d" "sys_fs (at_db s d) = sys_fs s" "sys_calls (at_db s d) = Suc (sys_calls s)"
  by (simp_all add: at_db_def)

lemma at_db_same [simp]: "sview (at_db s (sys_meta s)) = sview s" "sinv (at_db s (sys_meta s)) = sinv s"
  by (simp_all add: sys_view_def sys_inv_def)

lemma calm_at_db: "sys_calm net s \<Longrightarrow> sys_calm net (at_db s d)"
  by (rule sys_calm_counted) simp_all

lemma calm_counted: "sys_calm net s \<Longrightarrow> sys_calm net (counted s)"
  by (rule sys_calm_counted) simp_all

text \<open>Requests that read leave the system alone.\<close>

lemma read_call:
  assumes "sinv s" and "is_call chi B mth txt bdy serve" and "\<And>e. snd (serve e (sys_meta s)) = sys_meta s"
    and "meta_do (meta_transport chi B net) want mth txt hdr bdy s = (res, s')"
  shows "sinv s' \<and> sview s' = sview s"
  using assms(4,2)
proof (cases rule: meta_do_cases)
  case (served r d)
  from assms(3)[of "nt_meta net (sys_calls s)"] served(1) have "d = sys_meta s" by simp
  with served(2) assms(1) show ?thesis by (simp flip: at_db_def)
qed (use assms(1) in simp_all)

lemma MetadataClient_GetBucket_spec:
  assumes "sinv s" and "segment b" and run: "MetadataClient_GetBucket (meta_transport chi B net) b s = (res, s')"
  shows "sinv s' \<and> sview s' = sview s \<and> (\<forall>i. res = Inr i \<longrightarrow> vw_owner (sview s) b = Some (biOwnerID i))"
    and "sys_calm net s \<Longrightarrow> vw_owner (sview s) b = Some u \<Longrightarrow> sys_calm net s' \<and> (\<exists>i. res = Inr i)"
proof -
  obtain r s1 where d: "meta_do (meta_transport chi B net) StatusOK ''GET'' (''/buckets/'' @ b) [] NoReqBody s = (r, s1)"
    by fastforce
  with run have s': "s' = s1" and res: "res = (case r of Inl e \<Rightarrow> Inl e | Inr resp \<Rightarrow>
      map_sum id toBucketInfo (decoded client_bucketResponse_fields zero_bucketResponse resp))"
    by (auto simp: MetadataClient_GetBucket_def returned_def split: sum.splits)
  have inv: "meta_inv B (sys_meta s)" using assms(1) by (simp add: sys_inv_def)
  have get: "GetBucket bkts ctx b (sys_meta s) = (case live_bucket B (sys_meta s) b of
      None \<Rightarrow> Inl (Sentinel ErrNotFound) | Some x \<Rightarrow> Inr x)" for ctx
    using segmentD(1)[OF assms(2)] buckets.get_eq[OF inv] by (simp add: GetBucket_def)
  note call = call_bucket(1)[OF assms(2), of B NoReqBody]
  have own_fix: "utf8_fix (bOwnerID x) = bOwnerID x" if "live_bucket B (sys_meta s) b = Some x" for x
    using buckets.live_good[OF inv that] by (simp add: good_bucket_def utf8_bucket_def)
  have "sinv s1 \<and> sview s1 = sview s" by (rule read_call[OF assms(1) call _ d]) simp
  moreover have "vw_owner (sview s) b = Some (biOwnerID i)" if "res = Inr i" for i
    using d call
  proof (cases rule: meta_do_cases)
    case (served r' d')
    with that res inv show ?thesis
      by (auto simp: h_getBucket_def get decoded_json[OF _ decode_bucketResponse] toBucketInfo_def
          toBucketResponse_def own_fix split: option.splits if_splits)
  qed (use that res in auto)
  ultimately show "sinv s' \<and> sview s' = sview s \<and> (\<forall>i. res = Inr i \<longrightarrow> vw_owner (sview s) b = Some (biOwnerID i))"
    using s' by blast
  assume c: "sys_calm net s" and o: "vw_owner (sview s) b = Some u"
  from d call show "sys_calm net s' \<and> (\<exists>i. res = Inr i)"
  proof (cases rule: meta_do_cases)
    case unsent
    with segmentD(3)[OF assms(2)] show ?thesis by (simp add: url_parse_safe safe_simps)
  next
    case lost
    with sys_calm_now[OF c] show ?thesis by simp
  next
    case (served r' d')
    with o s' res sys_calm_now[OF c] show ?thesis
      by (auto simp: h_getBucket_def get decoded_json[OF _ decode_bucketResponse] calm_at_db[OF c] simp flip: at_db_def)
  qed
qed

lemma MetadataClient_ListObjects_spec:
  assumes "sinv s" and "segment b" and run: "MetadataClient_ListObjects (meta_transport chi B net) b p s = (res, s')"
  shows "sinv s' \<and> sview s' = sview s"
proof -
  let ?txt = "''/buckets/'' @ b @ ''/objects'' @ (if p \<noteq> [] then ''?'' @ encode_query ''prefix'' p else [])"
  obtain r s1 where d: "meta_do (meta_transport chi B net) StatusOK ''GET'' ?txt [] NoReqBody s = (r, s1)"
    by (meson prod.exhaust)
  with run have s': "s' = s1" by (auto simp: MetadataClient_ListObjects_def returned_def split: sum.splits)
  have "sinv s1 \<and> sview s1 = sview s"
    by (rule read_call[OF assms(1) call_list_objects[OF assms(2), of B p NoReqBody] _ d]) simp
  with s' show ?thesis by simp
qed

lemma utf8_norm_object: "utf8_object (norm_object ob)"
  by (simp add: utf8_object_def)

lemma live_object_utf8:
  assumes "meta_inv B d" and "live_object B d b k = Some ob"
  shows "utf8_object ob"
proof -
  from assms(2) obtain raw where raw: "bget B d BoltBucketObjects (b @ keySeparator # k) = Some raw"
    "unmarshal_object raw = Inr ob"
    by (auto simp: live_object_def split: option.splits sum.splits if_splits)
  from assms(1) have "objects_ok B d" by (simp add: meta_inv_def)
  from this raw(1) obtain ob' where "unmarshal_object raw = Inr (norm_object ob')" by (rule objects_okE)
  with raw(2) utf8_norm_object[of ob'] show ?thesis by simp
qed

text \<open>What the client reads from a reply with an object.\<close>

lemma decoded_object:
  "map_sum id toObjectInfo (decoded client_objectResponse_fields zero_objectResponse
      (write_json st (objectResponse_json (toObjectResponse ob)))) = Inr (object_info_of (norm_object ob))"
  by (simp add: decoded_json[OF _ decode_objectResponse] toObjectInfo_def object_info_of_def toObjectResponse_def)

lemma MetadataClient_GetObjectMeta_spec:
  assumes "sinv s" and "segment b" and run: "MetadataClient_GetObjectMeta (meta_transport chi B net) b k s = (res, s')"
  shows "sinv s' \<and> sview s' = sview s \<and> (\<forall>m. res = Inr m \<longrightarrow> object_param k \<longrightarrow> vw_object (sview s) b k = Some m)"
    and "sys_calm net s \<Longrightarrow> object_param k \<Longrightarrow> vw_object (sview s) b k = Some m \<Longrightarrow> sys_calm net s' \<and> res = Inr m"
proof -
  let ?txt = "''/buckets/'' @ b @ ''/objects/'' @ k"
  obtain r s1 where d: "meta_do (meta_transport chi B net) StatusOK ''GET'' ?txt [] NoReqBody s = (r, s1)"
    by (meson prod.exhaust)
  with run have s': "s' = s1" and res: "res = (case r of Inl e \<Rightarrow> Inl e | Inr resp \<Rightarrow>
      map_sum id toObjectInfo (decoded client_objectResponse_fields zero_objectResponse resp))"
    by (auto simp: MetadataClient_GetObjectMeta_def returned_def split: sum.splits)
  have inv: "meta_inv B (sys_meta s)" using assms(1) by (simp add: sys_inv_def)
  from call_below(1)[OF assms(2), of B k NoReqBody] obtain serve where
    call: "is_call chi B ''GET'' ?txt NoReqBody serve" "\<forall>e d. snd (serve e d) = d" by blast
  have same: "sinv s1 \<and> sview s1 = sview s" by (rule read_call[OF assms(1) call(1) _ d]) (simp add: call(2))
  have get: "GetObject objts ctx b k (sys_meta s) = (case live_object B (sys_meta s) b k of
      None \<Rightarrow> Inl (Sentinel ErrNotFound) | Some x \<Rightarrow> Inr x)" if "object_param k" for ctx
  proof -
    have "no_nul b" "no_nul k"
      using that segmentD(3)[OF assms(2)] by (simp_all add: object_param_def url_safe_no_nul)
    with that segmentD(1)[OF assms(2)] meta.GetObject_eq[OF inv, of b k ctx] show ?thesis
      by (simp add: object_param_def)
  qed
  have norm: "norm_object x = x" if "live_object B (sys_meta s) b k = Some x" for x
    using live_object_utf8[OF inv that] by simp
  have "vw_object (sview s) b k = Some m" if "res = Inr m" "object_param k" for m
    using d call_object(1)[OF assms(2) that(2), of B NoReqBody]
  proof (cases rule: meta_do_cases)
    case (served r' d')
    with that(1) res inv get[OF that(2)] show ?thesis
      by (auto simp: h_getObject_def decoded_object norm
          split: option.splits if_splits)
  qed (use that res in auto)
  with same s' show "sinv s' \<and> sview s' = sview s \<and> (\<forall>m. res = Inr m \<longrightarrow> object_param k \<longrightarrow> vw_object (sview s) b k = Some m)"
    by blast
  assume c: "sys_calm net s" and k: "object_param k" and o: "vw_object (sview s) b k = Some m"
  from d call_object(1)[OF assms(2) k, of B NoReqBody] show "sys_calm net s' \<and> res = Inr m"
  proof (cases rule: meta_do_cases)
    case unsent
    with segmentD(3)[OF assms(2)] k show ?thesis by (simp add: url_parse_safe safe_simps object_param_def)
  next
    case lost
    with sys_calm_now[OF c] show ?thesis by simp
  next
    case (served r' d')
    with o s' res sys_calm_now[OF c] get[OF k] show ?thesis
      by (auto simp: h_getObject_def decoded_object norm calm_at_db[OF c] simp flip: at_db_def)
  qed
qed

text \<open>A request that changes the database keeps the invariant, whatever comes of it.\<close>

lemma serve_inv:
  assumes "sinv s" and "request_ok q" and "meta_serve B (nt_meta net n) q (sys_meta s) = (r, d)"
    and "names_ok B d"
  shows "sinv (at_db s d)"
  using assms meta_serve_inv[OF _ env_ok_net, of "sys_meta s" q n] by (simp add: sys_inv_def)

lemma names_ok_less: "names_ok B d \<Longrightarrow> live_bucket B d' = (live_bucket B d)(b := None) \<Longrightarrow> names_ok B d'"
  by (simp add: names_ok_def)

lemma names_ok_same: "names_ok B d \<Longrightarrow> live_bucket B d' = live_bucket B d \<Longrightarrow> names_ok B d'"
  by (simp add: names_ok_def)

lemma sview_object:
  "live_bucket B d = live_bucket B (sys_meta s) \<Longrightarrow>
   live_object B d = (live_object B (sys_meta s))(b := (live_object B (sys_meta s) b)(k := x)) \<Longrightarrow>
     sview (at_db s d) = set_object b k (map_option object_info_of x) (sview s)"
  by (auto simp: sys_view_def set_object_def fun_eq_iff)

lemma MetadataClient_DeleteBucket_spec:
  assumes "sinv s" and "segment b" and run: "MetadataClient_DeleteBucket (meta_transport chi B net) b s = (res, s')"
  shows "sinv s' \<and> (sview s' = sview s \<and> res \<noteq> Inr ()
    \<or> sview s' = set_owner b None (sview s) \<and> (\<forall>k. vw_object (sview s) b k = None))"
proof -
  obtain r s1 where d: "meta_do (meta_transport chi B net) StatusNoContent ''DELETE'' (''/buckets/'' @ b) [] NoReqBody s = (r, s1)"
    by (meson prod.exhaust)
  with run have s': "s' = s1" "res = Inr () \<longleftrightarrow> (\<exists>x. r = Inr x)"
    by (auto simp: MetadataClient_DeleteBucket_def returned_def split: sum.splits)
  have inv: "meta_inv B (sys_meta s)" "names_ok B (sys_meta s)" using assms(1) by (simp_all add: sys_inv_def)
  from d call_bucket(2)[OF assms(2), of B NoReqBody] show ?thesis
  proof (cases rule: meta_do_cases)
    case (served r' d')
    obtain x d2 where x: "DeleteBucket bkts (e_ctx (nt_meta net (sys_calls s))) (e_now (nt_meta net (sys_calls s))) b (sys_meta s) = (x, d2)"
      by fastforce
    show ?thesis
    proof (cases x)
      case (Inl e)
      with x served(1) have "d' = sys_meta s" "status r' \<noteq> StatusNoContent"
        using meta.DeleteBucket_error by (auto simp: h_deleteBucket_def)
      with served(2,3) assms(1) s' show ?thesis by (auto simp flip: at_db_def)
    next
      case (Inr u)
      with x served(1) have d': "d' = d2" by (auto simp: h_deleteBucket_def)
      from meta.DeleteBucket_Inr[OF inv(1) x[unfolded Inr]] d'
      have p: "live_bucket B d' = (live_bucket B (sys_meta s))(b := None)"
        "live_object B d' = live_object B (sys_meta s)" "\<forall>k. live_object B (sys_meta s) b k = None" by auto
      from serve_inv[OF assms(1) _ served(1) names_ok_less[OF inv(2) p(1)]] p served(2) s' show ?thesis
        by (auto simp: request_ok_def sys_view_def set_owner_def fun_eq_iff simp flip: at_db_def)
    qed
  qed (use s' assms(1) in auto)
qed

lemma MetadataClient_DeleteObjectMeta_spec:
  assumes "sinv s" and "segment b"
    and run: "MetadataClient_DeleteObjectMeta (meta_transport chi B net) b k s = (res, s')"
  shows "sinv s' \<and> (sview s' = sview s \<and> res \<noteq> Inr ()
    \<or> (\<exists>k'. sview s' = set_object b k' None (sview s) \<and> (object_param k \<longrightarrow> k' = k)))"
proof -
  let ?txt = "''/buckets/'' @ b @ ''/objects/'' @ k"
  obtain r s1 where d: "meta_do (meta_transport chi B net) StatusNoContent ''DELETE'' ?txt [] NoReqBody s = (r, s1)"
    by (meson prod.exhaust)
  with run have s': "s' = s1" "res = Inr () \<longleftrightarrow> (\<exists>x. r = Inr x)"
    by (auto simp: MetadataClient_DeleteObjectMeta_def returned_def split: sum.splits)
  have inv: "meta_inv B (sys_meta s)" "names_ok B (sys_meta s)" using assms(1) by (simp_all add: sys_inv_def)
  have "\<exists>serve. is_call chi B ''DELETE'' ?txt NoReqBody serve
      \<and> ((\<exists>st. 400 \<le> st \<and> (\<forall>e d. serve e d = (write_header st, d)))
         \<or> (\<exists>k'. (\<forall>e. serve e = meta_serve B e (MDeleteObject b k')) \<and> (object_param k \<longrightarrow> k' = k)))"
    using call_below(2)[OF assms(2), of B k NoReqBody] call_object(2)[OF assms(2), of k B NoReqBody] by blast
  then obtain serve where call: "is_call chi B ''DELETE'' ?txt NoReqBody serve"
    and how: "(\<exists>st. 400 \<le> st \<and> (\<forall>e d. serve e d = (write_header st, d)))
         \<or> (\<exists>k'. (\<forall>e. serve e = meta_serve B e (MDeleteObject b k')) \<and> (object_param k \<longrightarrow> k' = k))" by blast
  from d call show ?thesis
  proof (cases rule: meta_do_cases)
    case (served r' d')
    from how show ?thesis
    proof (elim disjE exE conjE)
      fix st assume "400 \<le> st" "\<forall>e d. serve e d = (write_header st, d)"
      with served assms(1) s' show ?thesis by (auto simp flip: at_db_def)
    next
      fix k' assume k': "\<forall>e. serve e = meta_serve B e (MDeleteObject b k')" "object_param k \<longrightarrow> k' = k"
      note run' = served(1)[unfolded k'(1)[rule_format]]
      obtain x d2 where x: "DeleteObject objts (e_ctx (nt_meta net (sys_calls s))) (e_now (nt_meta net (sys_calls s))) b k' (sys_meta s) = (x, d2)"
        by fastforce
      show ?thesis
      proof (cases x)
        case (Inl e)
        with x run' have "d' = sys_meta s" "status r' \<noteq> StatusNoContent"
          using meta.DeleteObject_error by (auto simp: h_deleteObject_def)
        with served(2,3) assms(1) s' show ?thesis by (auto simp flip: at_db_def)
      next
        case (Inr u)
        with x run' have d': "d' = d2" by (auto simp: h_deleteObject_def)
        from meta.DeleteObject_Inr[OF inv(1) x[unfolded Inr]] d'
        have p: "live_bucket B d' = live_bucket B (sys_meta s)"
          "live_object B d' = (live_object B (sys_meta s))(b := (live_object B (sys_meta s) b)(k' := None))" by auto
        from serve_inv[OF assms(1) _ run' names_ok_same[OF inv(2) p(1)]] sview_object[OF p] served(2) s' k'(2)
        show ?thesis by (auto simp: request_ok_def simp flip: at_db_def)
      qed
    qed
  qed (use s' assms(1) in auto)
qed

lemma MetadataClient_PutObjectMeta_spec:
  assumes "sinv s" and "segment (oiBucket ob)"
    and run: "MetadataClient_PutObjectMeta (meta_transport chi B net) ob s = (res, s')"
  shows "sinv s' \<and> (sview s' = sview s \<and> (\<forall>m. res \<noteq> Inr m)
    \<or> (\<exists>m. stored_as ob m \<and> sview s' = set_object (oiBucket ob) (oiKey m) (Some m) (sview s)
         \<and> (\<forall>m'. res = Inr m' \<longrightarrow> m' = m)))"
proof -
  let ?b = "oiBucket ob" and ?n = "sys_calls s"
  let ?j = "JObj [(''key'', jstr (oiKey ob)), (''size_bytes'', JInt (sint (oiSizeBytes ob))),
    (''etag'', jstr (oiETag ob)), (''content_type'', jstr (oiContentType ob)), (''storage_ref'', jstr (oiStorageRef ob))]"
  obtain r s1 where d: "meta_do (meta_transport chi B net) StatusCreated ''POST'' (''/buckets/'' @ ?b @ ''/objects'')
      json_content (JsonReq ?j) s = (r, s1)"
    by (meson prod.exhaust)
  with run have s': "s' = s1" and res: "res = (case r of Inl e \<Rightarrow> Inl e | Inr resp \<Rightarrow>
      map_sum id toObjectInfo (decoded client_objectResponse_fields zero_objectResponse resp))"
    by (auto simp: MetadataClient_PutObjectMeta_def returned_def split: sum.splits)
  have inv: "meta_inv B (sys_meta s)" "names_ok B (sys_meta s)" using assms(1) by (simp_all add: sys_inv_def)
  from d call_put[OF assms(2), of B ?j] show ?thesis
  proof (cases rule: meta_do_cases)
    case (served r' d')
    obtain x d2 where x: "PutObject objts bkts (e_ctx (nt_meta net ?n)) (e_now (nt_meta net ?n)) (e_uuid (nt_meta net ?n)) ?b
        (utf8_fix (oiKey ob)) (oiSizeBytes ob) (utf8_fix (oiETag ob)) (utf8_fix (oiContentType ob))
        (utf8_fix (oiStorageRef ob)) (sys_meta s) = (x, d2)" by fastforce
    show ?thesis
    proof (cases x)
      case (Inl e)
      with x served(1) have "d' = sys_meta s" "status r' \<noteq> StatusCreated"
        using meta.PutObject_error by (auto simp: h_putObject_def decode_putObjectRequest)
      with served(2,3) assms(1) s' res show ?thesis by (auto simp flip: at_db_def)
    next
      case (Inr st)
      with x served(1) have d': "d' = d2" "r' = write_json StatusCreated (objectResponse_json (toObjectResponse st))"
        by (auto simp: h_putObject_def decode_putObjectRequest)
      from meta.PutObject_Inr[OF inv(1) x[unfolded Inr]] d'(1)
      have p: "live_bucket B d' = live_bucket B (sys_meta s)" "live_bucket B (sys_meta s) ?b \<noteq> None"
        "live_object B d' = (live_object B (sys_meta s))(?b := (live_object B (sys_meta s) ?b)
            (utf8_fix (oiKey ob) := Some (norm_object st)))"
        "st = (put_object_record (e_uuid (nt_meta net ?n)) ?b (utf8_fix (oiKey ob)) (oiSizeBytes ob) (utf8_fix (oiETag ob))
            (utf8_fix (oiContentType ob)) (utf8_fix (oiStorageRef ob)))\<lparr>oCreatedAt := e_now (nt_meta net ?n)\<rparr>" by auto
      from inv(2) p(2) have "valid_utf8 ?b" using bucket_name_segment(3) by (auto simp: names_ok_def)
      with p(4) have m: "stored_as ob (object_info_of (norm_object st))"
        by (simp add: stored_as_def object_info_of_def put_object_record_def)
      have q: "request_ok (MPutObject ?b (Some ?j))" by (simp add: request_ok_def jstr_def valid_utf8_ascii byte_in_def)
      from serve_inv[OF assms(1) q served(1) names_ok_same[OF inv(2) p(1)]] sview_object[OF p(1,3)] served(2) s'
      have v: "sinv s'" "sview s' = set_object ?b (oiKey (object_info_of (norm_object st)))
          (Some (object_info_of (norm_object st))) (sview s)"
        using m by (simp_all add: stored_as_def flip: at_db_def)
      have "m' = object_info_of (norm_object st)" if "res = Inr m'" for m'
        using that served(3) res d'(2) by (auto simp: decoded_object)
      with v m show ?thesis by blast
    qed
  qed (use s' res assms(1) in auto)
qed

end

end
