(* ===== verification/Api_Deployment.thy ===== *)
theory Api_Deployment
  imports Api_Compose
begin

text \<open>
  The data client of api-service over data-service, and with it the whole deployment as an instance
  of the contract of the upstream clients.
\<close>

section \<open>Calls to data-service\<close>

lemma send_data_cases:
  fixes s :: "'d system"
  assumes run: "send (data_transport chi base net) mth txt hdr bdy s = (res, s')"
  obtains (unsent) x where "res = Inl x" "url_parse txt = None" "s' = s"
    | (lost) x where "res = Inl x" "s' = counted s" "nt_fault net (sys_calls s) \<noteq> Delivered"
    | (served) u r fs where "url_parse txt = Some u"
        "data_http chi base (nt_data net (sys_calls s))
           \<lparr>hc_method = mth, hc_url = u, hc_header = hdr, hc_body = bdy\<rparr> (sys_fs s) = (r, fs)"
        "s' = (counted s)\<lparr>sys_fs := fs\<rparr>"
        "(\<exists>x. res = Inl x \<and> nt_fault net (sys_calls s) \<noteq> Delivered) \<or> res = Inr r
          \<or> (\<exists>n. res = Inr (r\<lparr>body := cut_body n (body r)\<rparr>) \<and> nt_fault net (sys_calls s) \<noteq> Delivered)"
proof (cases "url_parse txt")
  case None
  with run show ?thesis by (auto simp: send_def intro: unsent)
next
  case (Some u)
  let ?c = "\<lparr>hc_method = mth, hc_url = u, hc_header = hdr, hc_body = bdy\<rparr>"
  let ?f = "nt_fault net (sys_calls s)" and ?e = "nt_data net (sys_calls s)"
  obtain x s1 where t: "exchange ?f (at_data chi base ?e ?c) (counted s) = (x, s1)" by fastforce
  from run Some t have s': "s' = s1"
    by (auto simp: send_def data_transport_def split: sum.splits if_splits)
  from t show ?thesis
  proof (cases rule: exchange_cases)
    case lost
    then have "?f \<noteq> Delivered" using t by (cases ?f) (auto split: prod.splits)
    with run Some t lost s' show ?thesis by (auto simp: send_def data_transport_def intro: that(2))
  next
    case (served r)
    obtain r' fs where m: "data_http chi base ?e ?c (sys_fs s) = (r', fs)" by fastforce
    with served(1) have r: "r' = r" "s1 = (counted s)\<lparr>sys_fs := fs\<rparr>" by (auto simp: at_data_def)
    have "(\<exists>x. res = Inl x \<and> ?f \<noteq> Delivered) \<or> res = Inr r
          \<or> (\<exists>n. res = Inr (r\<lparr>body := cut_body n (body r)\<rparr>) \<and> ?f \<noteq> Delivered)"
    proof (cases "?f = Delivered")
      case True
      with served(3) have "x = Inr r" by simp
      with run Some t show ?thesis by (auto simp: send_def data_transport_def)
    next
      case False
      with served(2) run Some t show ?thesis by (auto simp: send_def data_transport_def)
    qed
    with Some m r s' show ?thesis by (intro that(3)) auto
  qed
qed

lemma decode_upload_out:
  "int64_ok (int n) \<Longrightarrow> decode_struct upload_out_fields False (upload_json h n b) \<lparr>uoHash = [], uoSize = 0\<rparr>
     = (\<lparr>uoHash = utf8_fix h, uoSize = word_of_int (int n)\<rparr>, None)"
  "\<not> int64_ok (int n) \<Longrightarrow> \<exists>x e. decode_struct upload_out_fields False (upload_json h n b) \<lparr>uoHash = [], uoSize = 0\<rparr>
     = (x, Some e)"
  by (auto simp: upload_out_fields_def upload_json_def json_decode_simps to_lower_def byte_in_def)

lemma sha256_hex_segment: "good_hash h \<Longrightarrow> segment h \<and> valid_utf8 h"
proof -
  assume h: "good_hash h"
  then have c: "\<forall>c \<in> set h. hex_char c" and l: "h \<noteq> []" by (auto simp: good_hash_def list_all_iff)
  have "\<forall>c \<in> set h. c \<noteq> CHR ''/'' \<and> c \<noteq> CHR ''%'' \<and> c \<noteq> CHR ''?'' \<and> c \<noteq> CHR ''#'' \<and> \<not> ctl c \<and> byte_in 0 127 c"
    using c by (auto simp: hex_char_def byte_in_def ctl_def)
  then have "CHR ''/'' \<notin> set h" "url_safe h" "valid_utf8 h"
    unfolding url_safe_def by (blast, blast, simp add: valid_utf8_ascii)
  with l show ?thesis by (simp add: segment_def)
qed

lemma safe_namespaces: "url_safe b \<Longrightarrow> url_safe (''/namespaces/'' @ b @ ''/objects'')"
  "url_safe b \<Longrightarrow> url_safe (''/namespaces/'' @ b @ ''/objects/'')"
  by (simp_all add: safe_simps)

context chi_router
begin

lemma data_http_upload:
  assumes "segment b" and "url_parse (''/namespaces/'' @ b @ ''/objects'') = Some u"
  shows "data_http chi base e \<lparr>hc_method = ''POST'', hc_url = u, hc_header = hdr, hc_body = StreamReq r\<rparr> fs
    = HandleUpload (LocalStore base) e b r fs"
  using assms(2) data_route[OF assms(1)] safe_namespaces(1)[OF segmentD(3)[OF assms(1)]]
    route_path_safe[of "''/namespaces/'' @ b @ ''/objects''" "[]"] segmentD(3)[OF assms(1)]
  by (auto simp: url_parse_safe data_http_def wire_query_ok_def data_requests_def)

lemma data_http_blob:
  assumes "segment b" and "segment h" and "url_parse (''/namespaces/'' @ b @ ''/objects/'' @ h) = Some u"
  shows "data_http chi base e \<lparr>hc_method = ''GET'', hc_url = u, hc_header = hdr, hc_body = NoReqBody\<rparr> fs
      = (HandleDownload (LocalStore base) e b h fs, fs)"
    "data_http chi base e \<lparr>hc_method = ''DELETE'', hc_url = u, hc_header = hdr, hc_body = NoReqBody\<rparr> fs
      = HandleDelete (LocalStore base) e b h fs"
  using assms(3) data_route_blob[OF assms(1,2)] segmentD(3)[OF assms(1)] segmentD(3)[OF assms(2)]
    safe_namespaces(2)[OF segmentD(3)[OF assms(1)]]
    route_path_safe[of "''/namespaces/'' @ b @ ''/objects/'' @ h" "[]"]
  by (auto simp: url_parse_safe data_http_def wire_query_ok_def data_requests_def safe_simps)

text \<open>Whatever hash is in the URL, only a blob of this namespace can be meant.\<close>

lemma data_http_below:
  assumes "segment b" and "url_parse (''/namespaces/'' @ b @ ''/objects/'' @ h) = Some u"
  shows "snd (data_http chi base e \<lparr>hc_method = ''GET'', hc_url = u, hc_header = hdr, hc_body = bdy\<rparr> fs) = fs"
    and "(\<exists>st. 400 \<le> st \<and> data_http chi base e \<lparr>hc_method = ''DELETE'', hc_url = u, hc_header = hdr, hc_body = bdy\<rparr> fs
        = (write_header st, fs))
      \<or> (\<exists>h'. slash_free h' \<and> data_http chi base e \<lparr>hc_method = ''DELETE'', hc_url = u, hc_header = hdr, hc_body = bdy\<rparr> fs
        = HandleDelete (LocalStore base) e b h' fs)"
proof -
  have "2 \<le> length (''/namespaces/'' @ b @ ''/objects/'')" by simp
  from route_path_prefix[OF safe_namespaces(2)[OF segmentD(3)[OF assms(1)]] this, of h u] assms(2)
  obtain h' where h': "route_path u = ''/namespaces/'' @ b @ ''/objects/'' @ h'" by auto
  show "snd (data_http chi base e \<lparr>hc_method = ''GET'', hc_url = u, hc_header = hdr, hc_body = bdy\<rparr> fs) = fs"
  proof (cases "chi data_routes ''GET'' (route_path u)")
    case (Inr ip)
    obtain i ps where ip: "ip = (i, ps)" by fastforce
    from data_route_below[OF assms(1) Inr[unfolded ip h']] Inr ip show ?thesis
      by (simp add: data_http_def data_requests_def)
  qed (simp add: data_http_def)
  show "(\<exists>st. 400 \<le> st \<and> data_http chi base e \<lparr>hc_method = ''DELETE'', hc_url = u, hc_header = hdr, hc_body = bdy\<rparr> fs
        = (write_header st, fs))
      \<or> (\<exists>h'. slash_free h' \<and> data_http chi base e \<lparr>hc_method = ''DELETE'', hc_url = u, hc_header = hdr, hc_body = bdy\<rparr> fs
        = HandleDelete (LocalStore base) e b h' fs)"
  proof (cases "wire_query_ok u")
    case False
    then show ?thesis by (intro disjI1 exI[of _ StatusBadRequest]) (simp add: data_http_def)
  next
    case True
    show ?thesis
    proof (cases "chi data_routes ''DELETE'' (route_path u)")
      case (Inl st)
      with chi_status[OF Inl] True show ?thesis
        by (intro disjI1 exI[of _ st]) (auto simp: data_http_def)
    next
      case (Inr ip)
      obtain i ps where ip: "ip = (i, ps)" by fastforce
      from data_route_below[OF assms(1) Inr[unfolded ip h']] Inr ip True show ?thesis
        by (intro disjI2 exI[of _ h']) (simp add: data_http_def data_requests_def slash_free_def)
    qed
  qed
qed

end

section \<open>The data client keeps the contract\<close>

context deployment
begin

text \<open>The new state of the file system, the rest as it was.\<close>

definition at_fs :: "'d system \<Rightarrow> fsys \<Rightarrow> 'd system" where
  "at_fs s fs = (counted s)\<lparr>sys_fs := fs\<rparr>"

lemma at_fs_sel [simp]:
  "sys_meta (at_fs s fs) = sys_meta s" "sys_fs (at_fs s fs) = fs" "sys_calls (at_fs s fs) = Suc (sys_calls s)"
  by (simp_all add: at_fs_def)

lemma calm_at_fs: "sys_calm net s \<Longrightarrow> sys_calm net (at_fs s fs)"
  by (rule sys_calm_counted) simp_all

lemma at_fs_same [simp]: "sview (at_fs s (sys_fs s)) = sview s" "sinv (at_fs s (sys_fs s)) = sinv s"
  by (simp_all add: sys_view_def sys_inv_def)

lemma at_fs_view:
  "sinv s \<Longrightarrow> store_ok base fs \<Longrightarrow> sinv (at_fs s fs)"
  "blob base fs = blob base (sys_fs s) \<Longrightarrow> sview (at_fs s fs) = sview s"
  "blob base fs = (blob base (sys_fs s))(b := (blob base (sys_fs s) b)(h := x)) \<Longrightarrow>
     sview (at_fs s fs) = set_blob b h x (sview s)"
  by (simp_all add: sys_inv_def sys_view_def set_blob_def)

lemma DataClient_Write_spec:
  assumes "sinv s" and "segment b" and "plain b"
    and run: "DataClient_Write (data_transport chi base net) b r s = (res, s')"
  shows "sinv s' \<and> (sview s' = sview s \<and> (\<forall>x. res \<noteq> Inr x)
    \<or> sview s' = set_blob b (sha256_hex (u_data r)) (Some (u_data r)) (sview s) \<and> u_error r = None
       \<and> (\<forall>h n. res = Inr (h, n) \<longrightarrow> h = sha256_hex (u_data r) \<and> n = word_of_int (int (length (u_data r)))))"
proof -
  obtain x s1 where d: "send (data_transport chi base net) ''POST'' (''/namespaces/'' @ b @ ''/objects'') [] (StreamReq r) s = (x, s1)"
    by (meson prod.exhaust)
  with run have s': "s' = s1" and res: "\<And>y. res = Inr y \<Longrightarrow> u_error r = None \<and> (\<exists>resp. x = Inr resp \<and> status resp = StatusCreated
      \<and> map_sum id (\<lambda>out. (uoHash out, uoSize out)) (decoded upload_out_fields \<lparr>uoHash = [], uoSize = 0\<rparr> resp) = Inr y)"
    by (auto simp: DataClient_Write_def returned_def split: sum.splits if_splits)
  have ok: "store_ok base (sys_fs s)" using assms(1) by (simp add: sys_inv_def)
  have sf: "slash_free b" "b \<noteq> []" using assms(3) by (auto simp: plain_def slash_free_def)
  from d show ?thesis
  proof (cases rule: send_data_cases)
    case (served u r' fs)
    note up = served(2)[unfolded data_http_upload[OF assms(2) served(1)]]
    obtain w fs2 where w: "bk_write (LocalStore base) (nt_data net (sys_calls s)) b r (sys_fs s) = (w, fs2)" by fastforce
    show ?thesis
    proof (cases w)
      case (Inl e)
      with w up sf(2) have "fs = fs2" "status r' \<noteq> StatusCreated"
        by (auto simp: HandleUpload_def data_writeError_def recovered_def split: data_error.splits)
      with localfs.bwrite_Inl[OF ok sf(1) w[unfolded Inl]] at_fs_view[where s = s and fs = fs] assms(1) served(3,4) s' res
      show ?thesis by (auto simp flip: at_fs_def)
    next
      case (Inr hn)
      obtain h n where hn: "hn = (h, n)" by fastforce
      with Inr w up sf(2) have fs: "fs = fs2" "r' = write_json StatusCreated (upload_json h n b)"
        by (auto simp: HandleUpload_def)
      from localfs.bwrite_Inr[OF ok sf(1) w[unfolded Inr hn]] assms(3)
      have p: "store_ok base fs2" "u_error r = None" "h = sha256_hex (u_data r)" "n = length (u_data r)"
        "blob base fs2 = (blob base (sys_fs s))(b := (blob base (sys_fs s) b)(h := Some (u_data r)))" by auto
      have u: "utf8_fix h = h" using sha256_hex_segment[of h] p(3) by simp
      have "h' = h \<and> n' = word_of_int (int n)" if "res = Inr (h', n')" for h' n'
      proof -
        from res[OF that] served(4) fs(2) obtain resp where
          resp: "resp = r' \<or> (\<exists>k. resp = r'\<lparr>body := cut_body k (body r')\<rparr>)"
          "map_sum id (\<lambda>out. (uoHash out, uoSize out)) (decoded upload_out_fields \<lparr>uoHash = [], uoSize = 0\<rparr> resp) = Inr (h', n')"
          by auto
        with fs(2) have "map_sum id (\<lambda>out. (uoHash out, uoSize out))
          (decoded upload_out_fields \<lparr>uoHash = [], uoSize = 0\<rparr> (write_json StatusCreated (upload_json h n b))) = Inr (h', n')"
          by auto
        with decode_upload_out[of n h b] u show ?thesis
          by (cases "int64_ok (int n)") (auto simp: decoded_def decode_body_def)
      qed
      with p fs(1) at_fs_view[where s = s and fs = fs] assms(1) served(3) s' show ?thesis by (auto simp flip: at_fs_def)
    qed
  qed (use s' res assms(1) in auto)
qed

lemma calm_send:
  fixes s :: "'d system"
  assumes "sys_calm net s"
  shows "send (data_transport chi base net) mth txt hdr bdy s = (res, s') \<Longrightarrow> sys_calm net s'"
    and "send (meta_transport chi B net) mth txt hdr bdy s = (res, s') \<Longrightarrow> sys_calm net s'"
proof -
  show "send (data_transport chi base net) mth txt hdr bdy s = (res, s') \<Longrightarrow> sys_calm net s'"
  proof (erule send_data_cases, goal_cases)
    case (3 u r fs)
    then show ?case using calm_at_fs[OF assms] by (simp add: at_fs_def)
  qed (use assms calm_counted[OF assms] in simp_all)
  assume "send (meta_transport chi B net) mth txt hdr bdy s = (res, s')"
  then have "sys_calls s' = sys_calls s \<or> sys_calls s' = Suc (sys_calls s)"
    by (auto simp: send_def meta_transport_def at_meta_def split: option.splits sum.splits prod.splits
        elim!: exchange_cases)
  with assms show "sys_calm net s'" by (auto simp: sys_calm_def)
qed

lemma DataClient_Read_spec:
  assumes "sinv s" and "segment b" and "plain b"
    and run: "DataClient_Read (data_transport chi base net) b h s = (res, s')"
  shows "sinv s' \<and> sview s' = sview s
      \<and> (\<forall>x. res = Inr x \<longrightarrow> good_hash h \<longrightarrow> (case vw_blob (sview s) b h of Some d \<Rightarrow> prefix x d | None \<Rightarrow> x = []))"
    and "sys_calm net s \<Longrightarrow> vw_blob (sview s) b h = Some d \<Longrightarrow> sys_calm net s' \<and> res = Inr d"
proof -
  let ?txt = "''/namespaces/'' @ b @ ''/objects/'' @ h" and ?e = "nt_data net (sys_calls s)"
  obtain x s1 where c: "send (data_transport chi base net) ''GET'' ?txt [] NoReqBody s = (x, s1)"
    by (meson prod.exhaust)
  with run have s': "s' = s1" and res: "res = (case x of Inl e \<Rightarrow> Inl e | Inr resp \<Rightarrow>
      if status resp = StatusNotFound then Inl (NotFoundError ''object data'')
      else if status resp \<noteq> StatusOK then Inl (dataServiceError resp ''data-service download failed'')
      else Inr (stream resp))"
    by (auto simp: DataClient_Read_def returned_def split: sum.splits)
  have ok: "store_ok base (sys_fs s)" using assms(1) by (simp add: sys_inv_def)
  have same: "sinv s' \<and> sview s' = sview s" using c
  proof (cases rule: send_data_cases)
    case (served u r' fs)
    from data_http_below(1)[OF assms(2) served(1), of base ?e "[]" NoReqBody "sys_fs s"] served(2) have "fs = sys_fs s" by simp
    with served(3) s' assms(1) show ?thesis by (simp flip: at_fs_def)
  qed (use s' assms(1) in simp_all)
  have down: "(\<exists>d. vw_blob (sview s) b h = Some d \<and> r = \<lparr>status = StatusOK, headers = [(''Content-Type'', ''application/octet-stream'')], body = RawBody d\<rparr>)
      \<or> vw_blob (sview s) b h = None \<and> body r = RawBody []"
    if "good_hash h" "HandleDownload (LocalStore base) ?e b h (sys_fs s) = r" "status r = StatusOK" for r
  proof -
    from that(2,3) obtain fl where f: "LocalStore_Read base ?e b h (sys_fs s) = Inr fl"
      "r = \<lparr>status = StatusOK, headers = [(''Content-Type'', ''application/octet-stream'')],
        body = RawBody (case fl of Regular data \<Rightarrow> data | Directory \<Rightarrow> [])\<rparr>"
      by (auto simp: HandleDownload_def recovered_def data_writeError_def split: sum.splits data_error.splits)
    then have nf: "\<not> de_fail ?e 0" by (auto simp: LocalStore_Read_def split: option.splits if_splits)
    show ?thesis
    proof (cases "vw_blob (sview s) b h")
      case None
      with localfs.bread_None[OF ok assms(3) that(1), of ?e] f show ?thesis by (cases fl) auto
    next
      case (Some d)
      with localfs.bread_Some[OF ok nf, of b h d] f show ?thesis by auto
    qed
  qed
  have "case vw_blob (sview s) b h of Some d \<Rightarrow> prefix y d | None \<Rightarrow> y = []" if y: "res = Inr y" "good_hash h" for y
    using c
  proof (cases rule: send_data_cases)
    case (served u r' fs)
    from sha256_hex_segment[OF y(2)] have seg: "segment h" by simp
    from data_http_blob(1)[OF assms(2) seg served(1)] served(2)
    have r': "HandleDownload (LocalStore base) ?e b h (sys_fs s) = r'" by auto
    from y(1) res served(4) have "status r' = StatusOK" by (auto split: sum.splits if_splits)
    from down[OF y(2) r' this] y(1) res served(4) show ?thesis
      by (auto simp: stream_def split: sum.splits if_splits) (simp_all add: take_is_prefix)
  qed (use y res in auto)
  with same show "sinv s' \<and> sview s' = sview s
      \<and> (\<forall>x. res = Inr x \<longrightarrow> good_hash h \<longrightarrow> (case vw_blob (sview s) b h of Some d \<Rightarrow> prefix x d | None \<Rightarrow> x = []))"
    by blast
  assume calm: "sys_calm net s" and blob: "vw_blob (sview s) b h = Some d"
  then have gh: "good_hash h" by (auto simp: blob_def split: if_splits)
  from sha256_hex_segment[OF gh] have seg: "segment h" by simp
  from c have "res = Inr d"
  proof (cases rule: send_data_cases)
    case unsent
    with segmentD(3)[OF assms(2)] segmentD(3)[OF seg] show ?thesis by (simp add: url_parse_safe safe_simps)
  next
    case lost
    with sys_calm_now[OF calm] show ?thesis by simp
  next
    case (served u r' fs)
    have "\<not> de_fail ?e 0" using sys_calm_now[OF calm] by (simp add: no_faults_def)
    from localfs.bread_Some[OF ok this, of b h d] blob data_http_blob(1)[OF assms(2) seg served(1)] served(2,4)
      sys_calm_now[OF calm] res
    show ?thesis by (auto simp: HandleDownload_def stream_def)
  qed
  with calm_send(1)[OF calm c] s' show "sys_calm net s' \<and> res = Inr d" by simp
qed

text \<open>Deleting reports an error only for another reason than a missing file.\<close>

lemma LocalStore_Delete_Inl:
  "LocalStore_Delete base env ns h fs = (Inl e, fs') \<Longrightarrow> e = Panic \<or> (\<exists>x. e = OsErr x \<and> \<not> os_is_not_exist x)"
  by (auto simp: LocalStore_Delete_def split: option.splits prod.splits sum.splits if_splits)

lemma DataClient_Delete_spec:
  assumes "sinv s" and "segment b" and "plain b"
    and run: "DataClient_Delete (data_transport chi base net) b h s = (res, s')"
  shows "sinv s' \<and> (sview s' = sview s \<and> res \<noteq> Inr ()
    \<or> (\<exists>h'. sview s' = set_blob b h' None (sview s) \<and> (good_hash h \<longrightarrow> h' = h)))"
    and "sys_calm net s \<Longrightarrow> vw_blob (sview s) b h = Some d \<Longrightarrow> res = Inr ()"
proof -
  let ?txt = "''/namespaces/'' @ b @ ''/objects/'' @ h" and ?e = "nt_data net (sys_calls s)"
  obtain x s1 where c: "send (data_transport chi base net) ''DELETE'' ?txt [] NoReqBody s = (x, s1)"
    by (meson prod.exhaust)
  with run have s': "s' = s1" and res: "res = Inr () \<longleftrightarrow> (\<exists>resp. x = Inr resp \<and> status resp = StatusNoContent)"
    by (auto simp: DataClient_Delete_def returned_def split: sum.splits if_splits)
  have ok: "store_ok base (sys_fs s)" using assms(1) by (simp add: sys_inv_def)
  have sf: "slash_free b" using assms(3) by (auto simp: plain_def slash_free_def)
  show "sinv s' \<and> (sview s' = sview s \<and> res \<noteq> Inr ()
    \<or> (\<exists>h'. sview s' = set_blob b h' None (sview s) \<and> (good_hash h \<longrightarrow> h' = h)))"
    using c
  proof (cases rule: send_data_cases)
    case (served u r' fs)
    have "(\<exists>st. 400 \<le> st \<and> r' = write_header st \<and> fs = sys_fs s)
      \<or> (\<exists>h'. slash_free h' \<and> HandleDelete (LocalStore base) ?e b h' (sys_fs s) = (r', fs) \<and> (good_hash h \<longrightarrow> h' = h))"
    proof (cases "good_hash h")
      case True
      with sha256_hex_segment[OF True] have seg: "segment h" "slash_free h" by (auto simp: segment_def slash_free_def)
      with data_http_blob(2)[OF assms(2) seg(1) served(1)] served(2) show ?thesis by auto
    next
      case False
      with data_http_below(2)[OF assms(2) served(1), of base ?e "[]" NoReqBody "sys_fs s"] served(2)
      show ?thesis by auto
    qed
    then show ?thesis
    proof (elim disjE exE conjE)
      fix st assume "400 \<le> st" "r' = write_header st" "fs = sys_fs s"
      with served(3,4) s' res assms(1) show ?thesis by (auto simp flip: at_fs_def)
    next
      fix h' assume h': "slash_free h'" "HandleDelete (LocalStore base) ?e b h' (sys_fs s) = (r', fs)"
        "good_hash h \<longrightarrow> h' = h"
      obtain w fs2 where w: "bk_delete (LocalStore base) ?e b h' (sys_fs s) = (w, fs2)" by fastforce
      show ?thesis
      proof (cases w)
        case (Inl e)
        from LocalStore_Delete_Inl w Inl have "e = Panic \<or> (\<exists>x. e = OsErr x \<and> \<not> os_is_not_exist x)" by simp
        with Inl w h'(2) have "fs = fs2" "status r' \<noteq> StatusNoContent"
          by (auto simp: HandleDelete_def data_writeError_def recovered_def)
        with localfs.bdelete_Inl[OF w[unfolded Inl]] served(3,4) s' res assms(1)
        show ?thesis by (auto simp flip: at_fs_def)
      next
        case (Inr z)
        with w h'(2) have "fs = fs2" by (auto simp: HandleDelete_def)
        with localfs.bdelete_Inr[OF ok sf h'(1) w[unfolded Inr]]
        have p: "store_ok base fs" "blob base fs = (blob base (sys_fs s))(b := (blob base (sys_fs s) b)(h' := None))"
          by auto
        from at_fs_view(1)[OF assms(1) p(1)] at_fs_view(3)[OF p(2)] served(3) s' h'(3)
        show ?thesis by (auto simp flip: at_fs_def)
      qed
    qed
  qed (use s' res assms(1) in auto)
  assume calm: "sys_calm net s" and blob: "vw_blob (sview s) b h = Some d"
  then have gh: "good_hash h" by (auto simp: blob_def split: if_splits)
  from sha256_hex_segment[OF gh] have seg: "segment h" by simp
  from c show "res = Inr ()"
  proof (cases rule: send_data_cases)
    case unsent
    with segmentD(3)[OF assms(2)] segmentD(3)[OF seg] show ?thesis by (simp add: url_parse_safe safe_simps)
  next
    case lost
    with sys_calm_now[OF calm] show ?thesis by simp
  next
    case (served u r' fs)
    have p: "getShardedPath base b h = Some (blob_path base b h)" using assms(3) gh by (simp add: getShardedPath_good)
    have "file_at (sys_fs s) (blob_path base b h) \<noteq> None" using blob by (auto simp: blob_def split: if_splits)
    with Delete_total[OF _ _ p, of "sys_fs s" ?e] ok sys_calm_now[OF calm]
    have "fst (LocalStore_Delete base ?e b h (sys_fs s)) = Inr ()" by (simp add: store_ok_def)
    with data_http_blob(2)[OF assms(2) seg served(1)] served(2,4) sys_calm_now[OF calm] res show ?thesis
      by (auto simp: HandleDelete_def split: prod.splits)
  qed
qed

end

sublocale deployment \<subseteq> upstream: upstream_contract "HTTPMetadataClient (meta_transport chi B net)"
  "HTTPDataClient (data_transport chi base net)" "sys_inv B base" "sys_view B base" "sys_calm net"
proof (unfold_locales, goal_cases)
  case (1 s b found s')
  then show ?case using MetadataClient_GetBucket_spec(1)[of s b found s'] by simp
next
  case (2 s b res s')
  then show ?case using MetadataClient_DeleteBucket_spec[of s b res s'] by simp
next
  case (3 s b p obs s')
  then show ?case using MetadataClient_ListObjects_spec[of s b p obs s'] by simp
next
  case (4 s ob saved s')
  then show ?case using MetadataClient_PutObjectMeta_spec[of s ob saved s'] by simp
next
  case (5 s b k got s')
  then show ?case using MetadataClient_GetObjectMeta_spec(1)[of s b k got s'] by simp
next
  case (6 s b k res s')
  then show ?case using MetadataClient_DeleteObjectMeta_spec[of s b k res s'] by simp
next
  case (7 s b r ref s')
  then show ?case using DataClient_Write_spec[of s b r ref s'] by simp
next
  case (8 s b h bs s')
  then show ?case using DataClient_Read_spec(1)[of s b h bs s'] by simp
next
  case (9 s b h res s')
  then show ?case using DataClient_Delete_spec(1)[of s b h res s'] by simp
next
  case (10 s b)
  then show ?case using bucket_name_segment[of b] by (auto simp: sys_inv_def names_ok_def)
next
  case (11 s b h d)
  then show ?case by (simp add: sys_inv_def store_ok_def)
next
  case (12 s b u found s')
  then have "segment b" using bucket_name_segment[of b] by (auto simp: sys_inv_def names_ok_def)
  with 12 show ?case using MetadataClient_GetBucket_spec(2)[of s b found s' u] by simp
next
  case (13 s b k m got s')
  then show ?case using MetadataClient_GetObjectMeta_spec(2)[of s b k got s' m] by simp
next
  case (14 s b h d bs s')
  then show ?case using DataClient_Read_spec(2)[of s b h bs s' d] by simp
next
  case (15 s b r ref s')
  then show ?case using calm_send(1)[OF 15(1)]
    by (auto simp: DataClient_Write_def returned_def split: prod.splits sum.splits)
next
  case (16 s ob saved s')
  then show ?case using calm_send(2)[OF 16(1)]
    by (auto simp: MetadataClient_PutObjectMeta_def meta_do_def returned_def split: prod.splits sum.splits if_splits)
next
  case (17 s b h d res s')
  then show ?case using DataClient_Delete_spec(2)[of s b h res s' d] by simp
qed

end
