(* ===== verification/Api_Runs.thy ===== *)
theory Api_Runs
  imports Api_Deployment
begin

text \<open>
  Runs of the composed system: every call of api-service is a request that metadata-service or
  data-service serves, so the states the system reaches are states both services reach, and the
  invariant of the deployment holds in all of them.
\<close>

section \<open>Bucket names\<close>

lemma spec_step_names:
  "spec_step ev a a' \<Longrightarrow> \<forall>b. abs_buckets a b \<noteq> None \<longrightarrow> re_match bucketNameRE b \<Longrightarrow>
     \<forall>b. abs_buckets a' b \<noteq> None \<longrightarrow> re_match bucketNameRE b"
  by (induction rule: spec_step.induct) auto

context bolt_store
begin

lemma meta_reachable_names: "meta_reachable B d \<Longrightarrow> names_ok B d"
proof (induction rule: meta_reachable.induct)
  case (created d0 path mkdir d)
  have "bget B d b k = None" if "b \<noteq> BoltBucketMeta" for b k
    using bootstrap_keeps[OF meta_open_bootstrap[OF created(2)]] that created(1) by (auto simp: empty_db_def)
  then have "live_bucket B d n = None" for n by (intro live_bucket_missing) (simp add: bolt_buckets_distinct)
  then show ?case by (simp add: names_ok_def)
next
  case (served d e r resp d')
  from meta_serve_simulates[OF meta_reachable_inv[OF served(1)] served(2-4)]
  obtain ev where "spec_step ev (meta_view B d) (meta_view B d')" by (auto simp: simulates_def)
  from spec_step_names[OF this] served.IH show ?case by (simp add: names_ok_def meta_view_def)
next
  case (reopened d path mkdir d')
  have "bget B d' b k = bget B d b k" if "b \<noteq> BoltBucketMeta" for b k
    using bootstrap_keeps[OF meta_open_bootstrap[OF reopened(2)]] that by blast
  then have "live_bucket B d' = live_bucket B d" by (intro live_bucket_cong) (simp add: bolt_buckets_distinct)
  with reopened.IH show ?case by (simp add: names_ok_def)
qed

end

section \<open>States both services reach\<close>

definition sys_reachable :: "'d bolt \<Rightarrow> path \<Rightarrow> 'd system \<Rightarrow> bool" where
  "sys_reachable B base s \<longleftrightarrow> meta_reachable B (sys_meta s) \<and> data_reachable base (sys_fs s)"

fun body_ok :: "req_body \<Rightarrow> bool" where
  "body_ok (JsonReq j) = json_utf8 j"
| "body_ok _ = True"

lemma meta_requests_ok:
  "body_ok bdy \<Longrightarrow> i < 12 \<Longrightarrow> request_ok (meta_requests ps q (req_json bdy) ! i)"
  by (cases bdy) (auto simp: meta_requests_def request_ok_def req_json_def less_Suc_eq numeral_eq_Suc nth_Cons')

lemma route_hits_nth:
  "(i, ps) \<in> set (route_hits n rs m p) \<Longrightarrow>
     n \<le> i \<and> i < n + length rs \<and> pat_match (snd (rs ! (i - n))) p = Some ps"
proof (induction rs arbitrary: n)
  case (Cons r rs)
  obtain m' pat where r: "r = (m', pat)" by fastforce
  with Cons.prems consider "i = n" "pat_match pat p = Some ps" | "(i, ps) \<in> set (route_hits (Suc n) rs m p)"
    by (auto split: option.splits if_splits)
  then show ?case
  proof cases
    case 1
    with r show ?thesis by simp
  next
    case 2
    from Cons.IH[OF this] have "Suc n \<le> i" "i < Suc n + length rs" "pat_match (snd (rs ! (i - Suc n))) p = Some ps"
      by auto
    moreover from this(1) have "i - n = Suc (i - Suc n)" by simp
    ultimately show ?thesis by simp
  qed
qed simp

text \<open>The parameters of a data route have no slash.\<close>

fun captures :: "pat_item list \<Rightarrow> nat" where
  "captures [] = 0"
| "captures (Param # ps) = Suc (captures ps)"
| "captures (_ # ps) = captures ps"

lemma takeWhile_slash [simp]: "CHR ''/'' \<notin> set (takeWhile no_slash v)"
  by (auto simp: no_slash_def dest: set_takeWhileD)

lemma pat_match_params:
  "pat_match pat s = Some ps \<Longrightarrow> Rest \<notin> set pat \<Longrightarrow> Slash \<notin> set pat \<Longrightarrow>
     length ps = captures pat \<and> (\<forall>v \<in> set ps. slash_free v)"
proof (induction pat s arbitrary: ps rule: pat_match.induct)
  case (3 pat s)
  then show ?case by (auto simp: slash_free_def)
qed (auto split: if_splits)

lemma data_requests_ok:
  assumes "(i, ps) \<in> set (route_hits 0 data_routes m p)"
  shows "routed (data_requests ps bdy ! i)"
proof -
  from route_hits_nth[OF assms] have i: "i < 7" and h: "pat_match (snd (data_routes ! i)) p = Some ps"
    by (simp_all add: data_routes_def)
  have "Rest \<notin> set (snd (data_routes ! i))" "Slash \<notin> set (snd (data_routes ! i))"
    using i by (auto simp: data_routes_def less_Suc_eq numeral_eq_Suc)
  from pat_match_params[OF h this] have p: "length ps = captures (snd (data_routes ! i))" "\<forall>v \<in> set ps. slash_free v"
    by auto
  have "i = 4 \<or> i = 5 \<or> i = 6 \<or> i < 4" using i by linarith
  with p show ?thesis
    by (elim disjE)
      (auto simp: data_routes_def data_requests_def less_Suc_eq numeral_eq_Suc)
qed

context deployment
begin

abbreviation (input) "sreach \<equiv> sys_reachable B base"

text \<open>A call that keeps the state reachable.\<close>

definition keeps :: "('d system \<Rightarrow> 'r \<times> 'd system) \<Rightarrow> bool" where
  "keeps c \<longleftrightarrow> (\<forall>s. sreach s \<longrightarrow> sreach (snd (c s)))"

lemma keepsD: "keeps c \<Longrightarrow> sreach s \<Longrightarrow> c s = (res, s') \<Longrightarrow> sreach s'"
  by (metis keeps_def snd_conv)

lemma keepsI: "(\<And>s res s'. sreach s \<Longrightarrow> c s = (res, s') \<Longrightarrow> sreach s') \<Longrightarrow> keeps c"
  by (metis keeps_def prod.collapse)

lemma keeps_exchange:
  assumes "keeps serve" and "sreach s" shows "sreach (snd (exchange f serve s))"
proof -
  obtain r s1 where "serve s = (r, s1)" by fastforce
  with keepsD[OF assms this] assms(2) show ?thesis by (cases f) auto
qed

lemma keeps_at_meta:
  assumes "body_ok bdy"
  shows "keeps (at_meta chi B (nt_meta net n) \<lparr>hc_method = m, hc_url = u, hc_header = h, hc_body = bdy\<rparr>)"
proof (rule keepsI)
  fix s :: "'d system" and res s'
  let ?c = "\<lparr>hc_method = m, hc_url = u, hc_header = h, hc_body = bdy\<rparr>"
  assume s: "sreach s" and run: "at_meta chi B (nt_meta net n) ?c s = (res, s')"
  obtain r d where d: "meta_http chi B (nt_meta net n) ?c (sys_meta s) = (r, d)" by fastforce
  have "meta_reachable B d"
  proof (cases "wire_query_ok u \<and> (\<exists>ip. chi meta_routes m (route_path u) = Inr ip)")
    case True
    then obtain i ps where ip: "chi meta_routes m (route_path u) = Inr (i, ps)" by auto
    have "i < 12" using route_hits_nth[OF chi_sound[OF ip]] by (simp add: meta_routes_def)
    from meta_requests_ok[OF assms this] True d ip s show ?thesis
      by (auto simp: meta_http_def sys_reachable_def intro: served[OF _ env_ok_net])
  next
    case False
    with d s show ?thesis
      by (auto simp: meta_http_def sys_reachable_def split: if_splits sum.splits)
  qed
  with run d s show "sreach s'" by (auto simp: at_meta_def sys_reachable_def)
qed

lemma keeps_at_data: "keeps (at_data chi base e c)"
proof (rule keepsI)
  fix s :: "'d system" and res s'
  assume s: "sreach s" and run: "at_data chi base e c s = (res, s')"
  obtain r fs where d: "data_http chi base e c (sys_fs s) = (r, fs)" by fastforce
  have "data_reachable base fs"
  proof (cases "wire_query_ok (hc_url c) \<and> (\<exists>ip. chi data_routes (hc_method c) (route_path (hc_url c)) = Inr ip)")
    case True
    then obtain i ps where ip: "chi data_routes (hc_method c) (route_path (hc_url c)) = Inr (i, ps)" by auto
    from data_requests_ok[OF chi_sound[OF ip], of "hc_body c"] True d ip s show ?thesis
      by (auto simp: data_http_def sys_reachable_def intro: data_reachable.served)
  next
    case False
    with d s show ?thesis
      by (auto simp: data_http_def sys_reachable_def split: if_splits sum.splits)
  qed
  with run d s show "sreach s'" by (auto simp: at_data_def sys_reachable_def)
qed

lemma sreach_counted [simp]: "sreach (counted s) = sreach s"
  by (simp add: sys_reachable_def)

lemma keeps_send:
  "body_ok bdy \<Longrightarrow> keeps (send (meta_transport chi B net) m txt h bdy)"
  "keeps (send (data_transport chi base net) m txt h bdy)"
proof -
  show "keeps (send (data_transport chi base net) m txt h bdy)"
    using keeps_exchange[OF keeps_at_data] by (auto intro!: keepsI simp: send_def data_transport_def
        split: option.splits sum.splits prod.splits) (metis snd_conv sreach_counted)+
  assume b: "body_ok bdy"
  show "keeps (send (meta_transport chi B net) m txt h bdy)"
    using keeps_exchange[OF keeps_at_meta[OF b]] by (auto intro!: keepsI simp: send_def meta_transport_def
        split: option.splits sum.splits prod.splits) (metis snd_conv sreach_counted)+
qed

lemma keeps_meta_do: "body_ok bdy \<Longrightarrow> keeps (meta_do (meta_transport chi B net) want m txt h bdy)"
  using keeps_send(1)[of bdy m "txt" h] by (auto simp: keeps_def meta_do_def split: prod.splits sum.splits)

lemma keeps_returned: "keeps c \<Longrightarrow> keeps (\<lambda>s. returned (c s) k)"
  by (simp add: keeps_def)

lemmas client_defs = MetadataClient_CreateBucket_def MetadataClient_GetBucket_def
  MetadataClient_ListBucketsByOwner_def MetadataClient_DeleteBucket_def MetadataClient_ListObjects_def
  MetadataClient_PutObjectMeta_def MetadataClient_GetObjectMeta_def MetadataClient_DeleteObjectMeta_def
  MetadataClient_Ping_def DataClient_Write_def DataClient_Read_def DataClient_Delete_def DataClient_Ping_def ping_def

lemma keeps_clients:
  "keeps (mc_create_bucket MC n u)" "keeps (mc_get_bucket MC b)" "keeps (mc_list_buckets MC u)"
  "keeps (mc_delete_bucket MC b)" "keeps (mc_list_objects MC b p)" "keeps (mc_put_object MC ob)"
  "keeps (mc_get_object MC b k)" "keeps (mc_delete_object MC b k)" "keeps (mc_ping MC)"
  "keeps (dc_write DC b r)" "keeps (dc_read DC b h)" "keeps (dc_delete DC b h)" "keeps (dc_ping DC)"
  by (simp_all add: client_defs fun_eq_iff keeps_def)
    (simp_all add: keeps_meta_do keeps_send jstr_def valid_utf8_ascii byte_in_def flip: keeps_def)

lemma keeps_call:
  "keeps c \<Longrightarrow> (\<And>x. keeps (f x)) \<Longrightarrow> (\<And>e. keeps (g e)) \<Longrightarrow>
     keeps (\<lambda>s. case c s of (Inl e, s') \<Rightarrow> g e s' | (Inr x, s') \<Rightarrow> f x s')"
  unfolding keeps_def by (fastforce split: prod.splits sum.splits)

lemma keeps_answer: "keeps (\<lambda>s. (r, s))"
  by (simp add: keeps_def)

lemma keeps_if_owner:
  assumes "has_clients srv MC DC" and "keeps act"
  shows "keeps (if_owner srv ctx b act)"
proof (rule keepsI)
  fix s res s'
  assume s: "sreach s" and run: "if_owner srv ctx b act s = (res, s')"
  obtain found s0 where f: "mc_get_bucket MC b s = (found, s0)" by fastforce
  from keepsD[OF keeps_clients(2) s f] have s0: "sreach s0" .
  with run f assms(1) keepsD[OF assms(2) s0] show "sreach s'"
    by (auto simp: if_owner_def authorizeBucketOwner_def has_clients_def split: sum.splits if_splits)
qed

lemma keeps_put_cleanup: "keeps c \<Longrightarrow> keeps (\<lambda>s. (r, snd (c s)))"
  by (simp add: keeps_def)

text \<open>Only the readiness probe uses the auth client.\<close>

definition auth_aside :: "'d system auth_client \<Rightarrow> bool" where
  "auth_aside a \<longleftrightarrow> keeps (ac_ping a)"

lemma keeps_ready:
  assumes "has_clients srv MC DC" and "auth_aside (sv_auth srv)"
  shows "keeps (handleHealthzReady srv)"
proof (rule keepsI)
  fix s res s'
  assume s: "sreach s" and run: "handleHealthzReady srv s = (res, s')"
  obtain m s1 where m: "mc_ping MC s = (m, s1)" by fastforce
  obtain d s2 where d: "dc_ping DC s1 = (d, s2)" by fastforce
  obtain a s3 where a: "ac_ping (sv_auth srv) s2 = (a, s3)" by fastforce
  from keepsD[OF keeps_clients(9) s m] have "sreach s1" .
  from keepsD[OF keeps_clients(13) this d] have "sreach s2" .
  from keepsD[OF assms(2)[unfolded auth_aside_def] this a] run m d a assms(1) show "sreach s'"
    by (auto simp: handleHealthzReady_def has_clients_def Let_def split: if_splits)
qed

lemma keeps_cong: "(\<And>s. f s = g s) \<Longrightarrow> keeps g \<Longrightarrow> keeps f"
  by (simp add: keeps_def)

lemma keeps_handlers:
  assumes c: "has_clients srv MC DC"
  shows "keeps (handleListBuckets srv ctx)" "keeps (handleCreateBucket srv ctx b)"
    "keeps (handleDeleteBucket srv ctx b)" "keeps (handleListObjects srv ctx b p)"
    "keeps (handlePutObject srv ctx b key ct up)" "keeps (handleGetObject srv ctx b key)"
    "keeps (handleHeadObject srv ctx b key)" "keeps (handleDeleteObject srv ctx b key)"
proof -
  have m: "sv_metadata srv = MC" "sv_data srv = DC" using c by (simp_all add: has_clients_def)
  note k = keeps_call keeps_answer keeps_clients keeps_if_owner[OF c]
  show "keeps (handleListBuckets srv ctx)" by (rule keeps_cong[OF handleListBuckets_def]) (unfold m, intro k)
  show "keeps (handleCreateBucket srv ctx b)" by (rule keeps_cong[OF handleCreateBucket_def]) (unfold m, intro k)
  show "keeps (handleDeleteBucket srv ctx b)" unfolding handleDeleteBucket_def m by (intro k)
  show "keeps (handleListObjects srv ctx b p)" unfolding handleListObjects_def m by (intro k)
  show "keeps (handleGetObject srv ctx b key)" unfolding handleGetObject_def m by (intro k)
  show "keeps (handleHeadObject srv ctx b key)" unfolding handleHeadObject_def m by (intro k)
  show "keeps (handleDeleteObject srv ctx b key)" unfolding handleDeleteObject_def m by (intro k)
  show "keeps (handlePutObject srv ctx b key ct up)"
    unfolding handlePutObject_def m
  proof (rule keeps_if_owner[OF c], rule keepsI)
    fix s res s'
    assume s: "sreach s" and run: "(case dc_write DC b (max_bytes maxUploadBytes up) s of
        (Inl e, s1) \<Rightarrow> (WriteError StatusBadGateway [Lit ''failed to store object data''], s1)
      | (Inr (hash, sz), s1) \<Rightarrow>
          let meta = \<lparr>oiKey = key, oiBucket = b, oiSizeBytes = sz, oiETag = [], oiContentType = ct,
                      oiStorageRef = hash, oiCreatedAt = 0\<rparr>
          in (case mc_put_object MC meta s1 of
                (Inl err, s2) \<Rightarrow> (WriteUpstreamError err, snd (dc_delete DC b hash s2))
              | (Inr saved, s2) \<Rightarrow> (write_json StatusCreated (object_info_json saved), s2))) = (res, s')"
    obtain w s1 where w: "dc_write DC b (max_bytes maxUploadBytes up) s = (w, s1)" by fastforce
    from keepsD[OF keeps_clients(10) s w] have s1: "sreach s1" .
    show "sreach s'"
    proof (cases w)
      case (Inl e)
      with run w s1 show ?thesis by simp
    next
      case (Inr hn)
      obtain hash sz where hn: "hn = (hash, sz)" by fastforce
      obtain p s2 where p: "mc_put_object MC \<lparr>oiKey = key, oiBucket = b, oiSizeBytes = sz, oiETag = [], oiContentType = ct,
                      oiStorageRef = hash, oiCreatedAt = 0\<rparr> s1 = (p, s2)" by fastforce
      from keepsD[OF keeps_clients(6) s1 p] have s2: "sreach s2" .
      then have "sreach (snd (dc_delete DC b hash s2))" using keeps_clients(12) by (auto simp: keeps_def)
      with run w Inr hn p s2 show ?thesis by (cases p) (auto simp: Let_def)
    qed
  qed
qed

lemma keeps_serve:
  assumes c: "has_clients srv MC DC" and "auth_aside (sv_auth srv)"
  shows "keeps (api_serve srv ctx r)"
  using keeps_handlers[OF c] keeps_ready[OF assms] keeps_answer
  by (cases r) (auto simp: keeps_def)

lemma keeps_http:
  assumes "has_clients srv MC DC" and "auth_aside (sv_auth srv)"
  shows "keeps (api_http chi srv ctx c)"
proof (rule keepsI)
  fix s res s'
  assume "sreach s" and "api_http chi srv ctx c s = (res, s')"
  with keepsD[OF keeps_serve[OF assms]] show "sreach s'"
    by (auto simp: api_http_def split: if_splits sum.splits)
qed

text \<open>A reachable state satisfies the invariant the contract is stated for.\<close>

lemma sreach_inv: "sreach s \<Longrightarrow> sinv s"
  using meta_reachable_inv meta_reachable_names data_reachable_ok
  by (simp add: sys_reachable_def sys_inv_def)

end

end
