(* ===== verification/Api_Total.thy ===== *)
theory Api_Total
  imports Api_Runs Meta_Total
begin

text \<open>
  When an upload through the whole system succeeds: no fault lies ahead, metadata-service has a store
  with room, and nothing is in the way of the file in data-service.
\<close>

text \<open>Nothing is in the way of a new blob.\<close>

definition upload_free :: "path \<Rightarrow> data_env \<Rightarrow> string \<Rightarrow> bytes \<Rightarrow> fsys \<Rightarrow> bool" where
  "upload_free base e ns data fs \<longleftrightarrow>
     (let p = blob_path base ns (sha256_hex data)
      in is_dir fs (base @ [''tmp'']) \<and> ns \<noteq> ''tmp''
       \<and> file_at fs (temp_path base e) = None \<and> \<not> is_dir fs (temp_path base e)
       \<and> (\<forall>n \<in> {..length p}. file_at fs (take n (butlast p)) = None) \<and> \<not> is_dir fs p)"

lemma Write_free:
  assumes "fs_ok fs" and "no_faults e" and "u_error r = None" and "plain ns"
    and "upload_free base e ns (u_data r) fs"
  shows "\<exists>fs'. LocalStore_Write base e ns r fs = (Inr (sha256_hex (u_data r), length (u_data r)), fs')"
proof -
  let ?p = "blob_path base ns (sha256_hex (u_data r))"
  have "file_at fs (take n (butlast ?p)) = None" for n
  proof -
    have "take n (butlast ?p) = take (min n (length ?p)) (butlast ?p)" by (simp add: min_def)
    moreover have "min n (length ?p) \<in> {..length ?p}" by simp
    ultimately show ?thesis using assms(5) unfolding upload_free_def Let_def by metis
  qed
  moreover have "\<not> prefix (temp_path base e) ?p"
    using assms(5) by (auto simp: temp_path_def blob_path_def upload_free_def Let_def)
  ultimately show ?thesis
    using Write_total[OF assms(1-3), of base ns ?p] assms(4,5)
    by (simp add: getShardedPath_good upload_free_def Let_def)
qed

text \<open>A successful write adds only the directories above its blob.\<close>

lemma Write_dirs:
  assumes ok: "fs_ok fs" and "plain ns" and run: "LocalStore_Write base e ns r fs = (Inr x, fs')"
  shows "is_dir fs q \<Longrightarrow> is_dir fs' q"
    and "is_dir fs' q \<Longrightarrow> is_dir fs q \<or> prefix q (butlast (blob_path base ns (sha256_hex (u_data r))))"
proof -
  let ?p = "blob_path base ns (sha256_hex (u_data r))"
  have p: "getShardedPath base ns (sha256_hex (u_data r)) = Some ?p" using assms(2) by (simp add: getShardedPath_good)
  from run p obtain t fs0 fs2 u where
    c: "os_create_temp (base @ [''tmp'']) (''upload-'' @ de_tmp e @ ''.tmp'') fs = (Inr t, fs0)"
    and m: "os_mkdir_all (butlast ?p) (os_write t (u_data r) fs0) = (Inr u, fs2)"
    and k: "os_rename t ?p fs2 = (Inr u, fs')"
    by (auto simp: LocalStore_Write_def Let_def split: prod.splits sum.splits option.splits if_splits dest!: attempt_Inr)
  from os_create_temp_spec[OF ok c] have c1: "fs_ok fs0" "is_dir fs0 = is_dir fs" "file_at fs0 t = Some []"
    "t = temp_path base e" by (auto simp: temp_path_def)
  from os_write_spec[OF c1(1)] c1(2,3) have w: "fs_ok (os_write t (u_data r) fs0)" "is_dir (os_write t (u_data r) fs0) = is_dir fs"
    "file_at (os_write t (u_data r) fs0) t = Some (u_data r)"
    by simp_all
  from os_mkdir_all_spec[OF w(1) m] w(3) have m1: "fs_ok fs2" "file_at fs2 t = Some (u_data r)" by simp_all
  have "t \<noteq> ?p" unfolding c1(4) by (rule temp_path_other[OF p good_hash_sha256])
  from os_rename_spec[OF m1(1) k m1(2) this] have "is_dir fs' = is_dir fs2" by simp
  with os_mkdir_all_spec[OF w(1) m] os_mkdir_all_dirs[OF m, of q] w(2)
  show "is_dir fs q \<Longrightarrow> is_dir fs' q" "is_dir fs' q \<Longrightarrow> is_dir fs q \<or> prefix q (butlast ?p)" by auto
qed

text \<open>After an upload of the same content is free again.\<close>

lemma Write_free_again:
  assumes ok: "fs_ok fs" and "plain ns" and free: "upload_free base e ns (u_data r) fs"
    and run: "LocalStore_Write base e' ns r fs = (Inr x, fs')"
  shows "upload_free base e ns (u_data r) fs'"
proof -
  let ?p = "blob_path base ns (sha256_hex (u_data r))" and ?t = "temp_path base e"
  have f: "file_at fs' = (file_at fs)(?p \<mapsto> u_data r)"
    using Write_files[OF ok run] assms(2) by (auto simp: getShardedPath_good split: prod.splits)
  have ne: "?p \<noteq> []" by (simp add: blob_path_def)
  then have np: "\<not> prefix ?p (butlast ?p)" by (cases ?p rule: rev_cases) (auto dest: prefix_length_le)
  have tp: "?t \<noteq> ?p" "\<not> prefix ?t (butlast ?p)"
    using free by (auto simp: temp_path_def blob_path_def upload_free_def Let_def butlast_append prefix_def)
  have way: "take n (butlast ?p) \<noteq> ?p" for n using np take_is_prefix by metis
  note d = Write_dirs[OF ok assms(2) run]
  from free tp way np d(1)[of "base @ [''tmp'']"] d(2)[of ?t] d(2)[of ?p]
  show ?thesis by (auto simp: upload_free_def Let_def f)
qed

context bolt_roomy
begin

lemma PutObject_total:
  assumes inv: "meta_inv B d" and live: "live_bucket B d b \<noteq> None" and b: "re_match bucketNameRE b"
    and "k \<noteq> []" "no_nul k" "length k \<le> 32704" and "0 \<le> sint sz" and "ref \<noteq> []"
  shows "\<exists>ob d'. PutObject objts bkts background now uuid b k sz etag ct ref d = (Inr ob, d')"
proof -
  have "key_ok (b @ keySeparator # k)"
    using assms(3,6) by (auto simp: bucketNameRE_iff key_ok_def max_key_size_def)
  with object_put_total[OF inv, of "put_object_record uuid b k sz etag ct ref" background now]
    assms(2-8) bucketNameRE_good[OF b] buckets.get_eq[OF inv, of background b]
  show ?thesis
    by (auto simp: PutObject_def put_object_check_def put_object_record_def bucketNameRE_iff)
qed

end

locale roomy_deployment = deployment B chi base net + bolt_roomy B
  for B :: "'d bolt" and chi :: chi and base :: path and net :: net
begin

lemma DataClient_Write_total:
  assumes "sinv s" and calm: "sys_calm net s" and "segment b" and "plain b"
    and "u_error r = None" and "length (u_data r) \<le> maxUploadBytes"
    and free: "upload_free base (nt_data net (sys_calls s)) b (u_data r) (sys_fs s)"
    and run: "DataClient_Write (data_transport chi base net) b r s = (res, s')"
  shows "res = Inr (sha256_hex (u_data r), word_of_int (int (length (u_data r))))
    \<and> (\<exists>e x. LocalStore_Write base e b r (sys_fs s) = (Inr x, sys_fs s'))"
proof -
  let ?e = "nt_data net (sys_calls s)" and ?h = "sha256_hex (u_data r)"
  from assms(1) have "fs_ok (sys_fs s)" by (simp add: sys_inv_def store_ok_def)
  with Write_free[OF this _ assms(5,4) free] sys_calm_now[OF calm] obtain fs where
    w: "LocalStore_Write base ?e b r (sys_fs s) = (Inr (?h, length (u_data r)), fs)" by blast
  obtain x s1 where c: "send (data_transport chi base net) ''POST'' (''/namespaces/'' @ b @ ''/objects'') []
      (StreamReq r) s = (x, s1)" by (meson prod.exhaust)
  have u: "utf8_fix ?h = ?h" using sha256_hex_segment[of ?h] by simp
  have n: "int64_ok (int (length (u_data r)))" using assms(6) by (simp add: int64_ok_def maxUploadBytes_def)
  from c have "x = Inr (write_json StatusCreated (upload_json ?h (length (u_data r)) b)) \<and> sys_fs s1 = fs"
  proof (cases rule: send_data_cases)
    case unsent
    with segmentD(3)[OF assms(3)] safe_namespaces(1)[of b] show ?thesis by (simp add: url_parse_safe)
  next
    case lost
    with sys_calm_now[OF calm] show ?thesis by simp
  next
    case (served uu r' fs')
    from served(2)[unfolded data_http_upload[OF assms(3) served(1)]] w assms(4)
    have "r' = write_json StatusCreated (upload_json ?h (length (u_data r)) b)" "fs' = fs"
      by (simp_all add: HandleUpload_def plain_def)
    with served(3,4) sys_calm_now[OF calm] show ?thesis by auto
  qed
  with run c w assms(5) decode_upload_out(1)[OF n, of ?h b] u show ?thesis
    by (auto simp: DataClient_Write_def returned_def decoded_def decode_body_def resp_json_def)
qed

lemma MetadataClient_PutObjectMeta_total:
  assumes "sinv s" and calm: "sys_calm net s" and live: "vw_owner (sview s) (oiBucket ob) \<noteq> None"
    and "oiKey ob \<noteq> []" "no_nul (oiKey ob)" "valid_utf8 (oiKey ob)" "length (oiKey ob) \<le> 32704"
    and "0 \<le> sint (oiSizeBytes ob)" "oiStorageRef ob \<noteq> []" "valid_utf8 (oiStorageRef ob)"
    and run: "MetadataClient_PutObjectMeta (meta_transport chi B net) ob s = (res, s')"
  shows "\<exists>m. res = Inr m"
proof -
  let ?b = "oiBucket ob" and ?e = "nt_meta net (sys_calls s)"
  let ?j = "JObj [(''key'', jstr (oiKey ob)), (''size_bytes'', JInt (sint (oiSizeBytes ob))),
    (''etag'', jstr (oiETag ob)), (''content_type'', jstr (oiContentType ob)), (''storage_ref'', jstr (oiStorageRef ob))]"
  from assms(1,3) have inv: "meta_inv B (sys_meta s)" and b: "re_match bucketNameRE ?b"
    "live_bucket B (sys_meta s) ?b \<noteq> None" by (auto simp: sys_inv_def names_ok_def)
  note seg = bucket_name_segment(1)[OF b(1)]
  from PutObject_total[OF inv b(2,1) assms(4,5,7,8,9), of "e_now ?e" "e_uuid ?e" "utf8_fix (oiETag ob)" "utf8_fix (oiContentType ob)"]
  obtain st d where p: "PutObject objts bkts background (e_now ?e) (e_uuid ?e) ?b (oiKey ob) (oiSizeBytes ob)
    (utf8_fix (oiETag ob)) (utf8_fix (oiContentType ob)) (oiStorageRef ob) (sys_meta s) = (Inr st, d)" by blast
  obtain r s1 where d: "meta_do (meta_transport chi B net) StatusCreated ''POST'' (''/buckets/'' @ ?b @ ''/objects'')
      json_content (JsonReq ?j) s = (r, s1)"
    by (meson prod.exhaust)
  from d call_put[OF seg, of B ?j]
  have "r = Inr (write_json StatusCreated (objectResponse_json (toObjectResponse st)))"
  proof (cases rule: meta_do_cases)
    case unsent
    with segmentD(3)[OF seg] show ?thesis by (simp add: url_parse_safe safe_simps)
  next
    case lost
    with sys_calm_now[OF calm] show ?thesis by simp
  next
    case (served r' d')
    from served(1) p assms(6,10) sys_calm_now[OF calm]
    have "r' = write_json StatusCreated (objectResponse_json (toObjectResponse st))"
      by (simp add: h_putObject_def decode_putObjectRequest)
    with served(3) sys_calm_now[OF calm] show ?thesis by auto
  qed
  with run d show ?thesis
    by (auto simp: MetadataClient_PutObjectMeta_def returned_def decoded_object)
qed

text \<open>A lookup of a bucket that is answered is one call, and leaves the files alone.\<close>

lemma get_bucket_moves:
  fixes s :: "'d system"
  assumes "MetadataClient_GetBucket (meta_transport chi B net) b s = (Inr i, s')"
  shows "sys_calls s' = Suc (sys_calls s) \<and> sys_fs s' = sys_fs s"
  using assms
  by (auto simp: MetadataClient_GetBucket_def returned_def meta_do_def send_def meta_transport_def at_meta_def
      split: option.splits sum.splits prod.splits if_splits elim!: exchange_cases)

text \<open>The owner's upload reaches the metadata call, with its content stored.\<close>

definition upload_info :: "string \<Rightarrow> string \<Rightarrow> string \<Rightarrow> bytes \<Rightarrow> object_info" where
  "upload_info b k ct data =
     \<lparr>oiKey = k, oiBucket = b, oiSizeBytes = word_of_int (int (length data)), oiETag = [], oiContentType = ct,
      oiStorageRef = sha256_hex data, oiCreatedAt = 0\<rparr>"

lemma put_object_steps:
  assumes s: "sinv s" and calm: "sys_calm net s" and c: "has_clients srv MC DC"
    and own: "vw_owner (sview s) b = Some (pUserID (requirePrincipal ctx))"
    and r: "u_error r = None" "length (u_data r) \<le> maxUploadBytes"
    and free: "upload_free base (nt_data net (Suc (sys_calls s))) b (u_data r) (sys_fs s)"
  obtains s1 e x where "sinv s1" "sys_calm net s1" "vw_owner (sview s1) b = vw_owner (sview s) b" "segment b"
    "LocalStore_Write base e b r (sys_fs s) = (Inr x, sys_fs s1)"
    "handlePutObject srv ctx b k ct r s =
       (case MetadataClient_PutObjectMeta (meta_transport chi B net) (upload_info b k ct (u_data r)) s1 of
          (Inl err, s2) \<Rightarrow> (WriteUpstreamError err, snd (dc_delete DC b (sha256_hex (u_data r)) s2))
        | (Inr saved, s2) \<Rightarrow> (write_json StatusCreated (object_info_json saved), s2))"
proof -
  let ?r = "max_bytes maxUploadBytes r" and ?h = "sha256_hex (u_data r)"
  have mr: "?r = r" using r(2) by (simp add: max_bytes_def)
  have srv: "sv_metadata srv = MC" "sv_data srv = DC" using c by (simp_all add: has_clients_def)
  from upstream.names[OF s] own have n: "segment b" "plain b" by auto
  obtain found s0 where f: "MetadataClient_GetBucket (meta_transport chi B net) b s = (found, s0)" by fastforce
  have f': "mc_get_bucket MC b s = (found, s0)" using f by simp
  from upstream.calm_get_bucket[OF s calm own f'] obtain i where i: "sys_calm net s0" "found = Inr i" by blast
  from upstream.get_bucket[OF s n(1) f'] i(2) own
  have v: "sinv s0" "sview s0 = sview s" "biOwnerID i = pUserID (requirePrincipal ctx)" by auto
  have same: "sys_calls s0 = Suc (sys_calls s) \<and> sys_fs s0 = sys_fs s"
    using get_bucket_moves[OF f[unfolded i(2)]] .
  obtain ref s1 where w: "DataClient_Write (data_transport chi base net) b r s0 = (ref, s1)" by fastforce
  from DataClient_Write_total[OF v(1) i(1) n r _ w] free same obtain e x where
    ref: "ref = Inr (?h, word_of_int (int (length (u_data r))))"
      "LocalStore_Write base e b r (sys_fs s) = (Inr x, sys_fs s1)" by auto
  have w': "dc_write DC b r s0 = (ref, s1)" using w by simp
  from upstream.dwrite[OF v(1) n w'] upstream.calm_write[OF i(1) w'] v(2)
  have y: "sinv s1" "sys_calm net s1" "vw_owner (sview s1) b = vw_owner (sview s) b"
    by (auto simp del: sys_view_sel)
  show ?thesis
    by (rule that[OF y n(1) ref(2)])
      (unfold handlePutObject_def if_owner_def authorizeBucketOwner_def srv upload_info_def,
        use f i v w mr ref in simp)
qed

lemma PutObjectMeta_moves:
  fixes s :: "'d system"
  assumes "MetadataClient_PutObjectMeta (meta_transport chi B net) ob s = (res, s')"
  shows "sys_fs s' = sys_fs s"
  using assms
  by (auto simp: MetadataClient_PutObjectMeta_def returned_def meta_do_def send_def meta_transport_def at_meta_def
      split: option.splits sum.splits prod.splits if_splits elim!: exchange_cases)

lemma put_object_total:
  assumes s: "sinv s" and calm: "sys_calm net s" and c: "has_clients srv MC DC"
    and own: "vw_owner (sview s) b = Some (pUserID (requirePrincipal ctx))"
    and r: "u_error r = None" "length (u_data r) \<le> maxUploadBytes"
    and free: "upload_free base (nt_data net (Suc (sys_calls s))) b (u_data r) (sys_fs s)"
    and k: "k \<noteq> []" "no_nul k" "valid_utf8 k" "length k \<le> 32704"
    and run: "handlePutObject srv ctx b k ct r s = (resp, s')"
  shows "status resp = StatusCreated \<and> sys_calm net s'
    \<and> (\<exists>e x. LocalStore_Write base e b r (sys_fs s) = (Inr x, sys_fs s'))"
  using put_object_steps[OF s calm c own r free, of k ct]
proof cases
  case (1 s1 e x)
  let ?h = "sha256_hex (u_data r)" and ?ob = "upload_info b k ct (u_data r)"
  have u: "valid_utf8 ?h" "?h \<noteq> []" using sha256_hex_segment[OF good_hash_sha256, of "u_data r"] by (auto simp: segment_def)
  have z: "0 \<le> sint (word_of_int (int (length (u_data r))) :: 64 word)"
    using r(2) unfolding sint_sbintrunc' by (simp add: maxUploadBytes_def signed_take_bit_int_eq_self)
  obtain saved s2 where p: "MetadataClient_PutObjectMeta (meta_transport chi B net) ?ob s1 = (saved, s2)" by fastforce
  from MetadataClient_PutObjectMeta_total[OF 1(1,2) _ _ _ _ _ _ _ _ p] 1(3) own k z u
  obtain m where m: "saved = Inr m" by (auto simp: upload_info_def)
  from upstream.calm_put_object[OF 1(2), of ?ob saved s2] p have "sys_calm net s2" by simp
  with m p 1(5,6) run PutObjectMeta_moves[OF p] show ?thesis by (cases x) auto
qed

text \<open>A bad request as the client reports it.\<close>

lemma meta_do_bad_request:
  fixes s :: "'d system"
  assumes "is_call chi B mth txt bdy serve" and "url_parse txt = Some u" and "sys_calm net s"
    and "status (fst (serve (nt_meta net (sys_calls s)) (sys_meta s))) = StatusBadRequest"
    and "want \<noteq> StatusBadRequest"
  shows "\<exists>m s'. meta_do (meta_transport chi B net) want mth txt hdr bdy s = (Inl (InvalidInputError m), s')"
proof -
  obtain r d where r: "serve (nt_meta net (sys_calls s)) (sys_meta s) = (r, d)" by fastforce
  with assms sys_calm_now[OF assms(3)] show ?thesis
    by (simp add: meta_do_def send_def meta_transport_def at_meta_def is_call_def)
qed

text \<open>An upload without a key is stored, rejected by metadata-service, and its content removed.\<close>

lemma put_object_no_key:
  assumes s: "sinv s" and calm: "sys_calm net s" and c: "has_clients srv MC DC"
    and own: "vw_owner (sview s) b = Some (pUserID (requirePrincipal ctx))"
    and r: "u_error r = None" "length (u_data r) \<le> maxUploadBytes"
    and free: "upload_free base (nt_data net (Suc (sys_calls s))) b (u_data r) (sys_fs s)"
  shows "status (fst (handlePutObject srv ctx b [] ct r s)) = StatusBadRequest"
  using put_object_steps[OF s calm c own r free, of "[]" ct]
proof cases
  case (1 s1 e x)
  let ?e = "nt_meta net (sys_calls s1)"
  let ?j = "JObj [(''key'', jstr []), (''size_bytes'', JInt (sint (word_of_int (int (length (u_data r))) :: 64 word))),
    (''etag'', jstr []), (''content_type'', jstr ct), (''storage_ref'', jstr (sha256_hex (u_data r)))]"
  have "url_safe (''/buckets/'' @ b @ ''/objects'')" using segmentD(3)[OF 1(4)] by (simp add: safe_simps)
  then obtain u where u: "url_parse (''/buckets/'' @ b @ ''/objects'') = Some u" by (auto simp: url_parse_safe)
  have "b \<noteq> []" using segmentD(1)[OF 1(4)] .
  then have "status (fst (meta_serve B ?e (MPutObject b (Some ?j)) (sys_meta s1))) = StatusBadRequest"
    by (simp add: h_putObject_def decode_putObjectRequest PutObject_def put_object_check_def)
      (simp add: meta_writeError_def invalid_input_def)
  with meta_do_bad_request[OF call_put[OF 1(4), of B ?j] u 1(2)]
  obtain m s2 where d: "meta_do (meta_transport chi B net) StatusCreated ''POST'' (''/buckets/'' @ b @ ''/objects'')
      json_content (JsonReq ?j) s1 = (Inl (InvalidInputError m), s2)"
    by (metis (no_types, lifting) numeral_eq_iff semiring_norm(83,89))
  with 1(6) d show ?thesis
    by (auto simp: MetadataClient_PutObjectMeta_def returned_def upload_info_def WriteError_def)
qed

end

end
