(* ===== verification/Api_Keys.thy ===== *)
theory Api_Keys
  imports Api_Total
begin

text \<open>
  Object keys in URLs.  The client of api-service puts a key behind the path of its bucket without
  encoding it, so a question mark ends the path there: what follows is a query, which
  metadata-service does not read.
\<close>

text \<open>A text that a URL may have as its query.\<close>

definition query_tail :: "string \<Rightarrow> bool" where
  "query_tail q \<longleftrightarrow> (\<forall>c \<in> set q. c \<noteq> CHR ''#'' \<and> c \<noteq> CHR '' '' \<and> \<not> ctl c)"

lemma query_tailD: "query_tail q \<Longrightarrow> CHR ''#'' \<notin> set q \<and> \<not> list_ex ctl q \<and> CHR '' '' \<notin> set q"
  by (auto simp: query_tail_def list_ex_iff)

context chi_router
begin

lemma is_call_tail:
  assumes "url_safe txt" and "txt \<noteq> ''*''" and "chi meta_routes mth txt = Inr (i, ps)" and "query_tail q"
  shows "is_call chi B mth (txt @ CHR ''?'' # q) bdy (\<lambda>e. meta_serve B e (meta_requests ps q (req_json bdy) ! i))"
  using assms query_tailD[OF assms(4)]
  by (simp add: is_call_def url_parse_query meta_http_def wire_query_ok_def route_path_safe)

lemma call_object_tail:
  assumes "segment b" and "object_param k" and "query_tail q"
  shows "is_call chi B ''GET'' (''/buckets/'' @ b @ ''/objects/'' @ k @ CHR ''?'' # q) bdy
      (\<lambda>e. meta_serve B e (MGetObject b k))"
    "is_call chi B ''DELETE'' (''/buckets/'' @ b @ ''/objects/'' @ k @ CHR ''?'' # q) bdy
      (\<lambda>e. meta_serve B e (MDeleteObject b k))"
  using assms(2) is_call_tail[OF _ _ meta_route_object(1)[OF assms(1)] assms(3), of k B bdy]
    is_call_tail[OF _ _ meta_route_object(2)[OF assms(1)] assms(3), of k B bdy] segmentD(3)[OF assms(1)]
  by (simp_all add: safe_simps meta_requests_def object_param_def)

end

text \<open>Two texts of the same call are answered alike.\<close>

lemma meta_do_same:
  assumes "is_call chi B mth txt bdy serve" and "is_call chi B mth txt' bdy serve"
    and "url_parse txt \<noteq> None" and "url_parse txt' \<noteq> None"
  shows "meta_do (meta_transport chi B net) want mth txt hdr bdy
    = meta_do (meta_transport chi B net) want mth txt' hdr bdy"
proof -
  from assms(3,4) obtain u u' where u: "url_parse txt = Some u" "url_parse txt' = Some u'" by blast
  with assms(1,2)
  have same: "at_meta chi B e \<lparr>hc_method = mth, hc_url = u, hc_header = hdr, hc_body = bdy\<rparr>
    = at_meta chi B e \<lparr>hc_method = mth, hc_url = u', hc_header = hdr, hc_body = bdy\<rparr>" for e
    by (simp add: fun_eq_iff at_meta_def is_call_def)
  show ?thesis by (rule ext) (simp add: meta_do_def send_def meta_transport_def u same)
qed

context deployment
begin

lemma object_tail:
  assumes "segment b" and "object_param k" and "query_tail q"
  shows "MetadataClient_GetObjectMeta (meta_transport chi B net) b (k @ CHR ''?'' # q)
      = MetadataClient_GetObjectMeta (meta_transport chi B net) b k"
    and "MetadataClient_DeleteObjectMeta (meta_transport chi B net) b (k @ CHR ''?'' # q)
      = MetadataClient_DeleteObjectMeta (meta_transport chi B net) b k"
proof -
  have s: "url_safe (''/buckets/'' @ b @ ''/objects/'' @ k)"
    using segmentD(3)[OF assms(1)] assms(2) by (simp add: safe_simps object_param_def)
  have p: "url_parse (''/buckets/'' @ b @ ''/objects/'' @ k) \<noteq> None"
    "url_parse (''/buckets/'' @ b @ ''/objects/'' @ k @ CHR ''?'' # q) \<noteq> None"
    using url_parse_safe[OF s] url_parse_query[OF s, of q] query_tailD[OF assms(3)] by simp_all
  show "MetadataClient_GetObjectMeta (meta_transport chi B net) b (k @ CHR ''?'' # q)
      = MetadataClient_GetObjectMeta (meta_transport chi B net) b k"
    by (rule ext) (simp only: MetadataClient_GetObjectMeta_def
        meta_do_same[OF call_object_tail(1)[OF assms] call_object(1)[OF assms(1,2)] p(2,1)])
  show "MetadataClient_DeleteObjectMeta (meta_transport chi B net) b (k @ CHR ''?'' # q)
      = MetadataClient_DeleteObjectMeta (meta_transport chi B net) b k"
    by (rule ext) (simp only: MetadataClient_DeleteObjectMeta_def
        meta_do_same[OF call_object_tail(2)[OF assms] call_object(2)[OF assms(1,2)] p(2,1)])
qed

lemma handlers_tail:
  assumes "has_clients srv MC DC" and "segment b" and "object_param k" and "query_tail q"
  shows "handleGetObject srv ctx b (k @ CHR ''?'' # q) = handleGetObject srv ctx b k"
    and "handleDeleteObject srv ctx b (k @ CHR ''?'' # q) = handleDeleteObject srv ctx b k"
proof -
  have m: "sv_metadata srv = MC" using assms(1) by (simp add: has_clients_def)
  show "handleGetObject srv ctx b (k @ CHR ''?'' # q) = handleGetObject srv ctx b k"
    unfolding handleGetObject_def m HTTPMetadataClient_def metadata_client.simps object_tail[OF assms(2-4)] ..
  show "handleDeleteObject srv ctx b (k @ CHR ''?'' # q) = handleDeleteObject srv ctx b k"
    unfolding handleDeleteObject_def m HTTPMetadataClient_def metadata_client.simps object_tail[OF assms(2-4)] ..
qed

end

end
