(* ===== verification/Api_Properties.thy ===== *)
theory Api_Properties
  imports Api_Keys Meta_Sample Data_Properties
begin

text \<open>
  The properties of api-service together with metadata-service and data-service, with witnesses on
  a small system: the in-memory store with one bucket, an empty data directory, a network that
  delivers everything.
\<close>

section \<open>The contract at the deployment\<close>

lemma deploymentI: "bolt_store B \<Longrightarrow> chi_law chi \<Longrightarrow> net_ok net \<Longrightarrow> deployment B chi net"
  by (simp add: deployment_def chi_router_def deployment_axioms_def)

context deployment
begin

lemma server_clients: "has_clients (api_server chi B base net auth) MC DC"
  by (simp add: has_clients_def)

lemmas deployed_guarded = upstream.serve_guarded[OF _ _ server_clients, unfolded upstream.guarded_def]
lemmas deployed_put_get = upstream.put_then_get_calm[OF _ _ server_clients]
lemmas deployed_put = upstream.put_object_created[OF _ _ server_clients]
lemmas deployed_stored = upstream.put_object_stored[OF _ _ server_clients]
lemmas deployed_get = upstream.get_object_calm[OF _ _ server_clients]
lemmas deployed_lost = upstream.get_object_lost[OF _ _ server_clients]
lemmas deployed_shared = upstream.shared_blob_lost[OF _ _ server_clients]
lemmas deployed_rejected = upstream.rejected_upload_lost[OF _ _ server_clients]
lemmas deployed_http = keeps_http[OF server_clients]
lemmas deployed_tail = handlers_tail[OF server_clients]

end

context roomy_deployment
begin

lemmas roomy_put = put_object_total[OF _ _ server_clients]
lemmas roomy_no_key = put_object_no_key[OF _ _ server_clients]

end

section \<open>A sample system\<close>

definition q_net :: net where
  "q_net = \<lparr>nt_fault = \<lambda>_. Delivered, nt_meta = \<lambda>_. s_env, nt_data = \<lambda>_. d_env\<rparr>"

definition q_auth :: "mem_db system auth_client" where
  "q_auth = \<lparr>ac_lookup = \<lambda>_ s. (Inl (NotFoundError ''access key''), s), ac_ping = \<lambda>s. (Inr (), s)\<rparr>"

definition q_srv :: "mem_db system server" where
  "q_srv = api_server first_route mem_bolt d_base q_net q_auth"

definition q_sys :: "mem_db system" where
  "q_sys = \<lparr>sys_meta = s_created, sys_fs = d_new, sys_calls = 0\<rparr>"

definition q_amy :: "principal option" where
  "q_amy = Some \<lparr>pUserID = ''amy'', pAccessKey = ''AK''\<rparr>"

definition q_bob :: "principal option" where
  "q_bob = Some \<lparr>pUserID = ''bob'', pAccessKey = ''BK''\<rparr>"

lemma q_net_ok: "net_ok q_net"
  by (simp add: net_ok_def q_net_def s_env_ok)

interpretation sample: roomy_deployment mem_bolt first_route d_base q_net
  by unfold_locales (rule q_net_ok)

lemma q_reach: "sys_reachable mem_bolt d_base q_sys"
  by (simp add: sys_reachable_def q_sys_def s_created_reachable d_new_reachable)

lemmas q_inv = sample.sreach_inv[OF q_reach]

lemma q_calm: "sys_calm q_net s"
  by (simp add: sys_calm_def q_net_def s_env_def no_faults_def d_simps)

lemma q_owner: "vw_owner (sys_view mem_bolt d_base q_sys) ''pics'' = Some (pUserID (requirePrincipal q_amy))"
  by (simp add: q_sys_def s_created_bucket s_bucket_def q_amy_def requirePrincipal_def)

lemma q_segment: "segment ''pics''"
  by (simp add: segment_def safe_simps)

lemma q_key: "object_param ''k''" "object_param ''l''"
  by (simp_all add: object_param_def safe_simps valid_utf8_ascii)

lemma q_free: "upload_free d_base d_env ''pics'' data d_new"
  by (auto simp: upload_free_def Let_def d_new_files d_base_def blob_path_def temp_path_def)

definition q_put :: "string \<Rightarrow> bytes \<Rightarrow> mem_db system \<Rightarrow> response \<times> mem_db system" where
  "q_put k data s = handlePutObject q_srv q_amy ''pics'' k ''t'' (d_up data) s"

text \<open>An upload by the owner is stored, and another one of the same content can follow.\<close>

lemma q_put_total:
  assumes "sys_inv mem_bolt d_base s" and "vw_owner (sys_view mem_bolt d_base s) ''pics'' = Some ''amy''"
    and "upload_free d_base d_env ''pics'' data (sys_fs s)" and "length data \<le> maxUploadBytes"
    and "k \<noteq> []" "no_nul k" "valid_utf8 k" "length k \<le> 32704"
  shows "status (fst (q_put k data s)) = StatusCreated"
    and "upload_free d_base d_env ''pics'' data (sys_fs (snd (q_put k data s)))"
proof -
  have a: "pUserID (requirePrincipal q_amy) = ''amy''" by (simp add: requirePrincipal_def q_amy_def)
  obtain resp s' where run: "q_put k data s = (resp, s')" by fastforce
  from sample.roomy_put[OF assms(1) q_calm, of "''pics''" q_amy "d_up data" k q_auth "''t''" resp s'] run assms a
  obtain e x where p: "status resp = StatusCreated"
    "LocalStore_Write d_base e ''pics'' (d_up data) (sys_fs s) = (Inr x, sys_fs s')"
    by (auto simp: q_put_def q_srv_def d_simps q_net_def)
  from assms(1) have ok: "fs_ok (sys_fs s)" by (simp add: sys_inv_def store_ok_def)
  have pl: "plain ''pics''" by (simp add: plain_def)
  show "status (fst (q_put k data s)) = StatusCreated" using run p by simp
  show "upload_free d_base d_env ''pics'' data (sys_fs (snd (q_put k data s)))"
    using Write_free_again[OF ok pl, of d_base d_env "d_up data"] p(2) assms(3) run by (simp add: d_simps)
qed

lemma q_names: "no_nul ''k''" "valid_utf8 ''k''" "no_nul ''l''" "valid_utf8 ''l''"
  using q_key url_safe_no_nul by (simp_all add: object_param_def)

lemma q_put_first: "length data \<le> maxUploadBytes \<Longrightarrow> status (fst (q_put ''k'' data q_sys)) = StatusCreated"
  using q_put_total(1)[OF q_inv, of data "''k''"] q_owner q_free[of data]
  by (simp add: q_sys_def q_amy_def requirePrincipal_def q_names)

lemma q_stored:
  assumes "length data \<le> maxUploadBytes"
  shows "sys_inv mem_bolt d_base (snd (q_put ''k'' data q_sys))"
    and "vw_owner (sys_view mem_bolt d_base (snd (q_put ''k'' data q_sys))) ''pics'' = Some ''amy''"
    and "upload_free d_base d_env ''pics'' data (sys_fs (snd (q_put ''k'' data q_sys)))"
    and "status (fst (q_put ''l'' data (snd (q_put ''k'' data q_sys)))) = StatusCreated"
proof -
  obtain resp s' where run: "q_put ''k'' data q_sys = (resp, s')" by fastforce
  with q_put_first[OF assms] have st: "status resp = StatusCreated" by simp
  have a: "pUserID (requirePrincipal q_amy) = ''amy''" by (simp add: requirePrincipal_def q_amy_def)
  from sample.deployed_stored[OF q_inv q_segment q_key(1) run[unfolded q_put_def q_srv_def] st] a
  show i: "sys_inv mem_bolt d_base (snd (q_put ''k'' data q_sys))"
    and o: "vw_owner (sys_view mem_bolt d_base (snd (q_put ''k'' data q_sys))) ''pics'' = Some ''amy''"
    using run by (auto simp del: sys_view_sel)
  show f: "upload_free d_base d_env ''pics'' data (sys_fs (snd (q_put ''k'' data q_sys)))"
    by (rule q_put_total(2)[OF q_inv _ _ assms])
      (use q_owner a q_free[of data] in \<open>simp_all add: q_sys_def q_names\<close>)
  show "status (fst (q_put ''l'' data (snd (q_put ''k'' data q_sys)))) = StatusCreated"
    by (rule q_put_total(1)[OF i o f assms]) (simp_all add: q_names)
qed

section \<open>Properties\<close>

text \<open>
  C25: whatever request api-service serves, and whatever the network does to the calls it makes, the
  system stays in a state both services can reach: the database is consistent, its buckets have valid
  names, and every blob has the SHA-256 of its content as its name.
\<close>

theorem system_stays_consistent:
  assumes "bolt_store B" and "chi_law chi" and "net_ok net" and "sys_reachable B base s"
    and "\<And>s. sys_reachable B base s \<Longrightarrow> sys_reachable B base (snd (ac_ping auth s))"
    and "api_http chi (api_server chi B base net auth) ctx c s = (resp, s')"
  shows "sys_reachable B base s' \<and> meta_inv B (sys_meta s')
    \<and> (\<forall>b. live_bucket B (sys_meta s') b \<noteq> None \<longrightarrow> re_match bucketNameRE b)
    \<and> (\<forall>ns h d. blob base (sys_fs s') ns h = Some d \<longrightarrow> h = sha256_hex d)"
proof -
  note D = deploymentI[OF assms(1-3)]
  have "deployment.auth_aside B base (sv_auth (api_server chi B base net auth))"
    using assms(5) by (simp add: deployment.auth_aside_def[OF D] deployment.keeps_def[OF D])
  from deployment.keepsD[OF D deployment.deployed_http[OF D this] assms(4,6)]
  have r: "sys_reachable B base s'" .
  with deployment.sreach_inv[OF D r] show ?thesis by (simp add: sys_inv_def names_ok_def store_ok_def)
qed

theorem system_stays_consistent_witness:
  "sys_reachable mem_bolt d_base (snd (api_http first_route q_srv q_amy
     \<lparr>hc_method = ''PUT'', hc_url = \<lparr>u_path = ''/buckets/pics/objects/k'', u_rawpath = [], u_query = []\<rparr>,
      hc_header = [], hc_body = StreamReq (d_up ''x'')\<rparr> q_sys))"
  unfolding q_srv_def
  by (rule system_stays_consistent[OF mem.bolt_store_axioms first_route.law q_net_ok q_reach _
        prod.collapse[symmetric], THEN conjunct1]) (simp add: q_auth_def)

text \<open>
  C26: a request about a bucket changes nothing outside that bucket; from anyone but its owner it
  changes nothing at all and is answered with an error.
\<close>

theorem only_the_owner_acts:
  assumes "bolt_store B" and "chi_law chi" and "net_ok net" and "sys_reachable B base s"
    and "request_bucket r = Some b" and "segment b"
    and "api_serve (api_server chi B base net auth) ctx r s = (resp, s')"
  shows "only_bucket b (sys_view B base s) (sys_view B base s')
    \<and> (vw_owner (sys_view B base s) b \<noteq> Some (pUserID (requirePrincipal ctx)) \<longrightarrow>
         sys_view B base s' = sys_view B base s \<and> 400 \<le> status resp)"
proof -
  note D = deploymentI[OF assms(1-3)]
  from deployment.deployed_guarded[OF D deployment.sreach_inv[OF D assms(4)] assms(6,5,7)] show ?thesis
    by blast
qed

theorem only_the_owner_acts_witness:
  "sys_view mem_bolt d_base (snd (api_serve q_srv q_bob (ADeleteBucket ''pics'') q_sys)) = sys_view mem_bolt d_base q_sys
   \<and> 400 \<le> status (fst (api_serve q_srv q_bob (ADeleteBucket ''pics'') q_sys))"
proof -
  have "vw_owner (sys_view mem_bolt d_base q_sys) ''pics'' \<noteq> Some (pUserID (requirePrincipal q_bob))"
    using q_owner by (auto simp: q_amy_def q_bob_def requirePrincipal_def)
  with only_the_owner_acts[OF mem.bolt_store_axioms first_route.law q_net_ok q_reach _ q_segment
      prod.collapse[symmetric], of "ADeleteBucket ''pics''" q_auth q_bob]
  show ?thesis unfolding q_srv_def by simp
qed

text \<open>
  C27: after an upload answered 201, when no fault lies ahead, a download by the owner gives the bytes
  of the upload with its content type.
\<close>

theorem upload_then_download_end_to_end:
  assumes "bolt_store B" and "chi_law chi" and "net_ok net" and "sys_reachable B base s"
    and "segment b" and "object_param k"
    and "handlePutObject (api_server chi B base net auth) ctx b k ct r s = (resp, s')"
    and "status resp = StatusCreated" and "sys_calm net s'"
  shows "\<exists>s''. handleGetObject (api_server chi B base net auth) ctx b k s' =
    (\<lparr>status = StatusOK, headers = content_type_header (utf8_fix ct), body = RawBody (u_data r)\<rparr>, s'')"
proof -
  note D = deploymentI[OF assms(1-3)]
  show ?thesis by (rule deployment.deployed_put_get[OF D deployment.sreach_inv[OF D assms(4)] assms(5-9)])
qed

theorem upload_then_download_end_to_end_witness:
  "\<exists>s''. handleGetObject q_srv q_amy ''pics'' ''k'' (snd (q_put ''k'' ''xyz'' q_sys)) =
    (\<lparr>status = StatusOK, headers = content_type_header (utf8_fix ''t''), body = RawBody ''xyz''\<rparr>, s'')"
proof -
  have "status (fst (handlePutObject q_srv q_amy ''pics'' ''k'' ''t'' (d_up ''xyz'') q_sys)) = StatusCreated"
    using q_put_first[of "''xyz''"] by (simp add: maxUploadBytes_def q_put_def)
  from upload_then_download_end_to_end[OF mem.bolt_store_axioms first_route.law q_net_ok q_reach q_segment q_key(1)
      prod.collapse[symmetric] this[unfolded q_srv_def] q_calm]
  show ?thesis by (simp add: q_put_def q_srv_def d_simps)
qed

text \<open>
  C28: an upload by the owner of a bucket succeeds, if no fault lies ahead, the store of
  metadata-service has room, the key is a key, the body is complete and within the limit, and no file
  is in the way of its blob.
\<close>

theorem upload_succeeds_end_to_end:
  assumes "bolt_roomy B" and "chi_law chi" and "net_ok net" and "sys_reachable B base s" and "sys_calm net s"
    and "vw_owner (sys_view B base s) b = Some (pUserID (requirePrincipal ctx))"
    and "u_error r = None" and "length (u_data r) \<le> maxUploadBytes"
    and "upload_free base (nt_data net (Suc (sys_calls s))) b (u_data r) (sys_fs s)"
    and "k \<noteq> []" and "no_nul k" and "valid_utf8 k" and "length k \<le> 32704"
  shows "status (fst (handlePutObject (api_server chi B base net auth) ctx b k ct r s)) = StatusCreated"
proof -
  have S: "bolt_store B" using assms(1) by (simp add: bolt_roomy_def bolt_healthy_def)
  note D = deploymentI[OF S assms(2,3)]
  then have "roomy_deployment B chi net" using assms(1) by (simp add: roomy_deployment_def)
  from roomy_deployment.roomy_put[OF this deployment.sreach_inv[OF D assms(4)] assms(5-13) prod.collapse[symmetric]]
  show ?thesis by blast
qed

theorem upload_succeeds_end_to_end_witness:
  "status (fst (handlePutObject q_srv q_amy ''pics'' ''k'' ''t'' (d_up ''xyz'') q_sys)) = StatusCreated"
proof -
  have f: "upload_free d_base (nt_data q_net (Suc (sys_calls q_sys))) ''pics'' (u_data (d_up ''xyz'')) (sys_fs q_sys)"
    using q_free[of "''xyz''"] by (simp add: q_net_def q_sys_def d_simps)
  show ?thesis unfolding q_srv_def
    by (rule upload_succeeds_end_to_end[OF mem_roomy.bolt_roomy_axioms first_route.law q_net_ok q_reach q_calm q_owner _ _ f])
      (simp_all add: d_simps maxUploadBytes_def q_names)
qed

text \<open>
  C29: data-service keeps one blob for all objects of a bucket with the same content, but a delete of
  any of them removes it: after uploads of the same bytes under two keys, both answered 201, a delete
  of the first key makes the second one impossible to download, for every caller, although no call
  fails.
\<close>

theorem deleting_one_of_two_equal_objects_loses_both:
  assumes "bolt_store B" and "chi_law chi" and "net_ok net" and "sys_reachable B base s"
    and "segment b" and "object_param k" and "object_param k'" and "k \<noteq> k'"
    and "u_data r' = u_data r" and "u_data r \<noteq> []"
    and "handlePutObject (api_server chi B base net auth) ctx b k ct r s = (resp1, s1)"
    and "status resp1 = StatusCreated"
    and "handlePutObject (api_server chi B base net auth) ctx b k' ct' r' s1 = (resp2, s2)"
    and "status resp2 = StatusCreated" and "sys_calm net s2"
    and "handleDeleteObject (api_server chi B base net auth) ctx b k s2 = (resp3, s3)"
  shows "\<not> (status (fst (handleGetObject (api_server chi B base net auth) ctx' b k' s3)) = StatusOK
    \<and> body (fst (handleGetObject (api_server chi B base net auth) ctx' b k' s3)) = RawBody (u_data r))"
proof -
  note D = deploymentI[OF assms(1-3)]
  show ?thesis by (rule deployment.deployed_shared[OF D deployment.sreach_inv[OF D assms(4)] assms(5-16)])
qed

theorem deleting_one_of_two_equal_objects_loses_both_witness:
  "let s1 = snd (q_put ''k'' ''xyz'' q_sys); s2 = snd (q_put ''l'' ''xyz'' s1);
       s3 = snd (handleDeleteObject q_srv q_amy ''pics'' ''k'' s2)
   in body (fst (handleGetObject q_srv q_amy ''pics'' ''l'' s2)) = RawBody ''xyz''
    \<and> \<not> (status (fst (handleGetObject q_srv q_amy ''pics'' ''l'' s3)) = StatusOK
         \<and> body (fst (handleGetObject q_srv q_amy ''pics'' ''l'' s3)) = RawBody ''xyz'')"
proof -
  define s1 where "s1 = snd (q_put ''k'' ''xyz'' q_sys)"
  define s2 where "s2 = snd (q_put ''l'' ''xyz'' s1)"
  have n: "length ''xyz'' \<le> maxUploadBytes" by (simp add: maxUploadBytes_def)
  have p1: "handlePutObject q_srv q_amy ''pics'' ''k'' ''t'' (d_up ''xyz'') q_sys = (fst (q_put ''k'' ''xyz'' q_sys), s1)"
    and p2: "handlePutObject q_srv q_amy ''pics'' ''l'' ''t'' (d_up ''xyz'') s1 = (fst (q_put ''l'' ''xyz'' s1), s2)"
    by (simp_all add: s1_def s2_def q_put_def)
  have st: "status (fst (q_put ''k'' ''xyz'' q_sys)) = StatusCreated" "status (fst (q_put ''l'' ''xyz'' s1)) = StatusCreated"
    using q_put_first[OF n] q_stored(4)[OF n] by (simp_all add: s1_def)
  have i: "sys_inv mem_bolt d_base s1" using q_stored(1)[OF n] by (simp add: s1_def)
  from sample.deployed_put_get[OF i q_segment q_key(2) p2[unfolded q_srv_def] st(2) q_calm]
  have "body (fst (handleGetObject q_srv q_amy ''pics'' ''l'' s2)) = RawBody ''xyz''"
    by (auto simp: q_srv_def d_simps)
  with deleting_one_of_two_equal_objects_loses_both[OF mem.bolt_store_axioms first_route.law q_net_ok q_reach
      q_segment q_key _ _ _ p1[unfolded q_srv_def] st(1) p2[unfolded q_srv_def] st(2) q_calm prod.collapse[symmetric],
      of q_amy]
  show ?thesis by (simp add: Let_def d_simps flip: s1_def s2_def q_srv_def)
qed

text \<open>
  C30: an upload whose record metadata-service rejects removes its content again, also when an object
  had that content before: that object can then no longer be downloaded.
\<close>

theorem rejected_upload_loses_an_equal_object:
  assumes "bolt_store B" and "chi_law chi" and "net_ok net" and "sys_reachable B base s"
    and "segment b" and "object_param k" and "u_data r' = u_data r" and "u_data r \<noteq> []"
    and "handlePutObject (api_server chi B base net auth) ctx b k ct r s = (resp1, s1)"
    and "status resp1 = StatusCreated" and "sys_calm net s1"
    and "handlePutObject (api_server chi B base net auth) ctx b k' ct' r' s1 = (resp2, s2)"
    and "400 \<le> status resp2" and "status resp2 \<noteq> StatusBadGateway"
  shows "\<not> (status (fst (handleGetObject (api_server chi B base net auth) ctx' b k s2)) = StatusOK
    \<and> body (fst (handleGetObject (api_server chi B base net auth) ctx' b k s2)) = RawBody (u_data r))"
proof -
  note D = deploymentI[OF assms(1-3)]
  show ?thesis by (rule deployment.deployed_rejected[OF D deployment.sreach_inv[OF D assms(4)] assms(5-14)])
qed

theorem rejected_upload_loses_an_equal_object_witness:
  "let s1 = snd (q_put ''k'' ''xyz'' q_sys); (resp, s2) = q_put [] ''xyz'' s1
   in status resp = StatusBadRequest
    \<and> \<not> (status (fst (handleGetObject q_srv q_amy ''pics'' ''k'' s2)) = StatusOK
         \<and> body (fst (handleGetObject q_srv q_amy ''pics'' ''k'' s2)) = RawBody ''xyz'')"
proof -
  define s1 where "s1 = snd (q_put ''k'' ''xyz'' q_sys)"
  obtain resp s2 where p2: "q_put [] ''xyz'' s1 = (resp, s2)" by fastforce
  have n: "length ''xyz'' \<le> maxUploadBytes" by (simp add: maxUploadBytes_def)
  have p1: "handlePutObject q_srv q_amy ''pics'' ''k'' ''t'' (d_up ''xyz'') q_sys = (fst (q_put ''k'' ''xyz'' q_sys), s1)"
    by (simp add: s1_def q_put_def)
  have st: "status (fst (q_put ''k'' ''xyz'' q_sys)) = StatusCreated" using q_put_first[OF n] .
  note i = q_stored(1-3)[OF n, folded s1_def]
  have f: "upload_free d_base (nt_data q_net (Suc (sys_calls s1))) ''pics'' (u_data (d_up ''xyz'')) (sys_fs s1)"
    using i(3) by (simp add: q_net_def d_simps)
  have o: "vw_owner (sys_view mem_bolt d_base s1) ''pics'' = Some (pUserID (requirePrincipal q_amy))"
    using i(2) by (simp add: q_amy_def requirePrincipal_def)
  have bad: "status resp = StatusBadRequest"
    using sample.roomy_no_key[OF i(1) q_calm o _ _ f, of q_auth "''t''"] p2 n
    by (simp add: q_put_def q_srv_def d_simps)
  with rejected_upload_loses_an_equal_object[OF mem.bolt_store_axioms first_route.law q_net_ok q_reach q_segment
      q_key(1) _ _ p1[unfolded q_srv_def] st q_calm p2[unfolded q_put_def q_srv_def], of q_amy]
  show ?thesis by (simp add: Let_def d_simps p2 flip: s1_def q_srv_def)
qed

text \<open>
  C31: the client puts object keys into URLs as they are, so a key that goes on with a question mark
  names the object before it: a download or a delete of \<open>k?q\<close> is a download or a delete of \<open>k\<close>.
\<close>

theorem question_mark_names_another_object:
  assumes "bolt_store B" and "chi_law chi" and "net_ok net"
    and "segment b" and "object_param k" and "query_tail q"
  shows "handleGetObject (api_server chi B base net auth) ctx b (k @ CHR ''?'' # q)
      = handleGetObject (api_server chi B base net auth) ctx b k
    \<and> handleDeleteObject (api_server chi B base net auth) ctx b (k @ CHR ''?'' # q)
      = handleDeleteObject (api_server chi B base net auth) ctx b k"
  using deployment.deployed_tail[OF deploymentI[OF assms(1-3)] assms(4-6)] by blast

theorem question_mark_names_another_object_witness:
  "handleDeleteObject q_srv q_amy ''pics'' ''k?v=2'' q_sys = handleDeleteObject q_srv q_amy ''pics'' ''k'' q_sys"
  using question_mark_names_another_object[OF mem.bolt_store_axioms first_route.law q_net_ok q_segment q_key(1), of "''v=2''" d_base q_auth q_amy]
  by (simp add: query_tail_def ctl_def byte_in_def flip: q_srv_def)

end
