(* ===== verification/Auth_Model.thy ===== *)
theory Auth_Model
  imports Meta_Model
begin

text \<open>
  The data of auth-service: users and credentials (\<open>internal/model\<close>), their JSON form, the keys and
  bolt buckets they are stored under, the repository interfaces as records of operations, and the
  contracts the services rely on as locales.  The package \<open>internal/store\<close> and the validation of
  key components are the same code as in metadata-service.
\<close>

section \<open>Bolt buckets\<close>

definition BoltBucketUsers :: string where
  "BoltBucketUsers = ''users''"

definition BoltBucketUsernameIdx :: string where
  "BoltBucketUsernameIdx = ''usernames''"

definition BoltBucketCredentials :: string where
  "BoltBucketCredentials = ''credentials''"

definition auth_bolt_buckets :: "string list" where
  "auth_bolt_buckets = [BoltBucketUsers, BoltBucketUsernameIdx, BoltBucketCredentials, BoltBucketMeta]"

definition auth_bootstrap :: "'d bolt \<Rightarrow> 'd \<Rightarrow> (go_error + unit) \<times> 'd" where
  "auth_bootstrap B = bootstrap B auth_bolt_buckets"

definition auth_open ::
    "'d bolt \<Rightarrow> string \<Rightarrow> go_error option \<Rightarrow> go_error + 'd \<Rightarrow> go_error + 'd" where
  "auth_open B = open_store B auth_bolt_buckets"

lemma auth_buckets_distinct [simp]:
  "BoltBucketUsers \<noteq> BoltBucketUsernameIdx" "BoltBucketUsernameIdx \<noteq> BoltBucketUsers"
  "BoltBucketUsers \<noteq> BoltBucketCredentials" "BoltBucketCredentials \<noteq> BoltBucketUsers"
  "BoltBucketUsernameIdx \<noteq> BoltBucketCredentials" "BoltBucketCredentials \<noteq> BoltBucketUsernameIdx"
  "BoltBucketUsers \<noteq> BoltBucketMeta" "BoltBucketUsernameIdx \<noteq> BoltBucketMeta" "BoltBucketCredentials \<noteq> BoltBucketMeta"
  "BoltBucketMeta \<noteq> BoltBucketUsers" "BoltBucketMeta \<noteq> BoltBucketUsernameIdx" "BoltBucketMeta \<noteq> BoltBucketCredentials"
  by (simp_all add: BoltBucketUsers_def BoltBucketUsernameIdx_def BoltBucketCredentials_def BoltBucketMeta_def)

section \<open>Records\<close>

record user =
  uID :: string
  uUsername :: string
  uPasswordHash :: string
  uIsAdmin :: bool
  uCreatedAt :: time

record credential_record =
  cdAccessKey :: string
  cdUserID :: string
  cdSecretKeyEncrypted :: string
  cdCreatedAt :: time
  cdRevokedAt :: "time option"

definition user_json :: "user \<Rightarrow> json" where
  "user_json u = JObj
     [(''id'', jstr (uID u)), (''username'', jstr (uUsername u)), (''password_hash'', jstr (uPasswordHash u)),
      (''is_admin'', JBool (uIsAdmin u)), (''created_at'', JTime (uCreatedAt u))]"

definition user_fields :: "user field list" where
  "user_fields =
     [(''id'', string_field (\<lambda>x u. u\<lparr>uID := x\<rparr>)),
      (''username'', string_field (\<lambda>x u. u\<lparr>uUsername := x\<rparr>)),
      (''password_hash'', string_field (\<lambda>x u. u\<lparr>uPasswordHash := x\<rparr>)),
      (''is_admin'', bool_field (\<lambda>x u. u\<lparr>uIsAdmin := x\<rparr>)),
      (''created_at'', time_field (\<lambda>x u. u\<lparr>uCreatedAt := x\<rparr>))]"

definition zero_user :: user where
  "zero_user = \<lparr>uID = [], uUsername = [], uPasswordHash = [], uIsAdmin = False, uCreatedAt = 0\<rparr>"

definition unmarshal_user :: "stored \<Rightarrow> go_error + user" where
  "unmarshal_user = unmarshal user_fields zero_user"

definition credential_json :: "credential_record \<Rightarrow> json" where
  "credential_json c = JObj
     ([(''access_key'', jstr (cdAccessKey c)), (''user_id'', jstr (cdUserID c)),
       (''secret_key_encrypted'', jstr (cdSecretKeyEncrypted c)), (''created_at'', JTime (cdCreatedAt c))]
      @ omit_nil ''revoked_at'' (cdRevokedAt c))"

definition credential_fields :: "credential_record field list" where
  "credential_fields =
     [(''access_key'', string_field (\<lambda>x c. c\<lparr>cdAccessKey := x\<rparr>)),
      (''user_id'', string_field (\<lambda>x c. c\<lparr>cdUserID := x\<rparr>)),
      (''secret_key_encrypted'', string_field (\<lambda>x c. c\<lparr>cdSecretKeyEncrypted := x\<rparr>)),
      (''created_at'', time_field (\<lambda>x c. c\<lparr>cdCreatedAt := x\<rparr>)),
      (''revoked_at'', time_ptr_field (\<lambda>x c. c\<lparr>cdRevokedAt := x\<rparr>))]"

definition zero_credential :: credential_record where
  "zero_credential = \<lparr>cdAccessKey = [], cdUserID = [], cdSecretKeyEncrypted = [], cdCreatedAt = 0, cdRevokedAt = None\<rparr>"

definition unmarshal_credential :: "stored \<Rightarrow> go_error + credential_record" where
  "unmarshal_credential = unmarshal credential_fields zero_credential"

text \<open>JSON keeps a record whose strings are valid UTF-8.\<close>

definition utf8_user :: "user \<Rightarrow> bool" where
  "utf8_user u \<longleftrightarrow> valid_utf8 (uID u) \<and> valid_utf8 (uUsername u) \<and> valid_utf8 (uPasswordHash u)"

definition utf8_credential :: "credential_record \<Rightarrow> bool" where
  "utf8_credential c \<longleftrightarrow> valid_utf8 (cdAccessKey c) \<and> valid_utf8 (cdUserID c) \<and> valid_utf8 (cdSecretKeyEncrypted c)"

lemma unmarshal_user_json [simp]: "utf8_user u \<Longrightarrow> unmarshal_user (Text (user_json u)) = Inr u"
  by (simp add: unmarshal_user_def unmarshal_def user_json_def user_fields_def json_decode_simps
      zero_user_def utf8_user_def)

lemma unmarshal_credential_json [simp]:
  "utf8_credential c \<Longrightarrow> unmarshal_credential (Text (credential_json c)) = Inr c"
  by (cases "cdRevokedAt c")
    (simp_all add: unmarshal_credential_def unmarshal_def credential_json_def credential_fields_def
      json_decode_simps zero_credential_def utf8_credential_def)

section \<open>Keys\<close>

definition component_key :: "string \<Rightarrow> string \<Rightarrow> go_error + bytes" where
  "component_key field value =
     (case ValidateKeyComponent field value of Some err \<Rightarrow> Inl err | None \<Rightarrow> Inr value)"

definition UserKey :: "string \<Rightarrow> go_error + bytes" where
  "UserKey userID = component_key ''user_id'' userID"

definition UsernameKey :: "string \<Rightarrow> go_error + bytes" where
  "UsernameKey username = component_key ''username'' username"

definition CredentialKey :: "string \<Rightarrow> go_error + bytes" where
  "CredentialKey accessKey = component_key ''access_key'' accessKey"

lemma component_key_simps [simp]:
  "component_key f v = Inr k \<longleftrightarrow> no_nul v \<and> k = v" "no_nul v \<Longrightarrow> component_key f v = Inr v"
  by (auto simp: component_key_def ValidateKeyComponent_def no_nul_def)

lemmas auth_keys = UserKey_def UsernameKey_def CredentialKey_def

section \<open>Interfaces\<close>

record 'd user_repository =
  ur_create :: "time \<Rightarrow> user \<Rightarrow> 'd \<Rightarrow> (go_error + user) \<times> 'd"
  ur_get_id :: "string \<Rightarrow> 'd \<Rightarrow> go_error + user"
  ur_get_name :: "string \<Rightarrow> 'd \<Rightarrow> go_error + user"

record 'd credential_repository =
  cr_create :: "time \<Rightarrow> credential_record \<Rightarrow> 'd \<Rightarrow> (go_error + credential_record) \<times> 'd"
  cr_get :: "string \<Rightarrow> 'd \<Rightarrow> go_error + credential_record"
  cr_revoke :: "time \<Rightarrow> string \<Rightarrow> 'd \<Rightarrow> (go_error + unit) \<times> 'd"

definition stamp_user :: "time \<Rightarrow> user \<Rightarrow> user" where
  "stamp_user now u = (if time_is_zero (uCreatedAt u) then u\<lparr>uCreatedAt := now\<rparr> else u)"

definition stamp_credential :: "time \<Rightarrow> credential_record \<Rightarrow> credential_record" where
  "stamp_credential now c = (if time_is_zero (cdCreatedAt c) then c\<lparr>cdCreatedAt := now\<rparr> else c)"

lemma stamp_user_sel [simp]:
  "uID (stamp_user now u) = uID u" "uUsername (stamp_user now u) = uUsername u"
  "uPasswordHash (stamp_user now u) = uPasswordHash u" "uIsAdmin (stamp_user now u) = uIsAdmin u"
  "utf8_user (stamp_user now u) = utf8_user u"
  by (simp_all add: stamp_user_def utf8_user_def)

lemma stamp_credential_sel [simp]:
  "cdAccessKey (stamp_credential now c) = cdAccessKey c" "cdUserID (stamp_credential now c) = cdUserID c"
  "cdSecretKeyEncrypted (stamp_credential now c) = cdSecretKeyEncrypted c"
  "cdRevokedAt (stamp_credential now c) = cdRevokedAt c"
  "utf8_credential (stamp_credential now c) = utf8_credential c"
  by (simp_all add: stamp_credential_def utf8_credential_def)

section \<open>Contracts\<close>

text \<open>
  \<open>users d id\<close> is the user of an identifier; names are unique.  \<open>creds d k\<close> is the credential of an
  access key, revoked ones included: an access key is never used again.
\<close>

locale user_contract =
  fixes R :: "'d user_repository"
    and inv :: "'d \<Rightarrow> bool"
    and users :: "'d \<Rightarrow> string \<Rightarrow> user option"
  assumes users_id: "inv d \<Longrightarrow> users d i = Some u \<Longrightarrow> uID u = i \<and> utf8_user u \<and> no_nul (uUsername u)"
    and users_unique: "inv d \<Longrightarrow> users d i = Some u \<Longrightarrow> users d j = Some v \<Longrightarrow> uUsername u = uUsername v \<Longrightarrow> i = j"
    and uget_id: "inv d \<Longrightarrow> ur_get_id R i d = Inr u \<longleftrightarrow> users d i = Some u"
    and uget_id_missing: "inv d \<Longrightarrow> no_nul i \<Longrightarrow> users d i = None \<Longrightarrow> ur_get_id R i d = Inl (Sentinel ErrNotFound)"
    and uget_name: "inv d \<Longrightarrow> ur_get_name R n d = Inr u \<longleftrightarrow> (\<exists>i. users d i = Some u \<and> uUsername u = n)"
    and uget_name_missing: "inv d \<Longrightarrow> no_nul n \<Longrightarrow> (\<And>i u. users d i = Some u \<Longrightarrow> uUsername u \<noteq> n) \<Longrightarrow>
      ur_get_name R n d = Inl (Sentinel ErrNotFound)"
    and ucreate_taken: "inv d \<Longrightarrow> no_nul (uID u) \<Longrightarrow> users d i = Some v \<Longrightarrow> uUsername v = uUsername u \<or> i = uID u \<Longrightarrow>
      no_nul (uUsername u) \<Longrightarrow> ur_create R now u d = (Inl (Sentinel ErrAlreadyExists), d)"
    and ucreate_exists: "inv d \<Longrightarrow> ur_create R now u d = (Inl e, d') \<Longrightarrow> errors_is e ErrAlreadyExists \<Longrightarrow>
      \<exists>i v. users d i = Some v \<and> (uUsername v = uUsername u \<or> i = uID u)"
    and ucreate_error: "ur_create R now u d = (Inl e, d') \<Longrightarrow> d' = d"
    and ucreate_Inr: "inv d \<Longrightarrow> utf8_user u \<Longrightarrow> ur_create R now u d = (Inr u', d') \<Longrightarrow>
      inv d' \<and> u' = stamp_user now u \<and> users d (uID u) = None
      \<and> (\<forall>i v. users d i = Some v \<longrightarrow> uUsername v \<noteq> uUsername u)
      \<and> users d' = (users d)(uID u \<mapsto> u')"

locale credential_contract =
  fixes R :: "'d credential_repository"
    and inv :: "'d \<Rightarrow> bool"
    and creds :: "'d \<Rightarrow> string \<Rightarrow> credential_record option"
  assumes creds_key: "inv d \<Longrightarrow> creds d k = Some c \<Longrightarrow> cdAccessKey c = k \<and> utf8_credential c \<and> no_nul k"
    and cget: "inv d \<Longrightarrow> cr_get R k d = Inr c \<longleftrightarrow> creds d k = Some c \<and> cdRevokedAt c = None"
    and cget_missing: "inv d \<Longrightarrow> no_nul k \<Longrightarrow> (\<And>c. creds d k = Some c \<Longrightarrow> cdRevokedAt c \<noteq> None) \<Longrightarrow>
      cr_get R k d = Inl (Sentinel ErrNotFound)"
    and ccreate_taken: "inv d \<Longrightarrow> creds d (cdAccessKey c) \<noteq> None \<Longrightarrow>
      cr_create R now c d = (Inl (Sentinel ErrAlreadyExists), d)"
    and ccreate_exists: "inv d \<Longrightarrow> cr_create R now c d = (Inl e, d') \<Longrightarrow> errors_is e ErrAlreadyExists \<Longrightarrow>
      creds d (cdAccessKey c) \<noteq> None"
    and ccreate_error: "cr_create R now c d = (Inl e, d') \<Longrightarrow> d' = d"
    and ccreate_Inr: "inv d \<Longrightarrow> utf8_credential c \<Longrightarrow> cr_create R now c d = (Inr c', d') \<Longrightarrow>
      inv d' \<and> c' = stamp_credential now c \<and> creds d (cdAccessKey c) = None
      \<and> creds d' = (creds d)(cdAccessKey c \<mapsto> c')"
    and crevoke_missing: "inv d \<Longrightarrow> no_nul k \<Longrightarrow> (\<And>c. creds d k = Some c \<Longrightarrow> cdRevokedAt c \<noteq> None) \<Longrightarrow>
      cr_revoke R now k d = (Inl (Sentinel ErrNotFound), d)"
    and crevoke_error: "cr_revoke R now k d = (Inl e, d') \<Longrightarrow> d' = d"
    and crevoke_Inr: "inv d \<Longrightarrow> cr_revoke R now k d = (Inr x, d') \<Longrightarrow>
      inv d' \<and> (\<exists>c. creds d k = Some c \<and> cdRevokedAt c = None
        \<and> creds d' = (creds d)(k \<mapsto> c\<lparr>cdRevokedAt := Some now\<rparr>))"

text \<open>Both repositories on one database: an operation of one leaves the data of the other alone.\<close>

locale auth_store = user_contract UR inv users + credential_contract CR inv creds
  for UR :: "'d user_repository" and CR :: "'d credential_repository" and inv :: "'d \<Rightarrow> bool"
    and users :: "'d \<Rightarrow> string \<Rightarrow> user option" and creds :: "'d \<Rightarrow> string \<Rightarrow> credential_record option" +
  assumes ucreate_creds: "inv d \<Longrightarrow> utf8_user u \<Longrightarrow> ur_create UR now u d = (Inr u', d') \<Longrightarrow> creds d' = creds d"
    and ccreate_users: "inv d \<Longrightarrow> utf8_credential c \<Longrightarrow> cr_create CR now c d = (Inr c', d') \<Longrightarrow> users d' = users d"
    and crevoke_users: "inv d \<Longrightarrow> cr_revoke CR now k d = (Inr x, d') \<Longrightarrow> users d' = users d"

text \<open>A store that does not fail: what the checks of an operation admit is done.\<close>

definition user_fits :: "user \<Rightarrow> bool" where
  "user_fits u \<longleftrightarrow> no_nul (uID u) \<and> key_ok (uID u) \<and> no_nul (uUsername u) \<and> key_ok (uUsername u)"

locale auth_store_total = auth_store +
  assumes ucreate_total: "inv d \<Longrightarrow> user_fits u \<Longrightarrow> users d (uID u) = None \<Longrightarrow>
      (\<And>i v. users d i = Some v \<Longrightarrow> uUsername v \<noteq> uUsername u) \<Longrightarrow> \<exists>u' d'. ur_create UR now u d = (Inr u', d')"
    and ccreate_total: "inv d \<Longrightarrow> no_nul (cdAccessKey c) \<Longrightarrow> key_ok (cdAccessKey c) \<Longrightarrow> creds d (cdAccessKey c) = None \<Longrightarrow>
      \<exists>c' d'. cr_create CR now c d = (Inr c', d')"
    and crevoke_total: "inv d \<Longrightarrow> creds d k = Some c \<Longrightarrow> cdRevokedAt c = None \<Longrightarrow> key_ok k \<Longrightarrow>
      \<exists>d'. cr_revoke CR now k d = (Inr (), d')"

end
