(* ===== verification/Go_Base64.thy ===== *)
theory Go_Base64
  imports Go_Prelude
begin

text \<open>
  \<open>base64.StdEncoding\<close> of package \<open>encoding/base64\<close>: the text of a byte string, with padding, and
  its decoding, which skips line breaks and does not look at the unused bits before the padding.
\<close>

definition b64_alphabet :: string where
  "b64_alphabet = ''ABCDEFGHIJKLMNOPQRSTUVWXYZabcdefghijklmnopqrstuvwxyz0123456789+/''"

definition b64_digit :: "nat \<Rightarrow> char" where
  "b64_digit n = b64_alphabet ! n"

definition b64_value :: "char \<Rightarrow> nat option" where
  "b64_value c = map_of (zip b64_alphabet [0..<64]) c"

fun b64_encode :: "bytes \<Rightarrow> string" where
  "b64_encode [] = []"
| "b64_encode [a] =
     [b64_digit (of_char a div 4), b64_digit (of_char a mod 4 * 16), CHR ''='', CHR ''='']"
| "b64_encode [a, b] =
     [b64_digit (of_char a div 4), b64_digit (of_char a mod 4 * 16 + of_char b div 16),
      b64_digit (of_char b mod 16 * 4), CHR ''='']"
| "b64_encode (a # b # c # s) =
     b64_digit (of_char a div 4) # b64_digit (of_char a mod 4 * 16 + of_char b div 16)
       # b64_digit (of_char b mod 16 * 4 + of_char c div 64) # b64_digit (of_char c mod 64) # b64_encode s"

definition b64_bytes :: "nat \<Rightarrow> nat \<Rightarrow> nat \<Rightarrow> nat \<Rightarrow> bytes" where
  "b64_bytes p q r t =
     [char_of (p * 4 + q div 16), char_of (q mod 16 * 16 + r div 4), char_of (r mod 4 * 64 + t)]"

fun b64_quanta :: "string \<Rightarrow> bytes option" where
  "b64_quanta [] = Some []"
| "b64_quanta (c1 # c2 # c3 # c4 # s) =
     (case (b64_value c1, b64_value c2) of
        (Some p, Some q) \<Rightarrow>
          if c3 = CHR ''='' then
            (if c4 = CHR ''='' \<and> s = [] then Some (take 1 (b64_bytes p q 0 0)) else None)
          else
            (case b64_value c3 of
               None \<Rightarrow> None
             | Some r \<Rightarrow>
                 if c4 = CHR ''='' then (if s = [] then Some (take 2 (b64_bytes p q r 0)) else None)
                 else
                   (case b64_value c4 of
                      None \<Rightarrow> None
                    | Some t \<Rightarrow> map_option ((@) (b64_bytes p q r t)) (b64_quanta s)))
      | _ \<Rightarrow> None)"
| "b64_quanta _ = None"

definition b64_decode :: "string \<Rightarrow> bytes option" where
  "b64_decode s = b64_quanta (filter (\<lambda>c. c \<noteq> CHR 0x0A \<and> c \<noteq> CHR 0x0D) s)"

section \<open>Lemmas\<close>

definition b64_char :: "char \<Rightarrow> bool" where
  "b64_char c \<longleftrightarrow> byte_in 33 126 c"

lemma b64_digits:
  "\<forall>n \<in> set [0..<64]. b64_value (b64_digit n) = Some n \<and> b64_digit n \<noteq> CHR ''='' \<and> b64_char (b64_digit n)"
  by code_simp

lemma b64_digit_simps [simp]:
  "n < 64 \<Longrightarrow> b64_value (b64_digit n) = Some n" "n < 64 \<Longrightarrow> b64_digit n \<noteq> CHR ''=''"
  "n < 64 \<Longrightarrow> b64_char (b64_digit n)"
  using b64_digits by simp_all

lemma b64_pad_char [simp]: "b64_char CHR ''=''"
  by (simp add: b64_char_def byte_in_def)

lemma byte_parts [simp]:
  "of_char (a :: char) div 4 < (64 :: nat)" "of_char (a :: char) mod 64 < (64 :: nat)"
  "of_char (a :: char) mod 4 * 16 + of_char (b :: char) div 16 < (64 :: nat)"
  "of_char (b :: char) mod 16 * 4 + of_char (c :: char) div 64 < (64 :: nat)"
  "of_char (a :: char) mod 4 * 16 < (64 :: nat)" "of_char (b :: char) mod 16 * 4 < (64 :: nat)"
proof -
  have "(of_char x :: nat) < 256" for x :: char by simp
  note l = this[of a] this[of b] this[of c]
  show "of_char a div 4 < (64 :: nat)" "of_char a mod 64 < (64 :: nat)"
    "of_char a mod 4 * 16 + of_char b div 16 < (64 :: nat)"
    "of_char b mod 16 * 4 + of_char c div 64 < (64 :: nat)"
    "of_char a mod 4 * 16 < (64 :: nat)" "of_char b mod 16 * 4 < (64 :: nat)"
    using l by linarith+
qed

lemma b64_encode_chars: "c \<in> set (b64_encode s) \<Longrightarrow> b64_char c"
  by (induction s rule: b64_encode.induct) auto

lemma b64_bytes_parts:
  "b64_bytes (of_char a div 4) (of_char a mod 4 * 16 + of_char b div 16)
     (of_char b mod 16 * 4 + of_char c div 64) (of_char c mod 64) = [a, b, c]"
proof -
  have "(of_char x :: nat) < 256" for x :: char by simp
  then have d: "of_char b div 16 < (16 :: nat)" "of_char c div 64 < (4 :: nat)"
    by (simp_all add: less_mult_imp_div_less)
  then have q: "(of_char a mod 4 * 16 + of_char b div 16) div 16 = (of_char a mod 4 :: nat)"
    "(of_char a mod 4 * 16 + of_char b div 16) mod 16 = (of_char b div 16 :: nat)"
    "(of_char b mod 16 * 4 + of_char c div 64) div 4 = (of_char b mod 16 :: nat)"
    "(of_char b mod 16 * 4 + of_char c div 64) mod 4 = (of_char c div 64 :: nat)"
    by simp_all
  show ?thesis unfolding b64_bytes_def q by (simp add: div_mult_mod_eq)
qed

lemma b64_quanta_encode: "b64_quanta (b64_encode s) = Some s"
proof (induction s rule: b64_encode.induct)
  case (2 a)
  have "take 1 (b64_bytes (of_char a div 4) (of_char a mod 4 * 16) 0 0) = [a]"
    using b64_bytes_parts[of a "char_of (0 :: nat)" "char_of (0 :: nat)"] by (simp add: b64_bytes_def)
  then show ?case by simp
next
  case (3 a b)
  have "take 2 (b64_bytes (of_char a div 4) (of_char a mod 4 * 16 + of_char b div 16) (of_char b mod 16 * 4) 0) = [a, b]"
    using b64_bytes_parts[of a b "char_of (0 :: nat)"] by (simp add: b64_bytes_def)
  then show ?case by simp
qed (simp_all add: b64_bytes_parts)

theorem b64_decode_encode [simp]: "b64_decode (b64_encode s) = Some s"
proof -
  have "filter (\<lambda>c. c \<noteq> CHR 0x0A \<and> c \<noteq> CHR 0x0D) (b64_encode s) = b64_encode s"
    by (rule filter_True) (auto dest!: b64_encode_chars simp: b64_char_def byte_in_def)
  then show ?thesis by (simp add: b64_decode_def b64_quanta_encode)
qed

lemma b64_encode_utf8 [simp]: "valid_utf8 (b64_encode s)"
  by (rule valid_utf8_ascii) (auto dest!: b64_encode_chars simp: b64_char_def byte_in_def)

end
