(* ===== verification/Auth_Jwt.thy ===== *)
theory Auth_Jwt
  imports Auth_Model Go_Base64 Go_Crypto Go_Strings
begin

text \<open>
  The tokens and the password hashes of auth-service (\<open>internal/service/jwt_service.go\<close>).  The packages
  \<open>golang-jwt\<close> and \<open>bcrypt\<close> are third-party code: records of the functions the service calls, with
  their documented behaviour as locales.
\<close>

section \<open>Claims\<close>

text \<open>The claims of the program with the registered claims it sets or reads.\<close>

record token_claims =
  tkUsername :: string
  tkIsAdmin :: bool
  tkType :: string
  tkSubject :: string
  tkIssuedAt :: "time option"
  tkExpiresAt :: "time option"

definition utf8_claims :: "token_claims \<Rightarrow> bool" where
  "utf8_claims c \<longleftrightarrow> valid_utf8 (tkUsername c) \<and> valid_utf8 (tkType c) \<and> valid_utf8 (tkSubject c)"

section \<open>The JWT package\<close>

text \<open>
  \<open>jw_date\<close> is \<open>jwt.NewNumericDate\<close>, \<open>jw_sign\<close> signs claims with HS256 and a key, \<open>jw_parse\<close> is
  \<open>jwt.ParseWithClaims\<close>: it takes the time and the key function, which sees the algorithm in the
  header of the token, and gives \<open>Token.Valid\<close> and the claims.
\<close>

type_synonym keyfunc = "string \<Rightarrow> go_error + bytes"

record jwt_package =
  jw_date :: "time \<Rightarrow> time"
  jw_sign :: "bytes \<Rightarrow> token_claims \<Rightarrow> go_error + string"
  jw_parse :: "time \<Rightarrow> keyfunc \<Rightarrow> string \<Rightarrow> go_error + bool \<times> token_claims"

definition HS256 :: string where
  "HS256 = ''HS256''"

text \<open>\<open>base64.RawURLEncoding\<close>, the encoding of the parts of a token: other letters and no padding.\<close>

definition b64url_encode :: "bytes \<Rightarrow> string" where
  "b64url_encode s =
     map (\<lambda>c. if c = CHR ''+'' then CHR ''-'' else if c = CHR ''/'' then CHR ''_'' else c)
       (filter (\<lambda>c. c \<noteq> CHR ''='') (b64_encode s))"

definition b64url_decode :: "string \<Rightarrow> bytes option" where
  "b64url_decode s =
     (let t = filter (\<lambda>c. c \<noteq> CHR 0x0A \<and> c \<noteq> CHR 0x0D) s
      in if list_ex (\<lambda>c. c \<in> set ''+/='') t then None
         else b64_decode (map (\<lambda>c. if c = CHR ''-'' then CHR ''+'' else if c = CHR ''_'' then CHR ''/'' else c) t
                @ replicate ((4 - length t mod 4) mod 4) CHR ''=''))"

text \<open>A token with an HS256 signature: its last part is the HMAC of what is before it (RFC 7515).\<close>

definition hs256_signed :: "bytes \<Rightarrow> string \<Rightarrow> bool" where
  "hs256_signed key tok \<longleftrightarrow>
     (\<exists>p s. tok = p @ CHR ''.'' # s \<and> b64url_decode s = Some (hmacSHA256 key p))"

text \<open>
  The documented behaviour: dates are whole seconds; claims signed with HS256 are parsed with the same
  key to the same claims until they expire, and to nothing else; what is parsed is not expired and
  its signature was checked with a key the key function gave for its algorithm.
\<close>

locale jwt_laws =
  fixes J :: jwt_package
  assumes date: "jw_date J t \<le> t \<and> t - second < jw_date J t \<and> jw_date J (jw_date J t) = jw_date J t"
    and sign_total: "\<exists>tok. jw_sign J key c = Inr tok \<and> tok \<noteq> []"
    and parse_signed: "jw_sign J key c = Inr tok \<Longrightarrow> utf8_claims c \<Longrightarrow> map_option (jw_date J) (tkIssuedAt c) = tkIssuedAt c \<Longrightarrow>
      tkExpiresAt c = Some e \<Longrightarrow> jw_date J e = e \<Longrightarrow> kf HS256 = Inr key \<Longrightarrow> now < e \<Longrightarrow>
      jw_parse J now kf tok = Inr (True, c)"
    and parse_same: "jw_sign J key c = Inr tok \<Longrightarrow> utf8_claims c \<Longrightarrow> map_option (jw_date J) (tkIssuedAt c) = tkIssuedAt c \<Longrightarrow>
      map_option (jw_date J) (tkExpiresAt c) = tkExpiresAt c \<Longrightarrow> jw_parse J now kf tok = Inr (v, c') \<Longrightarrow> c' = c"
    and parse_expiry: "jw_parse J now kf tok = Inr (v, c) \<Longrightarrow> tkExpiresAt c = Some e \<Longrightarrow> now < e"
    and parse_key: "jw_parse J now kf tok = Inr (v, c) \<Longrightarrow>
      \<exists>alg key. kf alg = Inr key \<and> (alg = HS256 \<longrightarrow> hs256_signed key tok)"

section \<open>The bcrypt package\<close>

text \<open>
  \<open>bc_generate\<close> is \<open>GenerateFromPassword\<close> at the default cost with the salt it draws, \<open>bc_compare\<close> is
  \<open>CompareHashAndPassword\<close>.
\<close>

record bcrypt_package =
  bc_generate :: "bytes \<Rightarrow> string \<Rightarrow> go_error + string"
  bc_compare :: "string \<Rightarrow> string \<Rightarrow> go_error option"

locale bcrypt_laws =
  fixes Bc :: bcrypt_package
  assumes generate_total: "length pw \<le> 72 \<Longrightarrow> \<exists>h. bc_generate Bc salt pw = Inr h"
    and generate_utf8: "bc_generate Bc salt pw = Inr h \<Longrightarrow> valid_utf8 h"
    and generate_compare: "bc_generate Bc salt pw = Inr h \<Longrightarrow> bc_compare Bc h pw = None"
    and generate_plain: "bc_generate Bc salt pw = Inl e \<Longrightarrow> \<exists>m. e = Plain m"

section \<open>Minting and parsing\<close>

definition accessTokenTTL :: int where
  "accessTokenTTL = 15 * 60 * second"

definition refreshTokenTTL :: int where
  "refreshTokenTTL = 7 * 24 * 60 * 60 * second"

definition tokenTypeAccess :: string where
  "tokenTypeAccess = ''access''"

definition tokenTypeRefresh :: string where
  "tokenTypeRefresh = ''refresh''"

definition access_claims :: "jwt_package \<Rightarrow> time \<Rightarrow> user \<Rightarrow> token_claims" where
  "access_claims J now u =
     \<lparr>tkUsername = uUsername u, tkIsAdmin = uIsAdmin u, tkType = tokenTypeAccess, tkSubject = uID u,
      tkIssuedAt = Some (jw_date J now), tkExpiresAt = Some (jw_date J (now + accessTokenTTL))\<rparr>"

definition refresh_claims :: "jwt_package \<Rightarrow> time \<Rightarrow> user \<Rightarrow> token_claims" where
  "refresh_claims J now u =
     \<lparr>tkUsername = [], tkIsAdmin = False, tkType = tokenTypeRefresh, tkSubject = uID u,
      tkIssuedAt = Some (jw_date J now), tkExpiresAt = Some (jw_date J (now + refreshTokenTTL))\<rparr>"

definition mintAccessToken :: "jwt_package \<Rightarrow> bytes \<Rightarrow> time \<Rightarrow> user \<Rightarrow> go_error + string" where
  "mintAccessToken J secret now u = jw_sign J secret (access_claims J now u)"

definition mintRefreshToken :: "jwt_package \<Rightarrow> bytes \<Rightarrow> time \<Rightarrow> user \<Rightarrow> go_error + string" where
  "mintRefreshToken J secret now u = jw_sign J secret (refresh_claims J now u)"

definition hs256_key :: "bytes \<Rightarrow> keyfunc" where
  "hs256_key secret alg =
     (if alg \<noteq> HS256 then Inl (Plain [Lit ''unexpected signing method: '', Lit alg]) else Inr secret)"

definition jwt_parse :: "jwt_package \<Rightarrow> bytes \<Rightarrow> time \<Rightarrow> string \<Rightarrow> string \<Rightarrow> go_error + token_claims" where
  "jwt_parse J secret now tokenString wantType =
     (case jw_parse J now (hs256_key secret) tokenString of
        Inl err \<Rightarrow> Inl err
      | Inr (valid, claims) \<Rightarrow>
          if \<not> valid then Inl (Plain [Lit ''invalid token''])
          else if tkExpiresAt claims = None then Inl (Plain [Lit ''missing exp claim''])
          else if tkType claims \<noteq> wantType then
            Inl (Plain [Lit ''unexpected token type '', Quoted (tkType claims), Lit '', want '', Quoted wantType])
          else Inr claims)"

lemma token_types [simp]: "tokenTypeAccess \<noteq> tokenTypeRefresh" "tokenTypeRefresh \<noteq> tokenTypeAccess"
  by (simp_all add: tokenTypeAccess_def tokenTypeRefresh_def)

lemma token_types_utf8 [simp]: "valid_utf8 tokenTypeAccess" "valid_utf8 tokenTypeRefresh"
  by (simp_all add: tokenTypeAccess_def tokenTypeRefresh_def valid_utf8_ascii byte_in_def)

lemma claims_sel [simp]:
  "tkType (access_claims J now u) = tokenTypeAccess" "tkSubject (access_claims J now u) = uID u"
  "tkIsAdmin (access_claims J now u) = uIsAdmin u" "tkUsername (access_claims J now u) = uUsername u"
  "tkExpiresAt (access_claims J now u) = Some (jw_date J (now + accessTokenTTL))"
  "tkIssuedAt (access_claims J now u) = Some (jw_date J now)"
  "tkType (refresh_claims J now u) = tokenTypeRefresh" "tkSubject (refresh_claims J now u) = uID u"
  "tkIsAdmin (refresh_claims J now u) = False" "tkUsername (refresh_claims J now u) = []"
  "tkExpiresAt (refresh_claims J now u) = Some (jw_date J (now + refreshTokenTTL))"
  "tkIssuedAt (refresh_claims J now u) = Some (jw_date J now)"
  by (simp_all add: access_claims_def refresh_claims_def)

lemma utf8_minted [simp]: "utf8_user u \<Longrightarrow> utf8_claims (access_claims J now u)"
  "utf8_user u \<Longrightarrow> utf8_claims (refresh_claims J now u)"
  by (simp_all add: utf8_user_def utf8_claims_def)

lemma hs256_key_Inr: "hs256_key secret alg = Inr k \<longleftrightarrow> alg = HS256 \<and> k = secret"
  by (auto simp: hs256_key_def)

context jwt_laws
begin

lemma date_idem [simp]: "jw_date J (jw_date J t) = jw_date J t"
  using date by blast

lemma mint_total: "\<exists>tok. mintAccessToken J secret now u = Inr tok \<and> tok \<noteq> []"
  "\<exists>tok. mintRefreshToken J secret now u = Inr tok \<and> tok \<noteq> []"
  using sign_total by (auto simp: mintAccessToken_def mintRefreshToken_def)

text \<open>What the service accepts was signed with its secret, is of the type asked for and not expired.\<close>

lemma jwt_parse_Inr:
  assumes "jwt_parse J secret now tok ty = Inr c"
  shows "tkType c = ty \<and> hs256_signed secret tok \<and> (\<exists>e. tkExpiresAt c = Some e \<and> now < e)"
proof -
  from assms obtain v e where p: "jw_parse J now (hs256_key secret) tok = Inr (v, c)" "tkType c = ty" "tkExpiresAt c = Some e"
    by (auto simp: jwt_parse_def split: sum.splits prod.splits if_splits)
  with parse_key[OF p(1)] parse_expiry[OF p(1)] show ?thesis by (auto simp: hs256_key_Inr)
qed

lemma parse_access:
  assumes "utf8_user u" and "mintAccessToken J secret t u = Inr tok" and "now < jw_date J (t + accessTokenTTL)"
  shows "jwt_parse J secret now tok tokenTypeAccess = Inr (access_claims J t u)"
proof -
  have "jw_parse J now (hs256_key secret) tok = Inr (True, access_claims J t u)"
    by (rule parse_signed[of secret _ _ "jw_date J (t + accessTokenTTL)"])
      (use assms in \<open>simp_all add: mintAccessToken_def hs256_key_def\<close>)
  then show ?thesis by (simp add: jwt_parse_def)
qed

lemma parse_refresh:
  assumes "utf8_user u" and "mintRefreshToken J secret t u = Inr tok" and "now < jw_date J (t + refreshTokenTTL)"
  shows "jwt_parse J secret now tok tokenTypeRefresh = Inr (refresh_claims J t u)"
proof -
  have "jw_parse J now (hs256_key secret) tok = Inr (True, refresh_claims J t u)"
    by (rule parse_signed[of secret _ _ "jw_date J (t + refreshTokenTTL)"])
      (use assms in \<open>simp_all add: mintRefreshToken_def hs256_key_def\<close>)
  then show ?thesis by (simp add: jwt_parse_def)
qed

text \<open>A token of one type is never accepted as one of the other, whoever signed it.\<close>

lemma parse_other_type:
  assumes "utf8_user u" and "mintRefreshToken J key t u = Inr tok"
  shows "jwt_parse J secret now tok tokenTypeAccess \<noteq> Inr c"
proof
  assume "jwt_parse J secret now tok tokenTypeAccess = Inr c"
  then obtain v where p: "jw_parse J now (hs256_key secret) tok = Inr (v, c)" "tkType c = tokenTypeAccess"
    by (auto simp: jwt_parse_def split: sum.splits prod.splits if_splits)
  from parse_same[OF _ _ _ _ p(1), of key "refresh_claims J t u"] assms have "c = refresh_claims J t u"
    by (simp add: mintRefreshToken_def)
  with p(2) show False by simp
qed

lemma parse_access_type:
  assumes "utf8_user u" and "mintAccessToken J key t u = Inr tok"
  shows "jwt_parse J secret now tok tokenTypeRefresh \<noteq> Inr c"
proof
  assume "jwt_parse J secret now tok tokenTypeRefresh = Inr c"
  then obtain v where p: "jw_parse J now (hs256_key secret) tok = Inr (v, c)" "tkType c = tokenTypeRefresh"
    by (auto simp: jwt_parse_def split: sum.splits prod.splits if_splits)
  from parse_same[OF _ _ _ _ p(1), of key "access_claims J t u"] assms have "c = access_claims J t u"
    by (simp add: mintAccessToken_def)
  with p(2) show False by simp
qed

end

end
