(* ===== verification/Go_Aes.thy ===== *)
theory Go_Aes
  imports Go_Prelude
begin

unbundle bit_operations_syntax

text \<open>
  What auth-service uses of \<open>crypto/aes\<close> and \<open>crypto/cipher\<close>: the AES block cipher (FIPS 197) for
  keys of 16, 24 and 32 bytes, and Galois/Counter mode (NIST SP 800-38D) with 12-byte nonces and
  16-byte tags, without additional data.  The proofs need of the block cipher only that a block has
  16 bytes: what is sealed can be opened.
\<close>

section \<open>The field of bytes\<close>

definition xtime :: "8 word \<Rightarrow> 8 word" where
  "xtime b = push_bit 1 b XOR (if bit b 7 then 0x1B else 0)"

fun gmul :: "nat \<Rightarrow> 8 word \<Rightarrow> 8 word \<Rightarrow> 8 word" where
  "gmul 0 a b = 0"
| "gmul (Suc k) a b = (if bit b 0 then a else 0) XOR gmul k (xtime a) (drop_bit 1 b)"

fun gpow :: "8 word \<Rightarrow> nat \<Rightarrow> 8 word" where
  "gpow a 0 = 1"
| "gpow a (Suc n) = gmul 8 a (gpow a n)"

text \<open>The substitution: the inverse in the field (its power 254), then an affine map.\<close>

definition sub_byte :: "8 word \<Rightarrow> 8 word" where
  "sub_byte b =
     (let i = gpow b 254
      in i XOR word_rotl 1 i XOR word_rotl 2 i XOR word_rotl 3 i XOR word_rotl 4 i XOR 0x63)"

section \<open>AES\<close>

definition xor_words :: "8 word list \<Rightarrow> 8 word list \<Rightarrow> 8 word list" where
  "xor_words = map2 (XOR)"

text \<open>The key schedule: words of four bytes, the newest first.\<close>

fun aes_expand :: "nat \<Rightarrow> nat \<Rightarrow> nat \<Rightarrow> 8 word list list \<Rightarrow> 8 word list list" where
  "aes_expand nk 0 i ws = ws"
| "aes_expand nk (Suc k) i ws =
     (let t = hd ws;
          t' = (if i mod nk = 0 then
                  xor_words (map sub_byte (rotate1 t)) [gpow 2 (i div nk - 1), 0, 0, 0]
                else if 6 < nk \<and> i mod nk = 4 then map sub_byte t
                else t)
      in aes_expand nk k (Suc i) (xor_words (ws ! (nk - 1)) t' # ws))"

fun pieces :: "nat \<Rightarrow> nat \<Rightarrow> 'a list \<Rightarrow> 'a list list" where
  "pieces 0 n xs = []"
| "pieces (Suc k) n xs = take n xs # pieces k n (drop n xs)"

definition aes_rounds :: "bytes \<Rightarrow> nat" where
  "aes_rounds key = length key div 4 + 6"

definition round_keys :: "bytes \<Rightarrow> 8 word list list" where
  "round_keys key =
     (let nk = length key div 4; nr = aes_rounds key;
          ws = aes_expand nk (4 * (nr + 1) - nk) nk (rev (pieces nk 4 (map of_char key)))
      in map concat (pieces (nr + 1) 4 (rev ws)))"

definition shift_rows :: "8 word list \<Rightarrow> 8 word list" where
  "shift_rows s = map (\<lambda>i. s ! ((i + 4 * (i mod 4)) mod 16)) [0..<16]"

fun mix_column :: "8 word list \<Rightarrow> 8 word list" where
  "mix_column [a, b, c, d] =
     [gmul 8 a 2 XOR gmul 8 b 3 XOR c XOR d, a XOR gmul 8 b 2 XOR gmul 8 c 3 XOR d,
      a XOR b XOR gmul 8 c 2 XOR gmul 8 d 3, gmul 8 a 3 XOR b XOR c XOR gmul 8 d 2]"
| "mix_column s = s"

definition mix_columns :: "8 word list \<Rightarrow> 8 word list" where
  "mix_columns s = concat (map mix_column (pieces 4 4 s))"

fun aes_cipher :: "8 word list list \<Rightarrow> 8 word list \<Rightarrow> 8 word list" where
  "aes_cipher [] s = s"
| "aes_cipher [k] s = xor_words (shift_rows (map sub_byte s)) k"
| "aes_cipher (k # ks) s = aes_cipher ks (xor_words (mix_columns (shift_rows (map sub_byte s))) k)"

definition aes_block :: "bytes \<Rightarrow> bytes \<Rightarrow> bytes" where
  "aes_block key block =
     (let ks = round_keys key
      in map (\<lambda>w. char_of (unat w)) (aes_cipher (tl ks) (xor_words (map of_char block) (hd ks))))"

section \<open>Counter mode\<close>

definition xor_char :: "char \<Rightarrow> char \<Rightarrow> char" where
  "xor_char a b = char_of ((of_char a :: nat) XOR of_char b)"

definition xor_bytes :: "bytes \<Rightarrow> bytes \<Rightarrow> bytes" where
  "xor_bytes = map2 xor_char"

text \<open>The last four bytes of the counter block count, big-endian.\<close>

definition inc32 :: "bytes \<Rightarrow> bytes" where
  "inc32 cb = take 12 cb @ be_bytes 4 (be_value (drop 12 cb) + 1)"

function gctr :: "(bytes \<Rightarrow> bytes) \<Rightarrow> bytes \<Rightarrow> bytes \<Rightarrow> bytes" where
  "gctr E cb xs =
     (if xs = [] then [] else xor_bytes (take 16 xs) (E cb) @ gctr E (inc32 cb) (drop 16 xs))"
  by pat_completeness auto
termination by (relation "measure (\<lambda>(E, cb, xs). length xs)") auto

declare gctr.simps [simp del]

section \<open>Authentication\<close>

text \<open>Multiplication in the field of blocks, from the highest bit of \<open>x\<close> down.\<close>

fun gf_mult :: "nat \<Rightarrow> 128 word \<Rightarrow> 128 word \<Rightarrow> 128 word \<Rightarrow> 128 word" where
  "gf_mult 0 x v z = z"
| "gf_mult (Suc k) x v z =
     gf_mult k x (if bit v 0 then drop_bit 1 v XOR push_bit 120 0xE1 else drop_bit 1 v)
       (if bit x k then z XOR v else z)"

definition ghash :: "bytes \<Rightarrow> bytes \<Rightarrow> bytes" where
  "ghash h xs =
     be_bytes 16 (unat (foldl (\<lambda>y b. gf_mult 128 (y XOR word_of_nat (be_value b)) (word_of_nat (be_value h)) 0)
       0 (pieces (length xs div 16) 16 xs)))"

definition gcm_tag :: "(bytes \<Rightarrow> bytes) \<Rightarrow> bytes \<Rightarrow> bytes \<Rightarrow> bytes" where
  "gcm_tag E nonce ct =
     (let h = E (replicate 16 (CHR 0x00));
          pad = replicate ((16 - length ct mod 16) mod 16) (CHR 0x00)
      in xor_bytes (ghash h (ct @ pad @ be_bytes 8 0 @ be_bytes 8 (8 * length ct)))
           (E (nonce @ be_bytes 4 1)))"

definition gcm_seal :: "(bytes \<Rightarrow> bytes) \<Rightarrow> bytes \<Rightarrow> bytes \<Rightarrow> bytes" where
  "gcm_seal E nonce pt =
     (let ct = gctr E (nonce @ be_bytes 4 2) pt in ct @ gcm_tag E nonce ct)"

definition gcm_open :: "(bytes \<Rightarrow> bytes) \<Rightarrow> bytes \<Rightarrow> bytes \<Rightarrow> bytes option" where
  "gcm_open E nonce sealed =
     (if length sealed < 16 then None
      else
        (let ct = take (length sealed - 16) sealed; tag = drop (length sealed - 16) sealed
         in if tag = gcm_tag E nonce ct then Some (gctr E (nonce @ be_bytes 4 2) ct) else None))"

section \<open>A block has 16 bytes\<close>

lemma length_pieces [simp]: "length (pieces k n xs) = k"
  by (induction k arbitrary: xs) auto

lemma pieces_length: "k * n \<le> length xs \<Longrightarrow> \<forall>x \<in> set (pieces k n xs). length x = n"
proof (induction k arbitrary: xs)
  case (Suc k)
  then have "k * n \<le> length (drop n xs)" by simp
  from Suc.IH[OF this] Suc.prems show ?case by simp
qed simp

lemma length_xor_words [simp]: "length (xor_words a b) = min (length a) (length b)"
  by (simp add: xor_words_def)

lemma length_concat_words: "\<forall>x \<in> set xs. length x = n \<Longrightarrow> length (concat xs) = length xs * n"
  by (induction xs) auto

lemma aes_expand_words:
  "\<forall>w \<in> set ws. length w = 4 \<Longrightarrow> 0 < nk \<Longrightarrow> nk \<le> length ws \<Longrightarrow>
     (\<forall>w \<in> set (aes_expand nk k i ws). length w = 4) \<and> length (aes_expand nk k i ws) = length ws + k"
proof (induction nk k i ws rule: aes_expand.induct)
  case (2 nk k i ws)
  from "2.prems" have "ws ! (nk - 1) \<in> set ws" "hd ws \<in> set ws" by (auto intro!: nth_mem hd_in_set)
  with "2.prems"(1) have l: "length (ws ! (nk - 1)) = 4" "length (hd ws) = 4" by blast+
  define t' where "t' = (if i mod nk = 0 then
      xor_words (map sub_byte (rotate1 (hd ws))) [gpow 2 (i div nk - 1), 0, 0, 0]
    else if 6 < nk \<and> i mod nk = 4 then map sub_byte (hd ws) else hd ws)"
  have "length t' = 4" using l(2) by (simp add: t'_def)
  with l(1) "2.prems" have "\<forall>w \<in> set (xor_words (ws ! (nk - 1)) t' # ws). length w = 4"
    "nk \<le> length (xor_words (ws ! (nk - 1)) t' # ws)" by simp_all
  from "2.IH"[OF refl t'_def this(1) "2.prems"(2) this(2)]
  have "(\<forall>w \<in> set (aes_expand nk k (Suc i) (xor_words (ws ! (nk - 1)) t' # ws)). length w = 4)
    \<and> length (aes_expand nk k (Suc i) (xor_words (ws ! (nk - 1)) t' # ws)) = length ws + Suc k" by simp
  moreover have "aes_expand nk (Suc k) i ws = aes_expand nk k (Suc i) (xor_words (ws ! (nk - 1)) t' # ws)"
    by (simp only: aes_expand.simps Let_def t'_def)
  ultimately show ?case by simp
qed simp

definition aes_key_ok :: "bytes \<Rightarrow> bool" where
  "aes_key_ok key \<longleftrightarrow> length key \<in> {16, 24, 32}"

lemma round_keys_length:
  assumes "aes_key_ok key"
  shows "length (round_keys key) = aes_rounds key + 1" "\<forall>k \<in> set (round_keys key). length k = 16"
proof -
  let ?nk = "length key div 4" and ?nr = "aes_rounds key"
  let ?ws = "aes_expand ?nk (4 * (?nr + 1) - ?nk) ?nk (rev (pieces ?nk 4 (map of_char key)))"
  have k: "0 < ?nk" "?nk \<le> 4 * (?nr + 1)" "?nk * 4 = length key"
    using assms by (auto simp: aes_key_ok_def aes_rounds_def)
  have "\<forall>w \<in> set (rev (pieces ?nk 4 (map of_char key :: 8 word list))). length w = 4"
    using pieces_length[of ?nk 4 "map of_char key :: 8 word list"] k(3) by simp
  from aes_expand_words[OF this k(1), of "4 * (?nr + 1) - ?nk" ?nk]
  have w: "\<forall>w \<in> set ?ws. length w = 4" "length ?ws = 4 * (?nr + 1)" using k(2) by simp_all
  have p: "\<forall>x \<in> set (pieces (?nr + 1) 4 (rev ?ws)). length x = 4"
    by (rule pieces_length) (unfold length_rev w(2), simp)
  have sub: "set (concat (pieces n m xs)) \<subseteq> set xs" for n m and xs :: "8 word list list"
    by (induction n arbitrary: xs) (auto dest: in_set_takeD in_set_dropD)
  have "length (concat x) = 16" if "x \<in> set (pieces (?nr + 1) 4 (rev ?ws))" for x
  proof -
    have "set x \<subseteq> set ?ws" using sub[of "?nr + 1" 4 "rev ?ws"] that by auto
    with w(1) p that have "\<forall>y \<in> set x. length y = 4" "length x = 4" by blast+
    then show ?thesis using length_concat_words[of x 4] by simp
  qed
  then show "\<forall>k \<in> set (round_keys key). length k = 16" by (auto simp: round_keys_def Let_def)
  show "length (round_keys key) = aes_rounds key + 1" by (simp add: round_keys_def Let_def)
qed

lemma length_shift_rows [simp]: "length (shift_rows s) = 16"
  by (simp add: shift_rows_def)

lemma length_mix_column [simp]: "length (mix_column s) = length s"
  by (cases s rule: mix_column.cases) auto

lemma length_mix_columns: "length s = 16 \<Longrightarrow> length (mix_columns s) = 16"
  using pieces_length[of 4 4 s] length_concat_words[of "map mix_column (pieces 4 4 s)" 4]
  by (simp add: mix_columns_def)

lemma aes_cipher_length: "length s = 16 \<Longrightarrow> \<forall>k \<in> set ks. length k = 16 \<Longrightarrow> length (aes_cipher ks s) = 16"
  by (induction ks s rule: aes_cipher.induct) (simp_all add: length_mix_columns)

text \<open>What the counter mode needs of a block cipher.\<close>

locale block_cipher =
  fixes E :: "bytes \<Rightarrow> bytes"
  assumes block_length: "length b = 16 \<Longrightarrow> length (E b) = 16"
begin

lemma xor_char_twice [simp]: "xor_char (xor_char a b) b = a"
proof -
  have less: "(of_char x :: nat) < 2 ^ 8" for x :: char by simp
  have "take_bit 8 ((of_char a :: nat) XOR of_char b) = of_char a XOR of_char b"
    using less[of a] less[of b] by (simp add: take_bit_xor take_bit_nat_eq_self)
  then have "of_char (char_of ((of_char a :: nat) XOR of_char b)) = (of_char a XOR of_char b :: nat)"
    by (simp add: take_bit_eq_mod)
  then show ?thesis by (simp add: xor_char_def ac_simps)
qed

lemma xor_bytes_twice: "length xs \<le> length ks \<Longrightarrow> xor_bytes (xor_bytes xs ks) ks = xs"
  by (induction xs ks rule: list_induct2') (auto simp: xor_bytes_def)

lemma length_xor_bytes [simp]: "length (xor_bytes xs ks) = min (length xs) (length ks)"
  by (simp add: xor_bytes_def)

lemma inc32_length [simp]: "length cb = 16 \<Longrightarrow> length (inc32 cb) = 16"
  by (simp add: inc32_def)

lemma gctr_Nil [simp]: "gctr E cb [] = []"
  by (simp add: gctr.simps)

lemma gctr_step: "xs \<noteq> [] \<Longrightarrow> gctr E cb xs = xor_bytes (take 16 xs) (E cb) @ gctr E (inc32 cb) (drop 16 xs)"
  using gctr.simps[of E cb xs] by simp

lemma length_gctr: "length cb = 16 \<Longrightarrow> length (gctr E cb xs) = length xs"
proof (induction "length xs" arbitrary: cb xs rule: less_induct)
  case less
  show ?case
  proof (cases "xs = []")
    case False
    then have "length (gctr E (inc32 cb) (drop 16 xs)) = length (drop 16 xs)"
      using less(1)[of "drop 16 xs" "inc32 cb"] less(2) by simp
    with False less(2) show ?thesis by (simp add: gctr_step block_length)
  qed simp
qed

text \<open>Encrypting twice with the same counters gives the text back.\<close>

lemma gctr_twice: "length cb = 16 \<Longrightarrow> gctr E cb (gctr E cb xs) = xs"
proof (induction "length xs" arbitrary: cb xs rule: less_induct)
  case less
  show ?case
  proof (cases "xs = []")
    case False
    let ?a = "xor_bytes (take 16 xs) (E cb)" and ?r = "gctr E (inc32 cb) (drop 16 xs)"
    have g: "gctr E cb xs = ?a @ ?r" using False by (rule gctr_step)
    have a: "length ?a = min 16 (length xs)" using less(2) by (simp add: block_length)
    have t: "take 16 (?a @ ?r) = ?a" "drop 16 (?a @ ?r) = ?r"
    proof -
      have "16 \<le> length xs \<or> ?r = []" by (cases "16 \<le> length xs") auto
      with a show "take 16 (?a @ ?r) = ?a" "drop 16 (?a @ ?r) = ?r" by auto
    qed
    have "0 < length ?a" unfolding a using False by simp
    then have "?a @ ?r \<noteq> []" by (metis append_is_Nil_conv less_nat_zero_code list.size(3))
    from gctr_step[OF this, of cb]
    have "gctr E cb (?a @ ?r) = xor_bytes ?a (E cb) @ gctr E (inc32 cb) ?r" unfolding t .
    also have "xor_bytes ?a (E cb) = take 16 xs"
      using less(2) by (intro xor_bytes_twice) (simp add: block_length)
    also have "gctr E (inc32 cb) ?r = drop 16 xs"
      using less(1)[of "drop 16 xs" "inc32 cb"] less(2) False by simp
    finally show ?thesis using g by simp
  qed simp
qed

lemma length_gcm_tag: "length nonce = 12 \<Longrightarrow> length (gcm_tag E nonce ct) = 16"
  by (simp add: gcm_tag_def Let_def ghash_def block_length)

theorem gcm_open_seal:
  assumes "length nonce = 12"
  shows "gcm_open E nonce (gcm_seal E nonce pt) = Some pt"
  using assms
  by (simp add: gcm_open_def gcm_seal_def Let_def length_gcm_tag gctr_twice)

text \<open>What opens was sealed with this nonce, bit by bit.\<close>

theorem gcm_open_Some:
  assumes "length nonce = 12" and "gcm_open E nonce sealed = Some pt"
  shows "sealed = gcm_seal E nonce pt"
proof -
  define ct where "ct = take (length sealed - 16) sealed"
  from assms have "drop (length sealed - 16) sealed = gcm_tag E nonce ct" "pt = gctr E (nonce @ be_bytes 4 2) ct"
    by (auto simp: gcm_open_def ct_def Let_def split: if_splits)
  with assms(1) show ?thesis
    using append_take_drop_id[of "length sealed - 16" sealed]
    by (simp add: gcm_seal_def Let_def gctr_twice flip: ct_def)
qed

end

locale aes_cipher_key =
  fixes key :: bytes
  assumes key_ok: "aes_key_ok key"

sublocale aes_cipher_key \<subseteq> block_cipher "aes_block key"
proof
  fix b :: bytes
  assume b: "length b = 16"
  note r = round_keys_length[OF key_ok]
  then have ne: "round_keys key \<noteq> []" by auto
  with r(2) have "length (hd (round_keys key)) = 16" "\<forall>k \<in> set (tl (round_keys key)). length k = 16"
    by (auto dest: list.set_sel(2))
  with b show "length (aes_block key b) = 16" by (simp add: aes_block_def Let_def aes_cipher_length)
qed

context aes_cipher_key
begin

lemmas cipher = block_cipher_axioms

end

lemma aes_is_cipher: "aes_key_ok key \<Longrightarrow> block_cipher (aes_block key)"
  by (rule aes_cipher_key.cipher) (simp add: aes_cipher_key_def)

interpretation zero_key: aes_cipher_key "replicate 32 (CHR 0x00)"
  by unfold_locales (simp add: aes_key_ok_def)

end
