(* ===== verification/Auth_Service.thy ===== *)
theory Auth_Service
  imports Auth_Jwt Go_Aes
begin

text \<open>
  The services of auth-service (\<open>internal/service\<close>) over the repository interfaces: registration,
  login and tokens, and the access keys with their encrypted secrets.
\<close>

section \<open>Surroundings\<close>

text \<open>
  What a request reads from its surroundings: its context, the clock at successive readings, the
  identifier \<open>uuid.NewString\<close> draws, the salt bcrypt draws, and successive \<open>rand.Read\<close> calls by
  the number of bytes they ask for.
\<close>

record auth_env =
  ae_ctx :: ctx
  ae_now :: "nat \<Rightarrow> time"
  ae_uuid :: string
  ae_salt :: bytes
  ae_rand :: "nat \<Rightarrow> nat \<Rightarrow> go_error + bytes"

definition rand_ok :: "auth_env \<Rightarrow> bool" where
  "rand_ok e \<longleftrightarrow> (\<forall>i n b. ae_rand e i n = Inr b \<longrightarrow> length b = n)"

section \<open>Users\<close>

definition username_char :: "char \<Rightarrow> bool" where
  "username_char c \<longleftrightarrow> byte_in 97 122 c \<or> byte_in 65 90 c \<or> byte_in 48 57 c \<or> c = CHR ''_'' \<or> c = CHR ''-''"

definition usernameRE :: "re_item list" where
  "usernameRE = [Rep username_char 3 32]"

definition minPasswordLength :: nat where
  "minPasswordLength = 8"

definition maxPasswordLength :: nat where
  "maxPasswordLength = 72"

definition input_error :: "message \<Rightarrow> go_error" where
  "input_error m = Wrap [] (Sentinel ErrInvalidInput) m"

definition Register ::
    "bcrypt_package \<Rightarrow> 'd user_repository \<Rightarrow> auth_env \<Rightarrow> string \<Rightarrow> string \<Rightarrow> 'd \<Rightarrow> (go_error + user) \<times> 'd" where
  "Register Bc UR e username password d =
     (if \<not> re_match usernameRE username then
        (Inl (input_error [Lit '': username must be 3-32 alphanumeric/underscore/hyphen characters, got '', Quoted username]), d)
      else if length password < minPasswordLength then
        (Inl (input_error [Lit '': password must be at least '', Dec (int minPasswordLength), Lit '' characters'']), d)
      else if maxPasswordLength < length password then
        (Inl (input_error [Lit '': password must be at most '', Dec (int maxPasswordLength), Lit '' bytes'']), d)
      else
        (case bc_generate Bc (ae_salt e) password of
           Inl err \<Rightarrow> (Inl (Wrap [Lit ''hash password: ''] err []), d)
         | Inr hash \<Rightarrow>
             ur_create UR (ae_now e 1)
               \<lparr>uID = ae_uuid e, uUsername = username, uPasswordHash = hash, uIsAdmin = False, uCreatedAt = 0\<rparr> d))"

definition GetUser :: "'d user_repository \<Rightarrow> string \<Rightarrow> 'd \<Rightarrow> go_error + user" where
  "GetUser UR i d = (if i = [] then Inl (input_error [Lit '': user id is required'']) else ur_get_id UR i d)"

section \<open>Tokens\<close>

definition minJWTSecretLength :: nat where
  "minJWTSecretLength = 32"

text \<open>The service keeps the secret; it is refused when it is shorter than the output of the hash.\<close>

definition NewAuthService :: "bytes \<Rightarrow> go_error + bytes" where
  "NewAuthService jwtSecret =
     (if length jwtSecret < minJWTSecretLength then
        Inl (Plain [Lit ''jwt secret must be at least '', Dec (int minJWTSecretLength), Lit '' bytes, got '',
          Dec (int (length jwtSecret))])
      else Inr jwtSecret)"

definition Login ::
    "jwt_package \<Rightarrow> bcrypt_package \<Rightarrow> bytes \<Rightarrow> 'd user_repository \<Rightarrow> auth_env \<Rightarrow> string \<Rightarrow> string \<Rightarrow> 'd
       \<Rightarrow> go_error + string \<times> string" where
  "Login J Bc secret UR e username password d =
     (if username = [] \<or> password = [] then Inl (input_error [Lit '': username and password are required''])
      else
        (case ur_get_name UR username d of
           Inl err \<Rightarrow> Inl (if errors_is err ErrNotFound then Sentinel ErrInvalidCredentials else err)
         | Inr u \<Rightarrow>
             if bc_compare Bc (uPasswordHash u) password \<noteq> None then Inl (Sentinel ErrInvalidCredentials)
             else
               (case mintAccessToken J secret (ae_now e 1) u of
                  Inl err \<Rightarrow> Inl (Wrap [Lit ''mint access token: ''] err [])
                | Inr access \<Rightarrow>
                    (case mintRefreshToken J secret (ae_now e 2) u of
                       Inl err \<Rightarrow> Inl (Wrap [Lit ''mint refresh token: ''] err [])
                     | Inr refresh \<Rightarrow> Inr (access, refresh)))))"

definition Refresh ::
    "jwt_package \<Rightarrow> bytes \<Rightarrow> 'd user_repository \<Rightarrow> auth_env \<Rightarrow> string \<Rightarrow> 'd \<Rightarrow> go_error + string" where
  "Refresh J secret UR e refreshToken d =
     (if refreshToken = [] then Inl (input_error [Lit '': refresh_token is required''])
      else
        (case jwt_parse J secret (ae_now e 1) refreshToken tokenTypeRefresh of
           Inl _ \<Rightarrow> Inl (Sentinel ErrInvalidCredentials)
         | Inr claims \<Rightarrow>
             (case ur_get_id UR (tkSubject claims) d of
                Inl err \<Rightarrow> Inl (if errors_is err ErrNotFound then Sentinel ErrInvalidCredentials else err)
              | Inr u \<Rightarrow>
                  (case mintAccessToken J secret (ae_now e 2) u of
                     Inl err \<Rightarrow> Inl (Wrap [Lit ''mint access token: ''] err [])
                   | Inr access \<Rightarrow> Inr access))))"

record auth_principal =
  apUserID :: string
  apIsAdmin :: bool

definition VerifyAccessToken :: "jwt_package \<Rightarrow> bytes \<Rightarrow> time \<Rightarrow> string \<Rightarrow> go_error + auth_principal" where
  "VerifyAccessToken J secret now tokenString =
     (case jwt_parse J secret now tokenString tokenTypeAccess of
        Inl _ \<Rightarrow> Inl (Sentinel ErrInvalidCredentials)
      | Inr claims \<Rightarrow> Inr \<lparr>apUserID = tkSubject claims, apIsAdmin = tkIsAdmin claims\<rparr>)"

section \<open>Encryption of secret keys\<close>

definition cs_gcm :: "bytes \<Rightarrow> go_error + (bytes \<Rightarrow> bytes)" where
  "cs_gcm masterKey =
     (if aes_key_ok masterKey then Inr (aes_block masterKey)
      else Inl (Wrap [Lit ''init AES cipher: '']
        (Plain [Lit ''crypto/aes: invalid key size '', Dec (int (length masterKey))]) []))"

definition gcmNonceSize :: nat where
  "gcmNonceSize = 12"

definition encrypt :: "bytes \<Rightarrow> auth_env \<Rightarrow> nat \<Rightarrow> string \<Rightarrow> go_error + string" where
  "encrypt masterKey e i plaintext =
     (case cs_gcm masterKey of
        Inl err \<Rightarrow> Inl err
      | Inr E \<Rightarrow>
          (case ae_rand e i gcmNonceSize of
             Inl err \<Rightarrow> Inl (Wrap [Lit ''generate nonce: ''] err [])
           | Inr nonce \<Rightarrow> Inr (b64_encode (nonce @ gcm_seal E nonce plaintext))))"

definition decrypt :: "bytes \<Rightarrow> string \<Rightarrow> go_error + string" where
  "decrypt masterKey encoded =
     (case b64_decode encoded of
        None \<Rightarrow> Inl (Wrap [Lit ''decode ciphertext: ''] (Plain [Lit ''illegal base64 data'']) [])
      | Some raw \<Rightarrow>
          (case cs_gcm masterKey of
             Inl err \<Rightarrow> Inl err
           | Inr E \<Rightarrow>
               if length raw < gcmNonceSize then Inl (Plain [Lit ''ciphertext shorter than nonce''])
               else
                 (case gcm_open E (take gcmNonceSize raw) (drop gcmNonceSize raw) of
                    None \<Rightarrow> Inl (Wrap [Lit ''decrypt: ''] (Plain [Lit ''cipher: message authentication failed'']) [])
                  | Some plaintext \<Rightarrow> Inr plaintext)))"

section \<open>Access keys\<close>

definition accessKeyPrefix :: string where
  "accessKeyPrefix = ''AKIA''"

definition accessKeyRandLength :: nat where
  "accessKeyRandLength = 16"

definition secretKeyByteLength :: nat where
  "secretKeyByteLength = 30"

definition maxAccessKeyRetries :: nat where
  "maxAccessKeyRetries = 5"

definition base32Alphabet :: string where
  "base32Alphabet = ''ABCDEFGHIJKLMNOPQRSTUVWXYZ234567''"

definition randomStringFromAlphabet :: "auth_env \<Rightarrow> nat \<Rightarrow> string \<Rightarrow> nat \<Rightarrow> go_error + string" where
  "randomStringFromAlphabet e i alphabet n =
     (case ae_rand e i n of
        Inl err \<Rightarrow> Inl err
      | Inr b \<Rightarrow> Inr (map (\<lambda>v. alphabet ! (of_char v mod length alphabet)) b))"

definition generateAccessKey :: "auth_env \<Rightarrow> nat \<Rightarrow> go_error + string" where
  "generateAccessKey e i =
     (case randomStringFromAlphabet e i base32Alphabet accessKeyRandLength of
        Inl err \<Rightarrow> Inl err
      | Inr sfx \<Rightarrow> Inr (accessKeyPrefix @ sfx))"

definition generateSecretKey :: "auth_env \<Rightarrow> nat \<Rightarrow> go_error + string" where
  "generateSecretKey e i =
     (case ae_rand e i secretKeyByteLength of
        Inl err \<Rightarrow> Inl err
      | Inr b \<Rightarrow> Inr (b64_encode b))"

text \<open>The loop over access keys: another one after a collision, five at most.\<close>

function issue_loop ::
    "'d credential_repository \<Rightarrow> auth_env \<Rightarrow> string \<Rightarrow> string \<Rightarrow> nat \<Rightarrow> 'd \<Rightarrow> (go_error + credential_record) \<times> 'd" where
  "issue_loop CR e userID encrypted attempt d =
     (case generateAccessKey e (2 + attempt) of
        Inl genErr \<Rightarrow> (Inl (Wrap [Lit ''generate access key: ''] genErr []), d)
      | Inr accessKey \<Rightarrow>
          (case cr_create CR (ae_now e (1 + attempt))
                  \<lparr>cdAccessKey = accessKey, cdUserID = userID, cdSecretKeyEncrypted = encrypted,
                   cdCreatedAt = 0, cdRevokedAt = None\<rparr> d of
             (Inr c, d') \<Rightarrow> (Inr c, d')
           | (Inl createErr, d') \<Rightarrow>
               if errors_is createErr ErrAlreadyExists \<and> attempt < maxAccessKeyRetries - 1
               then issue_loop CR e userID encrypted (Suc attempt) d'
               else (Inl createErr, d')))"
  by pat_completeness auto
termination
  by (relation "measure (\<lambda>(CR, e, u, s, attempt, d). maxAccessKeyRetries - attempt)") auto

declare issue_loop.simps [simp del]

record issued_credential =
  isAccessKey :: string
  isSecretKey :: string
  isUserID :: string
  isCreatedAt :: time

definition IssueCredential ::
    "bytes \<Rightarrow> 'd user_repository \<Rightarrow> 'd credential_repository \<Rightarrow> auth_env \<Rightarrow> string \<Rightarrow> 'd
       \<Rightarrow> (go_error + issued_credential) \<times> 'd" where
  "IssueCredential masterKey UR CR e userID d =
     (if userID = [] then (Inl (input_error [Lit '': user id is required'']), d)
      else
        (case ur_get_id UR userID d of
           Inl err \<Rightarrow> (Inl err, d)
         | Inr _ \<Rightarrow>
             (case generateSecretKey e 0 of
                Inl err \<Rightarrow> (Inl (Wrap [Lit ''generate secret key: ''] err []), d)
              | Inr secretKey \<Rightarrow>
                  (case encrypt masterKey e 1 secretKey of
                     Inl err \<Rightarrow> (Inl (Wrap [Lit ''encrypt secret key: ''] err []), d)
                   | Inr encrypted \<Rightarrow>
                       (case issue_loop CR e userID encrypted 0 d of
                          (Inl err, d') \<Rightarrow> (Inl err, d')
                        | (Inr c, d') \<Rightarrow>
                            (Inr \<lparr>isAccessKey = cdAccessKey c, isSecretKey = secretKey, isUserID = userID,
                                  isCreatedAt = cdCreatedAt c\<rparr>, d'))))))"

definition access_key_required :: go_error where
  "access_key_required = input_error [Lit '': access key is required'']"

definition RevokeCredential ::
    "'d credential_repository \<Rightarrow> auth_env \<Rightarrow> string \<Rightarrow> 'd \<Rightarrow> (go_error + unit) \<times> 'd" where
  "RevokeCredential CR e accessKey d =
     (if accessKey = [] then (Inl access_key_required, d) else cr_revoke CR (ae_now e 1) accessKey d)"

definition GetCredentialOwner :: "'d credential_repository \<Rightarrow> string \<Rightarrow> 'd \<Rightarrow> go_error + string" where
  "GetCredentialOwner CR accessKey d =
     (if accessKey = [] then Inl access_key_required
      else case cr_get CR accessKey d of Inl err \<Rightarrow> Inl err | Inr c \<Rightarrow> Inr (cdUserID c))"

record looked_up_credential =
  luUserID :: string
  luSecretKey :: string

definition LookupCredential ::
    "bytes \<Rightarrow> 'd credential_repository \<Rightarrow> string \<Rightarrow> 'd \<Rightarrow> go_error + looked_up_credential" where
  "LookupCredential masterKey CR accessKey d =
     (if accessKey = [] then Inl access_key_required
      else
        (case cr_get CR accessKey d of
           Inl err \<Rightarrow> Inl err
         | Inr c \<Rightarrow>
             (case decrypt masterKey (cdSecretKeyEncrypted c) of
                Inl err \<Rightarrow> Inl (Wrap [Lit ''decrypt secret key: ''] err [])
              | Inr secretKey \<Rightarrow> Inr \<lparr>luUserID = cdUserID c, luSecretKey = secretKey\<rparr>)))"

end
