(* ===== verification/Auth_Laws.thy ===== *)
theory Auth_Laws
  imports Auth_Service
begin

text \<open>
  What the services of auth-service do, proved over the contracts of the repositories and of the
  token and password packages.
\<close>

section \<open>Names and keys\<close>

lemma username_chars: "re_match usernameRE n \<Longrightarrow> list_all username_char n \<and> 3 \<le> length n \<and> length n \<le> 32"
  by (auto simp: usernameRE_def re_match_split)

lemma username_utf8: "re_match usernameRE n \<Longrightarrow> valid_utf8 n"
  by (drule username_chars) (auto intro!: valid_utf8_ascii simp: list_all_iff username_char_def byte_in_def)

lemma username_no_nul: "re_match usernameRE n \<Longrightarrow> no_nul n"
  by (drule username_chars) (auto simp: no_nul_def keySeparator_def list_all_iff username_char_def byte_in_def)

lemma username_nonempty: "re_match usernameRE n \<Longrightarrow> n \<noteq> []"
  by (drule username_chars) auto

definition access_key_char :: "char \<Rightarrow> bool" where
  "access_key_char c \<longleftrightarrow> byte_in 65 90 c \<or> byte_in 50 55 c"

definition access_key_form :: "string \<Rightarrow> bool" where
  "access_key_form k \<longleftrightarrow> length k = 20 \<and> take 4 k = accessKeyPrefix \<and> list_all access_key_char k"

lemma base32_length [simp]: "length base32Alphabet = 32"
  by (simp add: base32Alphabet_def)

lemma base32_chars: "list_all access_key_char base32Alphabet"
  by (simp add: base32Alphabet_def access_key_char_def byte_in_def)

lemma generateAccessKey_form:
  assumes "rand_ok e" and "generateAccessKey e i = Inr k"
  shows "access_key_form k"
proof -
  from assms(2) obtain b where b: "ae_rand e i 16 = Inr b"
    "k = ''AKIA'' @ map (\<lambda>v. base32Alphabet ! (of_char v mod 32)) b"
    by (auto simp: generateAccessKey_def randomStringFromAlphabet_def accessKeyRandLength_def accessKeyPrefix_def
        split: sum.splits)
  have "access_key_char (base32Alphabet ! (of_char v mod 32))" for v
    using base32_chars by (auto simp: list_all_length)
  with b assms(1) show ?thesis
    by (simp add: access_key_form_def rand_ok_def accessKeyPrefix_def list_all_iff)
      (simp add: access_key_char_def byte_in_def)
qed

lemma access_key_facts:
  assumes "access_key_form k"
  shows "k \<noteq> []" "valid_utf8 k" "no_nul k"
proof -
  from assms have "list_all access_key_char k" "k \<noteq> []" by (auto simp: access_key_form_def)
  then show "k \<noteq> []" "valid_utf8 k" "no_nul k"
    by (auto intro!: valid_utf8_ascii simp: no_nul_def keySeparator_def list_all_iff access_key_char_def byte_in_def)
qed

section \<open>Encryption\<close>

lemma cs_gcm_Inr: "cs_gcm mk = Inr E \<longleftrightarrow> aes_key_ok mk \<and> E = aes_block mk"
  by (auto simp: cs_gcm_def)

lemma encrypt_Inr:
  "encrypt mk e i s = Inr x \<longleftrightarrow> aes_key_ok mk
     \<and> (\<exists>nonce. ae_rand e i 12 = Inr nonce \<and> x = b64_encode (nonce @ gcm_seal (aes_block mk) nonce s))"
  by (auto simp: encrypt_def cs_gcm_def gcmNonceSize_def split: sum.splits)

lemma decrypt_Inr:
  assumes "aes_key_ok mk"
  shows "decrypt mk x = Inr s \<longleftrightarrow>
    (\<exists>nonce. length nonce = 12 \<and> b64_decode x = Some (nonce @ gcm_seal (aes_block mk) nonce s))"
proof -
  note k = aes_is_cipher[OF assms]
  show ?thesis
  proof
    assume "decrypt mk x = Inr s"
    then obtain raw where r: "b64_decode x = Some raw" "12 \<le> length raw"
      "gcm_open (aes_block mk) (take 12 raw) (drop 12 raw) = Some s"
      by (auto simp: decrypt_def cs_gcm_def gcmNonceSize_def split: option.splits if_splits)
    from block_cipher.gcm_open_Some[OF k _ r(3)] r(2) have "drop 12 raw = gcm_seal (aes_block mk) (take 12 raw) s" by simp
    with r(1,2) append_take_drop_id[of 12 raw]
    show "\<exists>nonce. length nonce = 12 \<and> b64_decode x = Some (nonce @ gcm_seal (aes_block mk) nonce s)"
      by (intro exI[of _ "take 12 raw"]) simp
  next
    assume "\<exists>nonce. length nonce = 12 \<and> b64_decode x = Some (nonce @ gcm_seal (aes_block mk) nonce s)"
    with assms block_cipher.gcm_open_seal[OF k] show "decrypt mk x = Inr s"
      by (auto simp: decrypt_def cs_gcm_def gcmNonceSize_def)
  qed
qed

lemma decrypt_key: "decrypt mk x = Inr s \<Longrightarrow> aes_key_ok mk"
  by (auto simp: decrypt_def cs_gcm_def split: option.splits if_splits)

lemma decrypt_encrypt: "rand_ok e \<Longrightarrow> encrypt mk e i s = Inr x \<Longrightarrow> decrypt mk x = Inr s"
  unfolding encrypt_Inr by (force simp: decrypt_Inr rand_ok_def)

lemma encrypt_utf8: "encrypt mk e i s = Inr x \<Longrightarrow> valid_utf8 x"
  by (auto simp: encrypt_Inr)

section \<open>The invariant of the services\<close>

text \<open>
  Every credential has an access key of the issued form, belongs to a user that exists, and its secret
  decrypts, with the master key, to the text of 30 bytes.
\<close>

definition secrets_ok ::
    "bytes \<Rightarrow> (string \<Rightarrow> user option) \<Rightarrow> (string \<Rightarrow> credential_record option) \<Rightarrow> bool" where
  "secrets_ok mk us cs \<longleftrightarrow>
     (\<forall>k c. cs k = Some c \<longrightarrow> access_key_form k \<and> us (cdUserID c) \<noteq> None
        \<and> (\<exists>b. length b = 30 \<and> decrypt mk (cdSecretKeyEncrypted c) = Inr (b64_encode b)))"

definition no_admins :: "(string \<Rightarrow> user option) \<Rightarrow> bool" where
  "no_admins us \<longleftrightarrow> (\<forall>i u. us i = Some u \<longrightarrow> \<not> uIsAdmin u)"

definition auth_env_ok :: "auth_env \<Rightarrow> bool" where
  "auth_env_ok e \<longleftrightarrow> valid_utf8 (ae_uuid e) \<and> no_nul (ae_uuid e) \<and> ae_uuid e \<noteq> [] \<and> rand_ok e"

lemma secrets_okD:
  assumes "secrets_ok mk us cs" and "cs k = Some c"
  shows "access_key_form k" "us (cdUserID c) \<noteq> None"
    "\<exists>b. length b = 30 \<and> decrypt mk (cdSecretKeyEncrypted c) = Inr (b64_encode b)"
  using assms unfolding secrets_ok_def by blast+

lemma secrets_ok_add:
  assumes "secrets_ok mk us cs" and "access_key_form k" and "us (cdUserID c) \<noteq> None"
    and "length b = 30" and "decrypt mk (cdSecretKeyEncrypted c) = Inr (b64_encode b)"
  shows "secrets_ok mk us (cs(k \<mapsto> c))"
  unfolding secrets_ok_def
proof (intro allI impI)
  fix l c'
  assume l: "(cs(k \<mapsto> c)) l = Some c'"
  show "access_key_form l \<and> us (cdUserID c') \<noteq> None
      \<and> (\<exists>b. length b = 30 \<and> decrypt mk (cdSecretKeyEncrypted c') = Inr (b64_encode b))"
  proof (cases "l = k")
    case True
    with l assms(2-) show ?thesis by auto
  next
    case False
    with l secrets_okD[OF assms(1), of l c'] show ?thesis by simp
  qed
qed

lemma secrets_ok_revoke:
  assumes "secrets_ok mk us cs" and "cs k = Some c"
  shows "secrets_ok mk us (cs(k \<mapsto> c\<lparr>cdRevokedAt := t\<rparr>))"
proof -
  from secrets_okD[OF assms] obtain b where "length b = 30" "decrypt mk (cdSecretKeyEncrypted c) = Inr (b64_encode b)"
    by blast
  with secrets_okD[OF assms] show ?thesis by (intro secrets_ok_add[OF assms(1)]) simp_all
qed

lemma secrets_ok_user: "secrets_ok mk us cs \<Longrightarrow> secrets_ok mk (us(i \<mapsto> u)) cs"
  by (auto simp: secrets_ok_def)

section \<open>The services\<close>

locale auth_services = auth_store UR CR inv users creds + jwt_laws J + bcrypt_laws Bc
  for UR :: "'d user_repository" and CR :: "'d credential_repository" and inv :: "'d \<Rightarrow> bool"
    and users :: "'d \<Rightarrow> string \<Rightarrow> user option" and creds :: "'d \<Rightarrow> string \<Rightarrow> credential_record option"
    and J :: jwt_package and Bc :: bcrypt_package
begin

lemma Register_error: "Register Bc UR e n pw d = (Inl err, d') \<Longrightarrow> d' = d"
  by (auto simp: Register_def split: if_splits sum.splits dest: ucreate_error)

lemma Register_invalid:
  assumes "\<not> re_match usernameRE n \<or> length pw < 8 \<or> 72 < length pw"
  shows "\<exists>err. Register Bc UR e n pw d = (Inl err, d) \<and> errors_is err ErrInvalidInput"
  using assms by (auto simp: Register_def minPasswordLength_def maxPasswordLength_def input_error_def)

lemma Register_taken:
  assumes "inv d" and "no_nul (ae_uuid e)" and "re_match usernameRE n" "8 \<le> length pw" "length pw \<le> 72"
    and "users d i = Some v" "uUsername v = n"
  shows "Register Bc UR e n pw d = (Inl (Sentinel ErrAlreadyExists), d)"
proof -
  obtain h where "bc_generate Bc (ae_salt e) pw = Inr h" using generate_total[OF assms(5)] by blast
  with ucreate_taken[OF assms(1) _ assms(6)] assms show ?thesis
    by (simp add: Register_def minPasswordLength_def maxPasswordLength_def username_no_nul)
qed

lemma Register_Inr:
  assumes "inv d" and "auth_env_ok e" and run: "Register Bc UR e n pw d = (Inr u, d')"
  shows "inv d' \<and> re_match usernameRE n \<and> 8 \<le> length pw \<and> length pw \<le> 72
    \<and> uID u = ae_uuid e \<and> uUsername u = n \<and> \<not> uIsAdmin u \<and> uCreatedAt u = ae_now e 1
    \<and> bc_compare Bc (uPasswordHash u) pw = None
    \<and> users d (uID u) = None \<and> (\<forall>i v. users d i = Some v \<longrightarrow> uUsername v \<noteq> n)
    \<and> users d' = (users d)(uID u \<mapsto> u) \<and> creds d' = creds d"
proof -
  from run obtain h where h: "bc_generate Bc (ae_salt e) pw = Inr h" "re_match usernameRE n" "8 \<le> length pw" "length pw \<le> 72"
    "ur_create UR (ae_now e 1)
       \<lparr>uID = ae_uuid e, uUsername = n, uPasswordHash = h, uIsAdmin = False, uCreatedAt = 0\<rparr> d = (Inr u, d')"
    by (auto simp: Register_def minPasswordLength_def maxPasswordLength_def split: if_splits sum.splits)
  from assms(2) have "utf8_user \<lparr>uID = ae_uuid e, uUsername = n, uPasswordHash = h, uIsAdmin = False, uCreatedAt = 0\<rparr>"
    using h(2) generate_utf8[OF h(1)] by (simp add: utf8_user_def auth_env_ok_def username_utf8)
  from ucreate_Inr[OF assms(1) this h(5)] ucreate_creds[OF assms(1) this h(5)] h generate_compare[OF h(1)]
  show ?thesis by (simp add: stamp_user_def time_is_zero_def)
qed

lemma Login_cases:
  assumes "inv d" and "n \<noteq> []" "pw \<noteq> []"
  shows "(\<exists>i u. users d i = Some u \<and> uUsername u = n \<and> bc_compare Bc (uPasswordHash u) pw = None
      \<and> (\<exists>a r. mintAccessToken J secret (ae_now e 1) u = Inr a \<and> mintRefreshToken J secret (ae_now e 2) u = Inr r
          \<and> Login J Bc secret UR e n pw d = Inr (a, r)))
    \<or> (\<forall>i u. users d i = Some u \<longrightarrow> uUsername u = n \<longrightarrow> bc_compare Bc (uPasswordHash u) pw \<noteq> None)
      \<and> (\<exists>err. Login J Bc secret UR e n pw d = Inl err)
      \<and> (no_nul n \<longrightarrow> Login J Bc secret UR e n pw d = Inl (Sentinel ErrInvalidCredentials))"
proof (cases "ur_get_name UR n d")
  case (Inr u)
  with uget_name[OF assms(1)] obtain i where i: "users d i = Some u" "uUsername u = n" by blast
  have same: "v = u" if "users d j = Some v" "uUsername v = n" for j v
    using users_unique[OF assms(1) that(1) i(1)] that i by simp
  obtain a where a: "mintAccessToken J secret (ae_now e 1) u = Inr a"
    using mint_total(1)[of secret "ae_now e 1" u] by blast
  obtain r where r: "mintRefreshToken J secret (ae_now e 2) u = Inr r"
    using mint_total(2)[of secret "ae_now e 2" u] by blast
  have run: "Login J Bc secret UR e n pw d =
      (if bc_compare Bc (uPasswordHash u) pw \<noteq> None then Inl (Sentinel ErrInvalidCredentials) else Inr (a, r))"
    using a r by (simp add: Login_def assms Inr del: One_nat_def)
  show ?thesis
  proof (cases "bc_compare Bc (uPasswordHash u) pw")
    case None
    with run a r i show ?thesis by auto
  next
    case (Some x)
    with same have "\<forall>i v. users d i = Some v \<longrightarrow> uUsername v = n \<longrightarrow> bc_compare Bc (uPasswordHash v) pw \<noteq> None" by force
    with run Some show ?thesis by simp
  qed
next
  case (Inl err)
  then have none: "\<forall>i u. users d i = Some u \<longrightarrow> uUsername u \<noteq> n" using uget_name[OF assms(1), of n] by force
  with uget_name_missing[OF assms(1), of n] Inl show ?thesis by (auto simp: Login_def assms)
qed

lemma Login_user:
  assumes "inv d" and "users d i = Some u" and "bc_compare Bc (uPasswordHash u) pw = None" and "uUsername u \<noteq> []" "pw \<noteq> []"
  obtains a r where "Login J Bc secret UR e (uUsername u) pw d = Inr (a, r)"
    "mintAccessToken J secret (ae_now e 1) u = Inr a" "mintRefreshToken J secret (ae_now e 2) u = Inr r"
proof -
  from uget_name[OF assms(1)] assms(2) have g: "ur_get_name UR (uUsername u) d = Inr u" by blast
  obtain a where a: "mintAccessToken J secret (ae_now e 1) u = Inr a"
    using mint_total(1)[of secret "ae_now e 1" u] by blast
  obtain r where r: "mintRefreshToken J secret (ae_now e 2) u = Inr r"
    using mint_total(2)[of secret "ae_now e 2" u] by blast
  show ?thesis by (rule that[of a r]) (simp_all add: Login_def assms g a r del: One_nat_def)
qed

lemma Verify_access:
  assumes "inv d" and "users d i = Some u" and "mintAccessToken J secret t u = Inr tok"
    and "now < jw_date J (t + accessTokenTTL)"
  shows "VerifyAccessToken J secret now tok = Inr \<lparr>apUserID = i, apIsAdmin = uIsAdmin u\<rparr>"
  using parse_access[OF _ assms(3,4)] users_id[OF assms(1,2)] by (simp add: VerifyAccessToken_def)

lemma Verify_access_Inr:
  assumes "VerifyAccessToken J secret now tok = Inr p"
  shows "\<exists>c. jwt_parse J secret now tok tokenTypeAccess = Inr c \<and> apUserID p = tkSubject c \<and> apIsAdmin p = tkIsAdmin c
    \<and> tkType c = tokenTypeAccess \<and> hs256_signed secret tok \<and> (\<exists>x. tkExpiresAt c = Some x \<and> now < x)"
proof -
  from assms obtain c where c: "jwt_parse J secret now tok tokenTypeAccess = Inr c"
    "p = \<lparr>apUserID = tkSubject c, apIsAdmin = tkIsAdmin c\<rparr>"
    by (auto simp: VerifyAccessToken_def split: sum.splits)
  with jwt_parse_Inr[OF c(1)] show ?thesis by auto
qed

lemma Refresh_Inr:
  assumes "inv d" and "Refresh J secret UR e tok d = Inr a"
  shows "\<exists>c u. jwt_parse J secret (ae_now e 1) tok tokenTypeRefresh = Inr c \<and> users d (tkSubject c) = Some u
    \<and> mintAccessToken J secret (ae_now e 2) u = Inr a"
  using assms(2) uget_id[OF assms(1)] by (auto simp: Refresh_def split: if_splits sum.splits)

lemma Refresh_user:
  assumes "inv d" and "users d i = Some u" and "utf8_user v" "uID v = i" and "mintRefreshToken J secret t v = Inr tok"
    and "ae_now e 1 < jw_date J (t + refreshTokenTTL)"
  shows "Refresh J secret UR e tok d = mintAccessToken J secret (ae_now e 2) u"
proof -
  have "tok \<noteq> []" using assms(5) mint_total(2)[of secret t v] by auto
  moreover obtain a where "mintAccessToken J secret (ae_now e 2) u = Inr a"
    using mint_total(1)[of secret "ae_now e 2" u] by blast
  ultimately show ?thesis
    using parse_refresh[OF assms(3,5,6)] uget_id[OF assms(1), of i u] assms(2,4) by (simp add: Refresh_def)
qed

text \<open>The loop stores one credential under the first of at most five keys that is free.\<close>

lemma issue_loop_error: "issue_loop CR e i enc n d = (Inl err, d') \<Longrightarrow> d' = d"
proof (induction "maxAccessKeyRetries - n" arbitrary: n d)
  case 0
  then show ?case
    by (subst (asm) issue_loop.simps) (auto split: sum.splits prod.splits if_splits dest: ccreate_error)
next
  case (Suc m)
  from Suc.prems Suc.hyps(2) show ?case
    by (subst (asm) issue_loop.simps)
      (auto split: sum.splits prod.splits if_splits dest: ccreate_error Suc.hyps(1)[rotated])
qed

lemma issue_loop_Inr:
  assumes "inv d" "rand_ok e" "valid_utf8 i" "valid_utf8 enc" and "issue_loop CR e i enc n d = (Inr c, d')"
  shows "\<exists>m. n \<le> m \<and> m < max (Suc n) maxAccessKeyRetries
    \<and> (\<forall>j. n \<le> j \<longrightarrow> j < m \<longrightarrow> (\<exists>k. generateAccessKey e (2 + j) = Inr k \<and> creds d k \<noteq> None))
    \<and> generateAccessKey e (2 + m) = Inr (cdAccessKey c) \<and> creds d (cdAccessKey c) = None
    \<and> c = \<lparr>cdAccessKey = cdAccessKey c, cdUserID = i, cdSecretKeyEncrypted = enc, cdCreatedAt = ae_now e (1 + m), cdRevokedAt = None\<rparr>
    \<and> inv d' \<and> creds d' = (creds d)(cdAccessKey c \<mapsto> c) \<and> users d' = users d"
  using assms
proof (induction "maxAccessKeyRetries - n" arbitrary: n rule: less_induct)
  case less
  let ?c = "\<lambda>k. \<lparr>cdAccessKey = k, cdUserID = i, cdSecretKeyEncrypted = enc, cdCreatedAt = 0, cdRevokedAt = None\<rparr>"
  obtain k where k: "generateAccessKey e (2 + n) = Inr k"
    using less.prems(5) by (subst (asm) issue_loop.simps) (auto split: sum.splits)
  have u: "utf8_credential (?c k)"
    using less.prems access_key_facts[OF generateAccessKey_form[OF _ k]] by (simp add: utf8_credential_def)
  obtain res d1 where r: "cr_create CR (ae_now e (1 + n)) (?c k) d = (res, d1)" by fastforce
  note run = less.prems(5)[unfolded issue_loop.simps[of CR e i enc n d] k sum.case r prod.case]
  show ?case
  proof (cases res)
    case (Inr c1)
    with run have "c1 = c" "d1 = d'" by simp_all
    with ccreate_Inr[OF less.prems(1) u, of "ae_now e (1 + n)" c d'] ccreate_users[OF less.prems(1) u, of "ae_now e (1 + n)" c d']
      r Inr k show ?thesis
      by (intro exI[of _ n]) (auto simp: stamp_credential_def time_is_zero_def)
  next
    case (Inl err)
    with run have more: "errors_is err ErrAlreadyExists" "n < maxAccessKeyRetries - 1"
      "issue_loop CR e i enc (Suc n) d = (Inr c, d')"
      using ccreate_error[of "ae_now e (1 + n)" "?c k" d err d1] r by (auto split: if_splits)
    have taken: "creds d k \<noteq> None" using ccreate_exists[OF less.prems(1) r[unfolded Inl] more(1)] by simp
    from more(2) have "maxAccessKeyRetries - Suc n < maxAccessKeyRetries - n" by simp
    from less.hyps[OF this less.prems(1-4) more(3)] obtain m where
      m: "Suc n \<le> m" "m < max (Suc (Suc n)) maxAccessKeyRetries"
      "\<forall>j. Suc n \<le> j \<longrightarrow> j < m \<longrightarrow> (\<exists>k. generateAccessKey e (2 + j) = Inr k \<and> creds d k \<noteq> None)"
      and rest: "generateAccessKey e (2 + m) = Inr (cdAccessKey c)" "creds d (cdAccessKey c) = None"
      "c = \<lparr>cdAccessKey = cdAccessKey c, cdUserID = i, cdSecretKeyEncrypted = enc, cdCreatedAt = ae_now e (1 + m), cdRevokedAt = None\<rparr>"
      "inv d'" "creds d' = (creds d)(cdAccessKey c \<mapsto> c)" "users d' = users d"
      by blast
    have "\<exists>k. generateAccessKey e (2 + j) = Inr k \<and> creds d k \<noteq> None" if "n \<le> j" "j < m" for j
      using that m(3) k taken by (cases "j = n") auto
    moreover have "n \<le> m" "m < max (Suc n) maxAccessKeyRetries" using m(1,2) more(2) by auto
    ultimately show ?thesis using rest by blast
  qed
qed

text \<open>The loop gives up on a collision only after all five keys were taken.\<close>

lemma issue_loop_gives_up:
  assumes "inv d" and "issue_loop CR e i enc n d = (Inl err, d')" and "errors_is err ErrAlreadyExists"
    and "\<And>j x. generateAccessKey e (2 + j) = Inl x \<Longrightarrow> \<not> errors_is x ErrAlreadyExists"
    and "n \<le> j" and "j < maxAccessKeyRetries"
  shows "\<exists>k. generateAccessKey e (2 + j) = Inr k \<and> creds d k \<noteq> None"
  using assms
proof (induction "maxAccessKeyRetries - n" arbitrary: n rule: less_induct)
  case less
  let ?c = "\<lambda>k. \<lparr>cdAccessKey = k, cdUserID = i, cdSecretKeyEncrypted = enc, cdCreatedAt = 0, cdRevokedAt = None\<rparr>"
  obtain k where k: "generateAccessKey e (2 + n) = Inr k"
    using less.prems(2-4) by (subst (asm) issue_loop.simps) (auto split: sum.splits)
  obtain res d1 where r: "cr_create CR (ae_now e (1 + n)) (?c k) d = (res, d1)" by fastforce
  note run = less.prems(2)[unfolded issue_loop.simps[of CR e i enc n d] k sum.case r prod.case]
  from run obtain err1 where e1: "res = Inl err1" by (cases res) auto
  have d1: "d1 = d" using ccreate_error[OF r[unfolded e1]] .
  have err1: "errors_is err1 ErrAlreadyExists" using run less.prems(3) e1 by (auto split: if_splits)
  have taken: "creds d k \<noteq> None" using ccreate_exists[OF less.prems(1) r[unfolded e1] err1] by simp
  show ?case
  proof (cases "j = n")
    case True
    with k taken show ?thesis by auto
  next
    case False
    with less.prems(5,6) have n: "n < maxAccessKeyRetries - 1" "Suc n \<le> j" "maxAccessKeyRetries - Suc n < maxAccessKeyRetries - n"
      by simp_all
    from run e1 d1 err1 n(1) have "issue_loop CR e i enc (Suc n) d = (Inl err, d')" by simp
    from less.hyps[OF n(3) less.prems(1) this less.prems(3,4) n(2) less.prems(6)] show ?thesis .
  qed
qed

lemma issue_loop_exhausted:
  assumes "inv d" and "n < maxAccessKeyRetries"
    and "\<And>j. n \<le> j \<Longrightarrow> j < maxAccessKeyRetries \<Longrightarrow> \<exists>k. generateAccessKey e (2 + j) = Inr k \<and> creds d k \<noteq> None"
  shows "issue_loop CR e i enc n d = (Inl (Sentinel ErrAlreadyExists), d)"
  using assms(2,3)
proof (induction "maxAccessKeyRetries - n" arbitrary: n rule: less_induct)
  case less
  from less.prems obtain k where k: "generateAccessKey e (2 + n) = Inr k" "creds d k \<noteq> None" by blast
  let ?c = "\<lparr>cdAccessKey = k, cdUserID = i, cdSecretKeyEncrypted = enc, cdCreatedAt = 0, cdRevokedAt = None\<rparr>"
  from ccreate_taken[OF assms(1), of ?c "ae_now e (1 + n)"] k(2)
  have t: "cr_create CR (ae_now e (1 + n)) ?c d = (Inl (Sentinel ErrAlreadyExists), d)" by simp
  show ?case
  proof (cases "n < maxAccessKeyRetries - 1")
    case True
    then have "issue_loop CR e i enc (Suc n) d = (Inl (Sentinel ErrAlreadyExists), d)"
      by (intro less.hyps) (use less.prems in auto)
    with k t True show ?thesis by (subst issue_loop.simps) simp
  next
    case False
    with k t show ?thesis by (subst issue_loop.simps) simp
  qed
qed

lemma IssueCredential_error: "IssueCredential mk UR CR e i d = (Inl err, d') \<Longrightarrow> d' = d"
  by (auto simp: IssueCredential_def split: if_splits sum.splits prod.splits dest: issue_loop_error)

lemma IssueCredential_Inr:
  assumes "inv d" "rand_ok e" and run: "IssueCredential mk UR CR e i d = (Inr x, d')"
  shows "\<exists>b enc u. length b = 30 \<and> isSecretKey x = b64_encode b \<and> isUserID x = i \<and> users d i = Some u
    \<and> decrypt mk enc = Inr (isSecretKey x) \<and> access_key_form (isAccessKey x) \<and> creds d (isAccessKey x) = None
    \<and> inv d' \<and> users d' = users d
    \<and> creds d' = (creds d)(isAccessKey x \<mapsto> \<lparr>cdAccessKey = isAccessKey x, cdUserID = i, cdSecretKeyEncrypted = enc,
        cdCreatedAt = isCreatedAt x, cdRevokedAt = None\<rparr>)"
proof -
  from run obtain u sk enc c where i: "ur_get_id UR i d = Inr u" and sk: "generateSecretKey e 0 = Inr sk"
    and enc: "encrypt mk e 1 sk = Inr enc" and l: "issue_loop CR e i enc 0 d = (Inr c, d')"
    and x: "x = \<lparr>isAccessKey = cdAccessKey c, isSecretKey = sk, isUserID = i, isCreatedAt = cdCreatedAt c\<rparr>"
    by (auto simp: IssueCredential_def split: if_splits sum.splits prod.splits)
  from i uget_id[OF assms(1)] have u: "users d i = Some u" by simp
  from sk obtain b where b: "ae_rand e 0 30 = Inr b" "sk = b64_encode b"
    by (auto simp: generateSecretKey_def secretKeyByteLength_def split: sum.splits)
  with assms(2) have lb: "length b = 30" by (auto simp: rand_ok_def)
  from users_id[OF assms(1) u] have "valid_utf8 i" by (auto simp: utf8_user_def)
  from issue_loop_Inr[OF assms(1,2) this encrypt_utf8[OF enc] l] obtain m where
    m: "generateAccessKey e (2 + m) = Inr (cdAccessKey c)" "creds d (cdAccessKey c) = None"
    "c = \<lparr>cdAccessKey = cdAccessKey c, cdUserID = i, cdSecretKeyEncrypted = enc, cdCreatedAt = ae_now e (1 + m), cdRevokedAt = None\<rparr>"
    "inv d'" "creds d' = (creds d)(cdAccessKey c \<mapsto> c)" "users d' = users d" by blast
  have f: "cdUserID c = i" "cdSecretKeyEncrypted c = enc" "cdRevokedAt c = None" by (subst m(3), simp)+
  have sel: "isAccessKey x = cdAccessKey c" "isSecretKey x = sk" "isUserID x = i" "isCreatedAt x = cdCreatedAt c"
    using x by simp_all
  have "\<lparr>cdAccessKey = isAccessKey x, cdUserID = i, cdSecretKeyEncrypted = enc, cdCreatedAt = isCreatedAt x, cdRevokedAt = None\<rparr> = c"
    by (rule credential_record.equality) (simp_all add: sel f)
  then have "creds d' = (creds d)(isAccessKey x \<mapsto> \<lparr>cdAccessKey = isAccessKey x, cdUserID = i,
      cdSecretKeyEncrypted = enc, cdCreatedAt = isCreatedAt x, cdRevokedAt = None\<rparr>)"
    using m(5) sel(1) by (simp only:)
  then show ?thesis
    using sel b(2) lb u decrypt_encrypt[OF assms(2) enc] generateAccessKey_form[OF assms(2) m(1)] m(2,4,6)
    by (intro exI[of _ b] exI[of _ enc] exI[of _ u] conjI) simp_all
qed

lemma LookupCredential_Inr:
  assumes "inv d" and "LookupCredential mk CR k d = Inr x"
  shows "\<exists>c. creds d k = Some c \<and> cdRevokedAt c = None \<and> luUserID x = cdUserID c
    \<and> decrypt mk (cdSecretKeyEncrypted c) = Inr (luSecretKey x)"
  using assms(2) cget[OF assms(1)] by (auto simp: LookupCredential_def split: if_splits sum.splits)

lemma LookupCredential_live:
  assumes "inv d" and "creds d k = Some c" and "cdRevokedAt c = None" and "k \<noteq> []"
    and "decrypt mk (cdSecretKeyEncrypted c) = Inr s"
  shows "LookupCredential mk CR k d = Inr \<lparr>luUserID = cdUserID c, luSecretKey = s\<rparr>"
proof -
  from cget[OF assms(1)] assms(2,3) have "cr_get CR k d = Inr c" by simp
  with assms(4,5) show ?thesis by (simp add: LookupCredential_def)
qed

lemma LookupCredential_missing:
  assumes "inv d" and "no_nul k" and "k \<noteq> []" and "\<And>c. creds d k = Some c \<Longrightarrow> cdRevokedAt c \<noteq> None"
  shows "LookupCredential mk CR k d = Inl (Sentinel ErrNotFound)"
  using cget_missing[OF assms(1,2,4)] assms(3) by (simp add: LookupCredential_def)

lemma GetCredentialOwner_Inr:
  assumes "inv d"
  shows "GetCredentialOwner CR k d = Inr i \<longleftrightarrow>
    k \<noteq> [] \<and> (\<exists>c. creds d k = Some c \<and> cdRevokedAt c = None \<and> cdUserID c = i)"
proof (cases "cr_get CR k d")
  case (Inl err)
  then have "\<nexists>c. cr_get CR k d = Inr c" by simp
  with cget[OF assms, of k] Inl show ?thesis by (auto simp: GetCredentialOwner_def)
next
  case (Inr c)
  with cget[OF assms, of k c] show ?thesis by (auto simp: GetCredentialOwner_def)
qed

lemma RevokeCredential_error: "RevokeCredential CR e k d = (Inl err, d') \<Longrightarrow> d' = d"
  by (auto simp: RevokeCredential_def split: if_splits dest: crevoke_error)

lemma RevokeCredential_Inr:
  assumes "inv d" and "RevokeCredential CR e k d = (Inr x, d')"
  shows "inv d' \<and> users d' = users d \<and> k \<noteq> []
    \<and> (\<exists>c. creds d k = Some c \<and> cdRevokedAt c = None
        \<and> creds d' = (creds d)(k \<mapsto> c\<lparr>cdRevokedAt := Some (ae_now e 1)\<rparr>))"
  using assms(2) crevoke_Inr[OF assms(1), of "ae_now e 1" k x d'] crevoke_users[OF assms(1), of "ae_now e 1" k x d']
  by (auto simp: RevokeCredential_def split: if_splits)

section \<open>The invariant over the operations\<close>

lemma Register_keeps:
  assumes "inv d" "auth_env_ok e" and "secrets_ok mk (users d) (creds d)" "no_admins (users d)"
    and "Register Bc UR e n pw d = (res, d')"
  shows "inv d' \<and> secrets_ok mk (users d') (creds d') \<and> no_admins (users d')"
proof (cases res)
  case (Inl err)
  with Register_error assms show ?thesis by blast
next
  case (Inr u)
  from Register_Inr[OF assms(1,2) assms(5)[unfolded Inr]] assms(3,4) show ?thesis
    by (auto simp: secrets_ok_user no_admins_def)
qed

lemma IssueCredential_keeps:
  assumes "inv d" "rand_ok e" and "secrets_ok mk (users d) (creds d)" "no_admins (users d)"
    and "IssueCredential mk UR CR e i d = (res, d')"
  shows "inv d' \<and> secrets_ok mk (users d') (creds d') \<and> no_admins (users d')"
proof (cases res)
  case (Inl err)
  with IssueCredential_error assms show ?thesis by blast
next
  case (Inr x)
  from IssueCredential_Inr[OF assms(1,2) assms(5)[unfolded Inr]] obtain b enc u where
    "length b = 30" "isSecretKey x = b64_encode b" "users d i = Some u" "decrypt mk enc = Inr (isSecretKey x)"
    "access_key_form (isAccessKey x)" "inv d'" "users d' = users d"
    "creds d' = (creds d)(isAccessKey x \<mapsto> \<lparr>cdAccessKey = isAccessKey x, cdUserID = i, cdSecretKeyEncrypted = enc,
        cdCreatedAt = isCreatedAt x, cdRevokedAt = None\<rparr>)" by blast
  with assms(3,4) show ?thesis by (simp add: secrets_ok_add)
qed

lemma RevokeCredential_keeps:
  assumes "inv d" and "secrets_ok mk (users d) (creds d)" "no_admins (users d)"
    and "RevokeCredential CR e k d = (res, d')"
  shows "inv d' \<and> secrets_ok mk (users d') (creds d') \<and> no_admins (users d')"
proof (cases res)
  case (Inl err)
  with RevokeCredential_error assms show ?thesis by blast
next
  case (Inr x)
  from RevokeCredential_Inr[OF assms(1) assms(4)[unfolded Inr]] assms(2,3) show ?thesis
    by (auto simp: secrets_ok_revoke)
qed

end

end
