(* ===== verification/Auth_Repo.thy ===== *)
theory Auth_Repo
  imports Auth_Model
begin

text \<open>
  The repositories of auth-service on bbolt (\<open>internal/repository\<close>): users under their identifier
  with an index by name, credentials under their access key, one transaction per operation.
\<close>

section \<open>Users\<close>

definition user_create_tx :: "'d bolt \<Rightarrow> time \<Rightarrow> user \<Rightarrow> 'd \<Rightarrow> go_error + user \<times> 'd" where
  "user_create_tx B now u d =
     (case UsernameKey (uUsername u) of
        Inl e \<Rightarrow> Inl (Wrap [Lit ''build username key: ''] e [])
      | Inr usernameKey \<Rightarrow>
          (case UserKey (uID u) of
             Inl e \<Rightarrow> Inl (Wrap [Lit ''build user key: ''] e [])
           | Inr userKey \<Rightarrow>
               if bget B d BoltBucketUsernameIdx usernameKey \<noteq> None then Inl (Sentinel ErrAlreadyExists)
               else if bget B d BoltBucketUsers userKey \<noteq> None then Inl (Sentinel ErrAlreadyExists)
               else
                 (let u' = stamp_user now u
                  in case bput B BoltBucketUsers userKey (Text (user_json u')) d of
                       Inl e \<Rightarrow> Inl (Wrap [Lit ''put user record: ''] e [])
                     | Inr d1 \<Rightarrow>
                         (case bput B BoltBucketUsernameIdx usernameKey (Bytes (uID u')) d1 of
                            Inl e \<Rightarrow> Inl (Wrap [Lit ''put username index: ''] e [])
                          | Inr d2 \<Rightarrow> Inr (u', d2)))))"

definition UserRepo_Create :: "'d bolt \<Rightarrow> time \<Rightarrow> user \<Rightarrow> 'd \<Rightarrow> (go_error + user) \<times> 'd" where
  "UserRepo_Create B now u = db_update B (user_create_tx B now u)"

definition UserRepo_GetByID :: "'d bolt \<Rightarrow> string \<Rightarrow> 'd \<Rightarrow> go_error + user" where
  "UserRepo_GetByID B i d =
     (case UserKey i of
        Inl e \<Rightarrow> Inl (Wrap [Lit ''build user key: ''] e [])
      | Inr userKey \<Rightarrow>
          (case bget B d BoltBucketUsers userKey of
             None \<Rightarrow> Inl (Sentinel ErrNotFound)
           | Some raw \<Rightarrow>
               (case unmarshal_user raw of
                  Inl e \<Rightarrow> Inl (Wrap [Lit ''unmarshal user '', Quoted i, Lit '': ''] e [])
                | Inr u \<Rightarrow> Inr u)))"

text \<open>An index entry is the identifier as plain bytes; one that is none refers to no record.\<close>

definition UserRepo_GetByUsername :: "'d bolt \<Rightarrow> string \<Rightarrow> 'd \<Rightarrow> go_error + user" where
  "UserRepo_GetByUsername B username d =
     (case UsernameKey username of
        Inl e \<Rightarrow> Inl (Wrap [Lit ''build username key: ''] e [])
      | Inr usernameKey \<Rightarrow>
          (case bget B d BoltBucketUsernameIdx usernameKey of
             None \<Rightarrow> Inl (Sentinel ErrNotFound)
           | Some (Text _) \<Rightarrow> Inl (Sentinel ErrNotFound)
           | Some (Bytes i) \<Rightarrow>
               (case UserKey i of
                  Inl e \<Rightarrow> Inl (Wrap [Lit ''build user key: ''] e [])
                | Inr userKey \<Rightarrow>
                    (case bget B d BoltBucketUsers userKey of
                       None \<Rightarrow> Inl (Sentinel ErrNotFound)
                     | Some raw \<Rightarrow>
                         (case unmarshal_user raw of
                            Inl e \<Rightarrow> Inl (Wrap [Lit ''unmarshal user '', Quoted i, Lit '': ''] e [])
                          | Inr u \<Rightarrow> Inr u)))))"

definition BoltUserRepository :: "'d bolt \<Rightarrow> 'd user_repository" where
  "BoltUserRepository B =
     \<lparr>ur_create = UserRepo_Create B, ur_get_id = UserRepo_GetByID B, ur_get_name = UserRepo_GetByUsername B\<rparr>"

section \<open>Credentials\<close>

definition credential_create_tx ::
    "'d bolt \<Rightarrow> time \<Rightarrow> credential_record \<Rightarrow> 'd \<Rightarrow> go_error + credential_record \<times> 'd" where
  "credential_create_tx B now c d =
     (case CredentialKey (cdAccessKey c) of
        Inl e \<Rightarrow> Inl (Wrap [Lit ''build credential key: ''] e [])
      | Inr key \<Rightarrow>
          if bget B d BoltBucketCredentials key \<noteq> None then Inl (Sentinel ErrAlreadyExists)
          else
            (let c' = stamp_credential now c
             in case bput B BoltBucketCredentials key (Text (credential_json c')) d of
                  Inl e \<Rightarrow> Inl e
                | Inr d' \<Rightarrow> Inr (c', d')))"

definition CredentialRepo_Create ::
    "'d bolt \<Rightarrow> time \<Rightarrow> credential_record \<Rightarrow> 'd \<Rightarrow> (go_error + credential_record) \<times> 'd" where
  "CredentialRepo_Create B now c = db_update B (credential_create_tx B now c)"

text \<open>The live credential of a key, as a lookup and a revocation read it.\<close>

definition credential_read :: "'d bolt \<Rightarrow> string \<Rightarrow> 'd \<Rightarrow> go_error + credential_record" where
  "credential_read B accessKey d =
     (case CredentialKey accessKey of
        Inl e \<Rightarrow> Inl (Wrap [Lit ''build credential key: ''] e [])
      | Inr key \<Rightarrow>
          (case bget B d BoltBucketCredentials key of
             None \<Rightarrow> Inl (Sentinel ErrNotFound)
           | Some raw \<Rightarrow>
               (case unmarshal_credential raw of
                  Inl e \<Rightarrow> Inl (Wrap [Lit ''unmarshal credential '', Quoted accessKey, Lit '': ''] e [])
                | Inr c \<Rightarrow> if cdRevokedAt c \<noteq> None then Inl (Sentinel ErrNotFound) else Inr c)))"

definition CredentialRepo_GetByAccessKey :: "'d bolt \<Rightarrow> string \<Rightarrow> 'd \<Rightarrow> go_error + credential_record" where
  "CredentialRepo_GetByAccessKey B accessKey d = credential_read B accessKey d"

definition credential_revoke_tx :: "'d bolt \<Rightarrow> time \<Rightarrow> string \<Rightarrow> 'd \<Rightarrow> go_error + unit \<times> 'd" where
  "credential_revoke_tx B now accessKey d =
     (case credential_read B accessKey d of
        Inl e \<Rightarrow> Inl e
      | Inr c \<Rightarrow>
          (case bput B BoltBucketCredentials accessKey (Text (credential_json (c\<lparr>cdRevokedAt := Some now\<rparr>))) d of
             Inl e \<Rightarrow> Inl e
           | Inr d' \<Rightarrow> Inr ((), d')))"

definition CredentialRepo_Revoke :: "'d bolt \<Rightarrow> time \<Rightarrow> string \<Rightarrow> 'd \<Rightarrow> (go_error + unit) \<times> 'd" where
  "CredentialRepo_Revoke B now accessKey = db_update B (credential_revoke_tx B now accessKey)"

definition BoltCredentialRepository :: "'d bolt \<Rightarrow> 'd credential_repository" where
  "BoltCredentialRepository B =
     \<lparr>cr_create = CredentialRepo_Create B, cr_get = CredentialRepo_GetByAccessKey B, cr_revoke = CredentialRepo_Revoke B\<rparr>"

lemma auth_repositories_sel [simp]:
  "ur_create (BoltUserRepository B) = UserRepo_Create B" "ur_get_id (BoltUserRepository B) = UserRepo_GetByID B"
  "ur_get_name (BoltUserRepository B) = UserRepo_GetByUsername B"
  "cr_create (BoltCredentialRepository B) = CredentialRepo_Create B"
  "cr_get (BoltCredentialRepository B) = CredentialRepo_GetByAccessKey B"
  "cr_revoke (BoltCredentialRepository B) = CredentialRepo_Revoke B"
  by (simp_all add: BoltUserRepository_def BoltCredentialRepository_def)

section \<open>The state behind the repositories\<close>

definition stored_user :: "'d bolt \<Rightarrow> 'd \<Rightarrow> string \<Rightarrow> user option" where
  "stored_user B d i =
     (case bget B d BoltBucketUsers i of
        None \<Rightarrow> None
      | Some raw \<Rightarrow> (case unmarshal_user raw of Inl _ \<Rightarrow> None | Inr u \<Rightarrow> Some u))"

definition stored_credential :: "'d bolt \<Rightarrow> 'd \<Rightarrow> string \<Rightarrow> credential_record option" where
  "stored_credential B d k =
     (case bget B d BoltBucketCredentials k of
        None \<Rightarrow> None
      | Some raw \<Rightarrow> (case unmarshal_credential raw of Inl _ \<Rightarrow> None | Inr c \<Rightarrow> Some c))"

text \<open>
  The invariant: user records are readable under their identifier, the index of names holds exactly
  the identifier of each user under its name, credentials are readable under their access key.
\<close>

definition users_ok :: "'d bolt \<Rightarrow> 'd \<Rightarrow> bool" where
  "users_ok B d \<longleftrightarrow> (\<forall>i v. bget B d BoltBucketUsers i = Some v \<longrightarrow>
     (\<exists>u. v = Text (user_json u) \<and> uID u = i \<and> utf8_user u \<and> no_nul i \<and> no_nul (uUsername u)))"

definition names_index_ok :: "'d bolt \<Rightarrow> 'd \<Rightarrow> bool" where
  "names_index_ok B d \<longleftrightarrow> (\<forall>n v. bget B d BoltBucketUsernameIdx n = Some v \<longleftrightarrow>
     (\<exists>i u. stored_user B d i = Some u \<and> uUsername u = n \<and> v = Bytes i))"

definition credentials_ok :: "'d bolt \<Rightarrow> 'd \<Rightarrow> bool" where
  "credentials_ok B d \<longleftrightarrow> (\<forall>k v. bget B d BoltBucketCredentials k = Some v \<longrightarrow>
     (\<exists>c. v = Text (credential_json c) \<and> cdAccessKey c = k \<and> utf8_credential c \<and> no_nul k))"

definition users_inv :: "'d bolt \<Rightarrow> 'd \<Rightarrow> bool" where
  "users_inv B d \<longleftrightarrow> users_ok B d \<and> names_index_ok B d"

definition auth_inv :: "'d bolt \<Rightarrow> 'd \<Rightarrow> bool" where
  "auth_inv B d \<longleftrightarrow> opened B auth_bolt_buckets d \<and> users_inv B d \<and> credentials_ok B d"

lemma users_okE:
  assumes "users_ok B d" and "stored_user B d i = Some u"
  shows "bget B d BoltBucketUsers i = Some (Text (user_json u))" "uID u = i" "utf8_user u" "no_nul i"
    "no_nul (uUsername u)"
  using assms unfolding users_ok_def stored_user_def by (fastforce split: option.splits sum.splits)+

lemma users_ok_read:
  assumes "users_ok B d" and "bget B d BoltBucketUsers i = Some v"
  shows "\<exists>u. unmarshal_user v = Inr u \<and> stored_user B d i = Some u"
  using assms unfolding users_ok_def stored_user_def by fastforce

lemma stored_user_cong:
  "(\<And>i. bget B d' BoltBucketUsers i = bget B d BoltBucketUsers i) \<Longrightarrow> stored_user B d' = stored_user B d"
  by (rule ext) (simp add: stored_user_def)

lemma stored_credential_cong:
  "(\<And>k. bget B d' BoltBucketCredentials k = bget B d BoltBucketCredentials k) \<Longrightarrow>
     stored_credential B d' = stored_credential B d"
  by (rule ext) (simp add: stored_credential_def)

lemma users_inv_cong:
  assumes "\<And>i. bget B d' BoltBucketUsers i = bget B d BoltBucketUsers i"
    and "\<And>n. bget B d' BoltBucketUsernameIdx n = bget B d BoltBucketUsernameIdx n"
  shows "users_inv B d' = users_inv B d"
  using stored_user_cong[of B d' d, OF assms(1)] assms
  by (simp add: users_inv_def users_ok_def names_index_ok_def)

lemma credentials_ok_cong:
  "(\<And>k. bget B d' BoltBucketCredentials k = bget B d BoltBucketCredentials k) \<Longrightarrow>
     credentials_ok B d' = credentials_ok B d"
  by (simp add: credentials_ok_def)

lemma credentials_okE:
  assumes "credentials_ok B d" and "stored_credential B d k = Some c"
  shows "bget B d BoltBucketCredentials k = Some (Text (credential_json c))" "cdAccessKey c = k"
    "utf8_credential c" "no_nul k"
  using assms unfolding credentials_ok_def stored_credential_def by (fastforce split: option.splits sum.splits)+

lemma credentials_ok_read:
  assumes "credentials_ok B d" and "bget B d BoltBucketCredentials k = Some v"
  shows "\<exists>c. unmarshal_credential v = Inr c \<and> stored_credential B d k = Some c"
  using assms unfolding credentials_ok_def stored_credential_def by fastforce

lemma GetByID_eq:
  assumes "users_ok B d" and "no_nul i"
  shows "UserRepo_GetByID B i d =
    (case stored_user B d i of None \<Rightarrow> Inl (Sentinel ErrNotFound) | Some u \<Rightarrow> Inr u)"
  using users_ok_read[OF assms(1), of i] assms(2)
  by (cases "bget B d BoltBucketUsers i") (auto simp: UserRepo_GetByID_def auth_keys stored_user_def)

lemma GetByID_Inr:
  assumes "users_ok B d"
  shows "UserRepo_GetByID B i d = Inr u \<longleftrightarrow> stored_user B d i = Some u"
proof (cases "no_nul i")
  case True
  with GetByID_eq[OF assms] show ?thesis by (auto split: option.splits)
next
  case False
  then have "\<nexists>k. component_key ''user_id'' i = Inr k" by simp
  with False users_okE(4)[OF assms, of i u] show ?thesis
    by (auto simp: UserRepo_GetByID_def auth_keys split: sum.splits)
qed

lemma credential_read_eq:
  assumes "credentials_ok B d" and "no_nul k"
  shows "credential_read B k d = (case stored_credential B d k of
      None \<Rightarrow> Inl (Sentinel ErrNotFound)
    | Some c \<Rightarrow> if cdRevokedAt c \<noteq> None then Inl (Sentinel ErrNotFound) else Inr c)"
  using credentials_ok_read[OF assms(1), of k] assms(2)
  by (cases "bget B d BoltBucketCredentials k") (auto simp: credential_read_def auth_keys stored_credential_def)

lemma credential_read_Inr:
  assumes "credentials_ok B d"
  shows "credential_read B k d = Inr c \<longleftrightarrow> stored_credential B d k = Some c \<and> cdRevokedAt c = None"
proof (cases "no_nul k")
  case True
  with credential_read_eq[OF assms] show ?thesis by (auto split: option.splits)
next
  case False
  then have "\<nexists>x. component_key ''access_key'' k = Inr x" by simp
  with False credentials_okE(4)[OF assms, of k c] show ?thesis
    by (auto simp: credential_read_def auth_keys split: sum.splits)
qed

end
