(* ===== verification/Auth_Contract.thy ===== *)
theory Auth_Contract
  imports Auth_Repo Meta_Total
begin

text \<open>The repositories of auth-service on any bolt store keep their contracts.\<close>

context bolt_store
begin

section \<open>Users\<close>

lemma GetByUsername_Inr:
  assumes "users_inv B d"
  shows "UserRepo_GetByUsername B n d = Inr u \<longleftrightarrow> (\<exists>i. stored_user B d i = Some u \<and> uUsername u = n)"
proof
  assume "UserRepo_GetByUsername B n d = Inr u"
  then obtain i raw where g: "bget B d BoltBucketUsernameIdx n = Some (Bytes i)" "no_nul i"
    "bget B d BoltBucketUsers i = Some raw" "unmarshal_user raw = Inr u"
    by (auto simp: UserRepo_GetByUsername_def auth_keys split: sum.splits option.splits stored.splits)
  then have "stored_user B d i = Some u" by (simp add: stored_user_def)
  moreover from assms g(1) obtain j v where "stored_user B d j = Some v" "uUsername v = n" "i = j"
    unfolding users_inv_def names_index_ok_def by blast
  ultimately show "\<exists>i. stored_user B d i = Some u \<and> uUsername u = n" by auto
next
  assume "\<exists>i. stored_user B d i = Some u \<and> uUsername u = n"
  then obtain i where i: "stored_user B d i = Some u" "uUsername u = n" by blast
  with assms have "bget B d BoltBucketUsernameIdx n = Some (Bytes i)"
    unfolding users_inv_def names_index_ok_def by blast
  with users_okE[of B d i u] assms i show "UserRepo_GetByUsername B n d = Inr u"
    by (auto simp: UserRepo_GetByUsername_def auth_keys users_inv_def)
qed

lemma GetByUsername_missing:
  assumes "users_inv B d" and "no_nul n" and "\<And>i u. stored_user B d i = Some u \<Longrightarrow> uUsername u \<noteq> n"
  shows "UserRepo_GetByUsername B n d = Inl (Sentinel ErrNotFound)"
proof -
  have "bget B d BoltBucketUsernameIdx n = None"
  proof (cases "bget B d BoltBucketUsernameIdx n")
    case (Some v)
    with assms(1) obtain i u where "stored_user B d i = Some u" "uUsername u = n"
      unfolding users_inv_def names_index_ok_def by blast
    with assms(3) show ?thesis by blast
  qed
  with assms(2) show ?thesis by (simp add: UserRepo_GetByUsername_def auth_keys)
qed

lemma user_create_taken:
  assumes "users_inv B d" and "no_nul (uID u)" "no_nul (uUsername u)" and "stored_user B d i = Some v"
    and "uUsername v = uUsername u \<or> i = uID u"
  shows "UserRepo_Create B now u d = (Inl (Sentinel ErrAlreadyExists), d)"
proof -
  from assms(1,4) have "bget B d BoltBucketUsernameIdx (uUsername v) = Some (Bytes i)"
    unfolding users_inv_def names_index_ok_def by blast
  moreover from users_okE(1)[OF _ assms(4)] assms(1) have "bget B d BoltBucketUsers i \<noteq> None"
    by (simp add: users_inv_def)
  ultimately show ?thesis using assms(2,3,5)
    by (auto simp: UserRepo_Create_def db_update_def user_create_tx_def auth_keys)
qed

lemma user_create_exists:
  assumes inv: "users_inv B d" and run: "UserRepo_Create B now u d = (Inl e, d')" and e: "errors_is e ErrAlreadyExists"
  shows "\<exists>i v. stored_user B d i = Some v \<and> (uUsername v = uUsername u \<or> i = uID u)"
proof -
  have key: "\<not> errors_is x ErrAlreadyExists" if "component_key f k = Inl x" for f k x
    using that by (auto simp: component_key_def ValidateKeyComponent_def split: if_splits)
  have put: "\<not> errors_is x ErrAlreadyExists" if "bput B b k v d = Inl x" for b k v d x
    using put_error[OF that] by auto
  have commit: "\<not> errors_is x ErrAlreadyExists" if "commit_error B d = Some x" for d x
    using commit_error_plain[OF that] by auto
  from run e have "bget B d BoltBucketUsernameIdx (uUsername u) \<noteq> None \<or> bget B d BoltBucketUsers (uID u) \<noteq> None"
    by (auto simp: UserRepo_Create_def db_update_def user_create_tx_def auth_keys Let_def
        split: sum.splits if_splits option.splits dest: key put commit)
  then show ?thesis
  proof
    assume "bget B d BoltBucketUsernameIdx (uUsername u) \<noteq> None"
    with inv show ?thesis unfolding users_inv_def names_index_ok_def by blast
  next
    assume "bget B d BoltBucketUsers (uID u) \<noteq> None"
    with users_ok_read inv show ?thesis by (fastforce simp: users_inv_def)
  qed
qed

lemma user_create_Inr:
  assumes inv: "users_inv B d" and u: "utf8_user u" and run: "UserRepo_Create B now u d = (Inr u', d')"
  shows "users_inv B d' \<and> u' = stamp_user now u \<and> stored_user B d (uID u) = None
    \<and> (\<forall>i v. stored_user B d i = Some v \<longrightarrow> uUsername v \<noteq> uUsername u)
    \<and> stored_user B d' = (stored_user B d)(uID u \<mapsto> u')
    \<and> (\<forall>b k. b \<noteq> BoltBucketUsers \<longrightarrow> b \<noteq> BoltBucketUsernameIdx \<longrightarrow> bget B d' b k = bget B d b k)
    \<and> (\<forall>b. bucket_exists B d' b = bucket_exists B d b)"
proof -
  let ?u = "stamp_user now u"
  from run obtain d1 where n: "no_nul (uUsername u)" "no_nul (uID u)" "u' = ?u"
    "bget B d BoltBucketUsernameIdx (uUsername u) = None" "bget B d BoltBucketUsers (uID u) = None"
    and p: "bput B BoltBucketUsers (uID u) (Text (user_json ?u)) d = Inr d1"
      "bput B BoltBucketUsernameIdx (uUsername u) (Bytes (uID u)) d1 = Inr d'"
    by (auto simp: UserRepo_Create_def db_update_ok user_create_tx_def auth_keys Let_def
        split: sum.splits if_splits)
  have g: "bget B d' b k = (if b = BoltBucketUsernameIdx \<and> k = uUsername u then Some (Bytes (uID u))
      else if b = BoltBucketUsers \<and> k = uID u then Some (Text (user_json ?u)) else bget B d b k)" for b k
    by (simp add: put_get[OF p(2)] put_get[OF p(1)])
  have free: "uUsername v \<noteq> uUsername u" if "stored_user B d i = Some v" for i v
  proof
    assume "uUsername v = uUsername u"
    with inv that have "bget B d BoltBucketUsernameIdx (uUsername u) = Some (Bytes i)"
      unfolding users_inv_def names_index_ok_def by fastforce
    with n(4) show False by simp
  qed
  have none: "stored_user B d (uID u) = None" using n(5) by (simp add: stored_user_def)
  have s: "stored_user B d' = (stored_user B d)(uID u \<mapsto> ?u)"
    using u by (auto simp: fun_eq_iff stored_user_def g)
  have "users_ok B d'" using inv u n unfolding users_inv_def users_ok_def g
    by (auto split: if_splits)
  moreover have "names_index_ok B d'"
    unfolding names_index_ok_def
  proof (intro allI)
    fix m v
    show "bget B d' BoltBucketUsernameIdx m = Some v \<longleftrightarrow>
      (\<exists>i w. stored_user B d' i = Some w \<and> uUsername w = m \<and> v = Bytes i)"
    proof (cases "m = uUsername u")
      case True
      have "(\<exists>i w. stored_user B d' i = Some w \<and> uUsername w = m \<and> v = Bytes i) \<longleftrightarrow> v = Bytes (uID u)"
        using free True unfolding s by (auto split: if_splits)
      with True show ?thesis by (auto simp: g)
    next
      case False
      with none have "stored_user B d' i = Some w \<and> uUsername w = m \<longleftrightarrow> stored_user B d i = Some w \<and> uUsername w = m" for i w
        unfolding s by auto
      then have "(\<exists>i w. stored_user B d' i = Some w \<and> uUsername w = m \<and> v = Bytes i) \<longleftrightarrow>
          (\<exists>i w. stored_user B d i = Some w \<and> uUsername w = m \<and> v = Bytes i)" by blast
      also have "\<dots> \<longleftrightarrow> bget B d BoltBucketUsernameIdx m = Some v"
        using inv unfolding users_inv_def names_index_ok_def by blast
      finally show ?thesis using False by (simp add: g)
    qed
  qed
  ultimately show ?thesis
    using n(3) none free s put_exists[OF p(1)] put_exists[OF p(2)] by (auto simp: users_inv_def g)
qed

lemma auth_inv_user_create:
  assumes "auth_inv B d" and "utf8_user u" and "UserRepo_Create B now u d = (Inr u', d')"
  shows "auth_inv B d' \<and> stored_credential B d' = stored_credential B d"
proof -
  from assms(1) have i: "users_inv B d" by (simp add: auth_inv_def)
  from user_create_Inr[OF i assms(2,3)] have p: "users_inv B d'" "\<And>b. bucket_exists B d' b = bucket_exists B d b"
    "\<And>b k. b \<noteq> BoltBucketUsers \<Longrightarrow> b \<noteq> BoltBucketUsernameIdx \<Longrightarrow> bget B d' b k = bget B d b k" by blast+
  with assms(1) show ?thesis
    by (simp add: auth_inv_def opened_def credentials_ok_cong[of B d' d] stored_credential_cong[of B d' d])
qed

section \<open>Credentials\<close>

lemma put_credential:
  assumes inv: "auth_inv B d" and c: "utf8_credential c" "no_nul (cdAccessKey c)"
    and p: "bput B BoltBucketCredentials (cdAccessKey c) (Text (credential_json c)) d = Inr d'"
  shows "auth_inv B d' \<and> stored_user B d' = stored_user B d
    \<and> stored_credential B d' = (stored_credential B d)(cdAccessKey c \<mapsto> c)"
proof -
  note g = put_get[OF p]
  have "stored_credential B d' = (stored_credential B d)(cdAccessKey c \<mapsto> c)"
    using c(1) by (auto simp: fun_eq_iff stored_credential_def g)
  moreover have "credentials_ok B d'"
    using inv c unfolding auth_inv_def credentials_ok_def g by (auto split: if_splits)
  ultimately show ?thesis using inv
    by (simp add: auth_inv_def opened_def g put_exists[OF p] users_inv_cong[of B d' d] stored_user_cong[of B d' d])
qed

lemma credential_create_taken:
  assumes "auth_inv B d" and "stored_credential B d (cdAccessKey c) \<noteq> None"
  shows "CredentialRepo_Create B now c d = (Inl (Sentinel ErrAlreadyExists), d)"
proof -
  from assms obtain c0 where "stored_credential B d (cdAccessKey c) = Some c0" by blast
  with credentials_okE[of B d "cdAccessKey c" c0] assms(1) show ?thesis
    by (simp add: auth_inv_def CredentialRepo_Create_def db_update_def credential_create_tx_def auth_keys)
qed

lemma credential_create_exists:
  assumes inv: "auth_inv B d" and run: "CredentialRepo_Create B now c d = (Inl e, d')" and e: "errors_is e ErrAlreadyExists"
  shows "stored_credential B d (cdAccessKey c) \<noteq> None"
proof -
  have key: "\<not> errors_is x ErrAlreadyExists" if "component_key f k = Inl x" for f k x
    using that by (auto simp: component_key_def ValidateKeyComponent_def split: if_splits)
  have put: "\<not> errors_is x ErrAlreadyExists" if "bput B b k v d = Inl x" for b k v d x
    using put_error[OF that] by auto
  have commit: "\<not> errors_is x ErrAlreadyExists" if "commit_error B d = Some x" for d x
    using commit_error_plain[OF that] by auto
  from run e have "bget B d BoltBucketCredentials (cdAccessKey c) \<noteq> None"
    by (auto simp: CredentialRepo_Create_def db_update_def credential_create_tx_def auth_keys Let_def
        split: sum.splits if_splits option.splits dest: key put commit)
  with credentials_ok_read inv show ?thesis by (fastforce simp: auth_inv_def)
qed

lemma credential_create_Inr:
  assumes "auth_inv B d" and "utf8_credential c" and "CredentialRepo_Create B now c d = (Inr c', d')"
  shows "auth_inv B d' \<and> c' = stamp_credential now c \<and> stored_credential B d (cdAccessKey c) = None
    \<and> stored_credential B d' = (stored_credential B d)(cdAccessKey c \<mapsto> c') \<and> stored_user B d' = stored_user B d"
proof -
  from assms(3) have n: "no_nul (cdAccessKey c)" "c' = stamp_credential now c"
    "bget B d BoltBucketCredentials (cdAccessKey c) = None"
    "bput B BoltBucketCredentials (cdAccessKey c) (Text (credential_json c')) d = Inr d'"
    by (auto simp: CredentialRepo_Create_def db_update_ok credential_create_tx_def auth_keys Let_def
        split: sum.splits if_splits)
  with put_credential[OF assms(1), of c' d'] assms(2) show ?thesis
    by (simp add: stored_credential_def)
qed

lemma credential_revoke_Inr:
  assumes "auth_inv B d" and "CredentialRepo_Revoke B now k d = (Inr x, d')"
  shows "auth_inv B d' \<and> stored_user B d' = stored_user B d
    \<and> (\<exists>c. stored_credential B d k = Some c \<and> cdRevokedAt c = None
        \<and> stored_credential B d' = (stored_credential B d)(k \<mapsto> c\<lparr>cdRevokedAt := Some now\<rparr>))"
proof -
  from assms(1) have ok: "credentials_ok B d" by (simp add: auth_inv_def)
  from assms(2) obtain c where c: "credential_read B k d = Inr c"
    "bput B BoltBucketCredentials k (Text (credential_json (c\<lparr>cdRevokedAt := Some now\<rparr>))) d = Inr d'"
    by (auto simp: CredentialRepo_Revoke_def db_update_ok credential_revoke_tx_def split: sum.splits)
  from credential_read_Inr[OF ok] c(1) have s: "stored_credential B d k = Some c" "cdRevokedAt c = None" by auto
  note e = credentials_okE[OF ok s(1)]
  have "utf8_credential (c\<lparr>cdRevokedAt := Some now\<rparr>)" using e(3) by (simp add: utf8_credential_def)
  from put_credential[OF assms(1) this, of d'] c(2) e s show ?thesis by auto
qed

lemma credential_revoke_missing:
  assumes "auth_inv B d" and "no_nul k" and "\<And>c. stored_credential B d k = Some c \<Longrightarrow> cdRevokedAt c \<noteq> None"
  shows "CredentialRepo_Revoke B now k d = (Inl (Sentinel ErrNotFound), d)"
proof -
  from assms(1) have ok: "credentials_ok B d" by (simp add: auth_inv_def)
  from credential_read_eq[OF ok assms(2)] assms(3) have "credential_read B k d = Inl (Sentinel ErrNotFound)"
    by (auto split: option.splits)
  then show ?thesis by (simp add: CredentialRepo_Revoke_def db_update_def credential_revoke_tx_def)
qed

lemma auth_bootstrap_inv:
  assumes "auth_bootstrap B d = (Inr (), d')"
    and "auth_inv B d \<or> (\<forall>b k. bget B d b k = None)"
  shows "auth_inv B d' \<and> stored_user B d' = stored_user B d \<and> stored_credential B d' = stored_credential B d"
proof -
  note run = assms(1)[unfolded auth_bootstrap_def]
  have g: "bget B d' b k = bget B d b k" if "b \<noteq> BoltBucketMeta" for b k
    using bootstrap_keeps[OF run] that by blast
  have "users_inv B d \<and> credentials_ok B d" using assms(2)
    by (auto simp: auth_inv_def users_inv_def users_ok_def names_index_ok_def credentials_ok_def stored_user_def)
  with bootstrap_opened[OF run] g show ?thesis
    by (simp add: auth_inv_def users_inv_cong[of B d' d] credentials_ok_cong[of B d' d]
        stored_user_cong[of B d' d] stored_credential_cong[of B d' d])
qed

end

sublocale bolt_store \<subseteq> accounts: user_contract "BoltUserRepository B" "auth_inv B" "stored_user B"
proof (unfold_locales, goal_cases)
  case (1 d i u)
  then show ?case using users_okE[of B d i u] by (simp add: auth_inv_def users_inv_def)
next
  case (2 d i u j v)
  then have "bget B d BoltBucketUsernameIdx (uUsername u) = Some (Bytes i)"
    "bget B d BoltBucketUsernameIdx (uUsername u) = Some (Bytes j)"
    unfolding auth_inv_def users_inv_def names_index_ok_def by fastforce+
  then show ?case by simp
next
  case (3 d i u)
  then show ?case by (simp add: GetByID_Inr auth_inv_def users_inv_def)
next
  case (4 d i)
  then show ?case by (simp add: GetByID_eq auth_inv_def users_inv_def)
next
  case (5 d n u)
  then show ?case by (simp add: GetByUsername_Inr auth_inv_def)
next
  case (6 d n)
  then show ?case using GetByUsername_missing[of d n] by (auto simp: auth_inv_def)
next
  case (7 d u i v now)
  then show ?case using user_create_taken[of d u i v now] by (simp add: auth_inv_def)
next
  case (8 d now u e d')
  then show ?case using user_create_exists[of d now u e d'] by (simp add: auth_inv_def)
next
  case (9 now u d e d')
  then show ?case by (auto simp: UserRepo_Create_def dest: db_update_error)
next
  case (10 d u now u' d')
  then show ?case using user_create_Inr[of d u now u' d'] auth_inv_user_create[of d u now u' d']
    by (simp add: auth_inv_def)
qed

sublocale bolt_store \<subseteq> secrets: credential_contract "BoltCredentialRepository B" "auth_inv B" "stored_credential B"
proof (unfold_locales, goal_cases)
  case (1 d k c)
  then show ?case using credentials_okE[of B d k c] by (simp add: auth_inv_def)
next
  case (2 d k c)
  then show ?case by (simp add: CredentialRepo_GetByAccessKey_def credential_read_Inr auth_inv_def)
next
  case (3 d k)
  then show ?case by (auto simp: CredentialRepo_GetByAccessKey_def credential_read_eq auth_inv_def split: option.splits)
next
  case (4 d c now)
  then show ?case using credential_create_taken[of d c now] by simp
next
  case (5 d now c e d')
  then show ?case using credential_create_exists[of d now c e d'] by simp
next
  case (6 now c d e d')
  then show ?case by (auto simp: CredentialRepo_Create_def dest: db_update_error)
next
  case (7 d c now c' d')
  then show ?case using credential_create_Inr[of d c now c' d'] by simp
next
  case (8 d k now)
  then show ?case using credential_revoke_missing[of d k now] by auto
next
  case (9 now k d e d')
  then show ?case by (auto simp: CredentialRepo_Revoke_def dest: db_update_error)
next
  case (10 d now k x d')
  then show ?case using credential_revoke_Inr[of d now k x d'] by auto
qed

sublocale bolt_store \<subseteq> auth: auth_store "BoltUserRepository B" "BoltCredentialRepository B" "auth_inv B"
  "stored_user B" "stored_credential B"
proof (unfold_locales, goal_cases)
  case (1 d u now u' d')
  then show ?case using auth_inv_user_create[of d u now u' d'] by simp
next
  case (2 d c now c' d')
  then show ?case using credential_create_Inr[of d c now c' d'] by simp
next
  case (3 d now k x d')
  then show ?case using credential_revoke_Inr[of d now k x d'] by simp
qed

section \<open>On a store that does not fail\<close>

lemma auth_names [simp]:
  "BoltBucketUsers \<in> set auth_bolt_buckets" "BoltBucketUsernameIdx \<in> set auth_bolt_buckets"
  "BoltBucketCredentials \<in> set auth_bolt_buckets"
  by (simp_all add: auth_bolt_buckets_def)

context bolt_roomy
begin

lemma auth_put: "auth_inv B d \<Longrightarrow> b \<in> set auth_bolt_buckets \<Longrightarrow> key_ok k \<Longrightarrow> \<exists>d'. bput B b k v d = Inr d'"
  by (rule put_total) (simp_all add: auth_inv_def)

lemma user_create_total:
  assumes inv: "auth_inv B d" and u: "user_fits u" and free: "stored_user B d (uID u) = None"
    "\<And>i v. stored_user B d i = Some v \<Longrightarrow> uUsername v \<noteq> uUsername u"
  shows "\<exists>u' d'. UserRepo_Create B now u d = (Inr u', d')"
proof -
  from inv have i: "users_ok B d" "names_index_ok B d" by (simp_all add: auth_inv_def users_inv_def)
  have a: "bget B d BoltBucketUsers (uID u) = None"
  proof (cases "bget B d BoltBucketUsers (uID u)")
    case (Some v)
    from users_ok_read[OF i(1) this] free(1) show ?thesis by simp
  qed
  have b: "bget B d BoltBucketUsernameIdx (uUsername u) = None"
  proof (cases "bget B d BoltBucketUsernameIdx (uUsername u)")
    case (Some v)
    with i(2) free(2) show ?thesis unfolding names_index_ok_def by blast
  qed
  from auth_put[OF inv, of BoltBucketUsers "uID u"] u
  obtain d1 where d1: "bput B BoltBucketUsers (uID u) (Text (user_json (stamp_user now u))) d = Inr d1"
    by (auto simp: user_fits_def)
  have "bucket_exists B d1 BoltBucketUsernameIdx"
    using inv put_exists[OF d1] by (auto simp: auth_inv_def opened_def)
  from put_ok[OF this, of "uUsername u" "Bytes (uID u)"] u
  obtain d2 where "bput B BoltBucketUsernameIdx (uUsername u) (Bytes (uID u)) d1 = Inr d2"
    by (auto simp: user_fits_def fits_all)
  with d1 a b u show ?thesis
    by (simp add: UserRepo_Create_def db_update_healthy user_create_tx_def auth_keys user_fits_def Let_def)
qed

lemma credential_create_total:
  assumes inv: "auth_inv B d" and c: "no_nul (cdAccessKey c)" "key_ok (cdAccessKey c)"
    and free: "stored_credential B d (cdAccessKey c) = None"
  shows "\<exists>c' d'. CredentialRepo_Create B now c d = (Inr c', d')"
proof -
  have "bget B d BoltBucketCredentials (cdAccessKey c) = None"
  proof (cases "bget B d BoltBucketCredentials (cdAccessKey c)")
    case (Some v)
    with credentials_ok_read[OF _ this] inv free show ?thesis by (simp add: auth_inv_def)
  qed
  with auth_put[OF inv, of BoltBucketCredentials "cdAccessKey c" "Text (credential_json (stamp_credential now c))"] c
  show ?thesis
    by (auto simp: CredentialRepo_Create_def db_update_healthy credential_create_tx_def auth_keys Let_def)
qed

lemma credential_revoke_total:
  assumes inv: "auth_inv B d" and c: "stored_credential B d k = Some c" "cdRevokedAt c = None" and k: "key_ok k"
  shows "\<exists>d'. CredentialRepo_Revoke B now k d = (Inr (), d')"
proof -
  from inv have "credential_read B k d = Inr c" using c by (simp add: credential_read_Inr auth_inv_def)
  with auth_put[OF inv, of BoltBucketCredentials k "Text (credential_json (c\<lparr>cdRevokedAt := Some now\<rparr>))"] k
  show ?thesis by (auto simp: CredentialRepo_Revoke_def db_update_healthy credential_revoke_tx_def)
qed

end

sublocale bolt_roomy \<subseteq> auth: auth_store_total "BoltUserRepository B" "BoltCredentialRepository B" "auth_inv B"
  "stored_user B" "stored_credential B"
proof (unfold_locales, goal_cases)
  case (1 d u now)
  then show ?case using user_create_total[of d u now] by simp
next
  case (2 d c now)
  then show ?case using credential_create_total[of d c now] by simp
next
  case (3 d k c now)
  then show ?case using credential_revoke_total[of d k c now] by simp
qed

end
