(* ===== verification/Auth_Api.thy ===== *)
theory Auth_Api
  imports Auth_Laws Auth_Contract Go_Net
begin

text \<open>
  The HTTP layer of auth-service (\<open>internal/api\<close>): requests and responses, the mapping of errors to
  statuses, the middleware for bearer tokens and for the internal token, the handlers, the routes, and
  the databases the service can leave behind.
\<close>

section \<open>Requests and responses\<close>

record createUserRequest =
  cuUsername :: string
  cuPassword :: string

definition createUserRequest_fields :: "createUserRequest field list" where
  "createUserRequest_fields =
     [(''username'', string_field (\<lambda>x r. r\<lparr>cuUsername := x\<rparr>)),
      (''password'', string_field (\<lambda>x r. r\<lparr>cuPassword := x\<rparr>))]"

record loginRequest =
  lgUsername :: string
  lgPassword :: string

definition loginRequest_fields :: "loginRequest field list" where
  "loginRequest_fields =
     [(''username'', string_field (\<lambda>x r. r\<lparr>lgUsername := x\<rparr>)),
      (''password'', string_field (\<lambda>x r. r\<lparr>lgPassword := x\<rparr>))]"

record refreshRequest =
  rfRefreshToken :: string

definition refreshRequest_fields :: "refreshRequest field list" where
  "refreshRequest_fields = [(''refresh_token'', string_field (\<lambda>x r. r\<lparr>rfRefreshToken := x\<rparr>))]"

record userResponse =
  urID :: string
  urUsername :: string
  urIsAdmin :: bool
  urCreatedAt :: time

definition toUserResponse :: "user \<Rightarrow> userResponse" where
  "toUserResponse u = \<lparr>urID = uID u, urUsername = uUsername u, urIsAdmin = uIsAdmin u, urCreatedAt = uCreatedAt u\<rparr>"

definition userResponse_json :: "userResponse \<Rightarrow> json" where
  "userResponse_json r = JObj
     [(''id'', jstr (urID r)), (''username'', jstr (urUsername r)), (''is_admin'', JBool (urIsAdmin r)),
      (''created_at'', JTime (urCreatedAt r))]"

definition loginResponse_json :: "string \<Rightarrow> string \<Rightarrow> json" where
  "loginResponse_json access refresh = JObj [(''access_token'', jstr access), (''refresh_token'', jstr refresh)]"

definition refreshResponse_json :: "string \<Rightarrow> json" where
  "refreshResponse_json access = JObj [(''access_token'', jstr access)]"

definition credentialIssuedResponse_json :: "issued_credential \<Rightarrow> json" where
  "credentialIssuedResponse_json c = JObj
     [(''access_key'', jstr (isAccessKey c)), (''secret_key'', jstr (isSecretKey c)), (''user_id'', jstr (isUserID c)),
      (''created_at'', JTime (isCreatedAt c))]"

definition lookupResponse_json :: "looked_up_credential \<Rightarrow> json" where
  "lookupResponse_json c = JObj [(''user_id'', jstr (luUserID c)), (''secret_key'', jstr (luSecretKey c))]"

text \<open>
  A body is decoded strictly: unknown members are errors.  A body that is longer than 1 MiB is cut off
  by the reader, so it is no JSON document.
\<close>

definition auth_writeError :: "go_error \<Rightarrow> response" where
  "auth_writeError err =
     (if errors_is err ErrNotFound then write_json StatusNotFound (error_json (error_text err))
      else if errors_is err ErrAlreadyExists then write_json StatusConflict (error_json (error_text err))
      else if errors_is err ErrInvalidCredentials then write_json StatusUnauthorized (error_json (error_text err))
      else if errors_is err ErrInvalidInput then write_json StatusBadRequest (error_json (error_text err))
      else write_json StatusInternalServerError (error_json [Lit ''internal server error'']))"

definition auth_refused :: "nat \<Rightarrow> string \<Rightarrow> response" where
  "auth_refused st msg = write_json st (error_json [Lit msg])"

definition auth_unauthorized :: response where
  "auth_unauthorized = auth_refused StatusUnauthorized ''unauthorized''"

section \<open>Middleware\<close>

text \<open>The configuration of the service: the packages it calls and its secrets.\<close>

record auth_config =
  ag_jwt :: jwt_package
  ag_bcrypt :: bcrypt_package
  ag_secret :: bytes
  ag_master :: bytes
  ag_token :: string

definition requireAuth :: "auth_config \<Rightarrow> auth_env \<Rightarrow> header \<Rightarrow> response + auth_principal" where
  "requireAuth cfg e h =
     (let authz = header_get h ''Authorization''
      in if \<not> prefix ''Bearer '' authz \<or> drop 7 authz = [] then Inl auth_unauthorized
         else case VerifyAccessToken (ag_jwt cfg) (ag_secret cfg) (ae_now e 0) (drop 7 authz) of
           Inl _ \<Rightarrow> Inl auth_unauthorized
         | Inr p \<Rightarrow> Inr p)"

definition requireSelfOrAdmin :: "auth_principal option \<Rightarrow> string \<Rightarrow> response option" where
  "requireSelfOrAdmin ctx targetUserID =
     (case ctx of
        None \<Rightarrow> Some auth_unauthorized
      | Some p \<Rightarrow>
          if apIsAdmin p \<or> apUserID p = targetUserID then None
          else Some (auth_refused StatusForbidden ''forbidden''))"

text \<open>The comparison takes constant time; what it decides is equality.\<close>

definition internalTokenAuth :: "string \<Rightarrow> header \<Rightarrow> response option" where
  "internalTokenAuth token h =
     (let got = header_get h ''X-Internal-Token''
      in if got = [] \<or> got \<noteq> token then Some auth_unauthorized else None)"

section \<open>Handlers\<close>

definition auth_healthz :: response where
  "auth_healthz = write_json StatusOK status_ok_json"

definition auth_healthzReady :: "ctx \<Rightarrow> response" where
  "auth_healthzReady ctx =
     (case store_ready ctx of
        Some err \<Rightarrow> write_json StatusServiceUnavailable (unavailable_json (error_text err))
      | None \<Rightarrow> write_json StatusOK status_ok_json)"

definition a_createUser ::
    "auth_config \<Rightarrow> 'd user_repository \<Rightarrow> auth_env \<Rightarrow> json option \<Rightarrow> 'd \<Rightarrow> response \<times> 'd" where
  "a_createUser cfg UR e bdy d =
     (case decode_body createUserRequest_fields True \<lparr>cuUsername = [], cuPassword = []\<rparr> bdy of
        Inl _ \<Rightarrow> (auth_refused StatusBadRequest ''invalid JSON body'', d)
      | Inr req \<Rightarrow>
          (case Register (ag_bcrypt cfg) UR e (cuUsername req) (cuPassword req) d of
             (Inl err, d') \<Rightarrow> (auth_writeError err, d')
           | (Inr u, d') \<Rightarrow> (write_json StatusCreated (userResponse_json (toUserResponse u)), d')))"

definition a_getUser :: "'d user_repository \<Rightarrow> auth_principal option \<Rightarrow> string \<Rightarrow> 'd \<Rightarrow> response" where
  "a_getUser UR ctx i d =
     (case requireSelfOrAdmin ctx i of
        Some resp \<Rightarrow> resp
      | None \<Rightarrow>
          (case GetUser UR i d of
             Inl err \<Rightarrow> auth_writeError err
           | Inr u \<Rightarrow> write_json StatusOK (userResponse_json (toUserResponse u))))"

definition a_createCredential ::
    "auth_config \<Rightarrow> 'd user_repository \<Rightarrow> 'd credential_repository \<Rightarrow> auth_env \<Rightarrow> auth_principal option \<Rightarrow> string \<Rightarrow> 'd
       \<Rightarrow> response \<times> 'd" where
  "a_createCredential cfg UR CR e ctx userID d =
     (case requireSelfOrAdmin ctx userID of
        Some resp \<Rightarrow> (resp, d)
      | None \<Rightarrow>
          (case IssueCredential (ag_master cfg) UR CR e userID d of
             (Inl err, d') \<Rightarrow> (auth_writeError err, d')
           | (Inr c, d') \<Rightarrow> (write_json StatusCreated (credentialIssuedResponse_json c), d')))"

definition a_revoke :: "'d credential_repository \<Rightarrow> auth_env \<Rightarrow> string \<Rightarrow> 'd \<Rightarrow> response \<times> 'd" where
  "a_revoke CR e accessKey d =
     (case RevokeCredential CR e accessKey d of
        (Inl err, d') \<Rightarrow> (auth_writeError err, d')
      | (Inr _, d') \<Rightarrow> (write_header StatusNoContent, d'))"

definition a_revokeCredential ::
    "'d credential_repository \<Rightarrow> auth_env \<Rightarrow> auth_principal option \<Rightarrow> string \<Rightarrow> 'd \<Rightarrow> response \<times> 'd" where
  "a_revokeCredential CR e ctx accessKey d =
     (case ctx of
        None \<Rightarrow> (auth_unauthorized, d)
      | Some p \<Rightarrow>
          if \<not> apIsAdmin p then
            (case GetCredentialOwner CR accessKey d of
               Inl err \<Rightarrow> (auth_writeError err, d)
             | Inr ownerID \<Rightarrow>
                 if ownerID \<noteq> apUserID p then (auth_refused StatusForbidden ''forbidden'', d)
                 else a_revoke CR e accessKey d)
          else a_revoke CR e accessKey d)"

definition a_login :: "auth_config \<Rightarrow> 'd user_repository \<Rightarrow> auth_env \<Rightarrow> json option \<Rightarrow> 'd \<Rightarrow> response" where
  "a_login cfg UR e bdy d =
     (case decode_body loginRequest_fields True \<lparr>lgUsername = [], lgPassword = []\<rparr> bdy of
        Inl _ \<Rightarrow> auth_refused StatusBadRequest ''invalid JSON body''
      | Inr req \<Rightarrow>
          (case Login (ag_jwt cfg) (ag_bcrypt cfg) (ag_secret cfg) UR e (lgUsername req) (lgPassword req) d of
             Inl err \<Rightarrow> auth_writeError err
           | Inr (access, refresh) \<Rightarrow> write_json StatusOK (loginResponse_json access refresh)))"

definition a_refresh :: "auth_config \<Rightarrow> 'd user_repository \<Rightarrow> auth_env \<Rightarrow> json option \<Rightarrow> 'd \<Rightarrow> response" where
  "a_refresh cfg UR e bdy d =
     (case decode_body refreshRequest_fields True \<lparr>rfRefreshToken = []\<rparr> bdy of
        Inl _ \<Rightarrow> auth_refused StatusBadRequest ''invalid JSON body''
      | Inr req \<Rightarrow>
          (case Refresh (ag_jwt cfg) (ag_secret cfg) UR e (rfRefreshToken req) d of
             Inl err \<Rightarrow> auth_writeError err
           | Inr access \<Rightarrow> write_json StatusOK (refreshResponse_json access)))"

definition a_lookup :: "auth_config \<Rightarrow> 'd credential_repository \<Rightarrow> string \<Rightarrow> 'd \<Rightarrow> response" where
  "a_lookup cfg CR accessKey d =
     (case LookupCredential (ag_master cfg) CR accessKey d of
        Inl err \<Rightarrow> auth_writeError err
      | Inr c \<Rightarrow> write_json StatusOK (lookupResponse_json c))"

section \<open>Routes\<close>

text \<open>A request after routing, with its path parameters and its body.\<close>

datatype auth_request =
    UHealthz | UHealthzLive | UHealthzReady | UHealthzStartup
  | UCreateUser "json option"
  | UGetUser string
  | UCreateCredential string
  | URevokeCredential string
  | ULogin "json option"
  | URefresh "json option"
  | ULookup string

definition authenticated ::
    "auth_config \<Rightarrow> auth_env \<Rightarrow> header \<Rightarrow> (auth_principal option \<Rightarrow> 'd \<Rightarrow> response \<times> 'd) \<Rightarrow> 'd \<Rightarrow> response \<times> 'd" where
  "authenticated cfg e h act d =
     (case requireAuth cfg e h of Inl resp \<Rightarrow> (resp, d) | Inr p \<Rightarrow> act (Some p) d)"

definition internal_only :: "auth_config \<Rightarrow> header \<Rightarrow> response \<Rightarrow> response" where
  "internal_only cfg h resp = (case internalTokenAuth (ag_token cfg) h of Some r \<Rightarrow> r | None \<Rightarrow> resp)"

fun auth_serve :: "auth_config \<Rightarrow> 'd bolt \<Rightarrow> auth_env \<Rightarrow> header \<Rightarrow> auth_request \<Rightarrow> 'd \<Rightarrow> response \<times> 'd" where
  "auth_serve cfg B e h UHealthz d = (auth_healthz, d)"
| "auth_serve cfg B e h UHealthzLive d = (auth_healthz, d)"
| "auth_serve cfg B e h UHealthzReady d = (auth_healthzReady (ae_ctx e), d)"
| "auth_serve cfg B e h UHealthzStartup d = (auth_healthzReady (ae_ctx e), d)"
| "auth_serve cfg B e h (UCreateUser bdy) d = a_createUser cfg (BoltUserRepository B) e bdy d"
| "auth_serve cfg B e h (UGetUser i) d =
     authenticated cfg e h (\<lambda>ctx d. (a_getUser (BoltUserRepository B) ctx i d, d)) d"
| "auth_serve cfg B e h (UCreateCredential i) d =
     authenticated cfg e h (\<lambda>ctx. a_createCredential cfg (BoltUserRepository B) (BoltCredentialRepository B) e ctx i) d"
| "auth_serve cfg B e h (URevokeCredential k) d =
     authenticated cfg e h (\<lambda>ctx. a_revokeCredential (BoltCredentialRepository B) e ctx k) d"
| "auth_serve cfg B e h (ULogin bdy) d = (a_login cfg (BoltUserRepository B) e bdy d, d)"
| "auth_serve cfg B e h (URefresh bdy) d = (a_refresh cfg (BoltUserRepository B) e bdy d, d)"
| "auth_serve cfg B e h (ULookup k) d =
     (internal_only cfg h (a_lookup cfg (BoltCredentialRepository B) k d), d)"

definition auth_routes :: "route list" where
  "auth_routes =
     [(''GET'', [Static ''/healthz'']), (''GET'', [Static ''/healthz/live'']),
      (''GET'', [Static ''/healthz/ready'']), (''GET'', [Static ''/healthz/startup'']),
      (''POST'', [Static ''/v1/users'', Slash]),
      (''GET'', [Static ''/v1/users/'', Param, Slash]),
      (''POST'', [Static ''/v1/users/'', Param, Static ''/credentials'']),
      (''DELETE'', [Static ''/v1/access-keys/'', Param]),
      (''POST'', [Static ''/v1/auth/login'']), (''POST'', [Static ''/v1/auth/refresh'']),
      (''GET'', [Static ''/internal/credentials/'', Param])]"

definition auth_requests :: "string list \<Rightarrow> json option \<Rightarrow> auth_request list" where
  "auth_requests ps bdy =
     [UHealthz, UHealthzLive, UHealthzReady, UHealthzStartup, UCreateUser bdy, UGetUser (ps ! 0),
      UCreateCredential (ps ! 0), URevokeCredential (ps ! 0), ULogin bdy, URefresh bdy, ULookup (ps ! 0)]"

text \<open>
  The middleware of a mounted sub-router also runs for the paths below it that have no route: the
  internal token below \<open>/internal\<close>, the bearer token below \<open>/v1/users/{id}\<close>.
\<close>

definition auth_miss :: "auth_config \<Rightarrow> auth_env \<Rightarrow> header \<Rightarrow> string \<Rightarrow> nat \<Rightarrow> response" where
  "auth_miss cfg e h p st =
     (if p = ''/internal'' \<or> prefix ''/internal/'' p then internal_only cfg h (write_header st)
      else if prefix ''/v1/users/'' p \<and> takeWhile no_slash (drop 10 p) \<noteq> [] then
        (case requireAuth cfg e h of Inl resp \<Rightarrow> resp | Inr _ \<Rightarrow> write_header st)
      else write_header st)"

definition auth_http ::
    "chi \<Rightarrow> auth_config \<Rightarrow> 'd bolt \<Rightarrow> auth_env \<Rightarrow> http_call \<Rightarrow> 'd \<Rightarrow> response \<times> 'd" where
  "auth_http chi cfg B e c d =
     (if \<not> wire_query_ok (hc_url c) then (write_header StatusBadRequest, d)
      else case chi auth_routes (hc_method c) (route_path (hc_url c)) of
        Inl st \<Rightarrow> (auth_miss cfg e (hc_header c) (route_path (hc_url c)) st, d)
      | Inr (i, ps) \<Rightarrow>
          auth_serve cfg B e (hc_header c) (auth_requests ps (req_json (hc_body c)) ! i) d)"

section \<open>The databases of auth-service\<close>

text \<open>
  One step: a request is served, or the service is restarted on its database.  The databases it can
  leave behind start from one that was opened on a new file.
\<close>

inductive auth_step :: "auth_config \<Rightarrow> 'd bolt \<Rightarrow> 'd \<Rightarrow> 'd \<Rightarrow> bool" for cfg :: auth_config and B :: "'d bolt" where
  served: "auth_env_ok e \<Longrightarrow> auth_serve cfg B e h r d = (resp, d') \<Longrightarrow> auth_step cfg B d d'"
| reopened: "auth_open B path mkdir (Inr d) = Inr d' \<Longrightarrow> auth_step cfg B d d'"

inductive auth_reachable :: "auth_config \<Rightarrow> 'd bolt \<Rightarrow> 'd \<Rightarrow> bool" for cfg :: auth_config and B :: "'d bolt" where
  created: "(\<And>b k. bget B d0 b k = None) \<Longrightarrow> auth_open B path mkdir (Inr d0) = Inr d \<Longrightarrow> auth_reachable cfg B d"
| stepped: "auth_reachable cfg B d \<Longrightarrow> auth_step cfg B d d' \<Longrightarrow> auth_reachable cfg B d'"

definition auth_ok :: "auth_config \<Rightarrow> 'd bolt \<Rightarrow> 'd \<Rightarrow> bool" where
  "auth_ok cfg B d \<longleftrightarrow> auth_inv B d \<and> secrets_ok (ag_master cfg) (stored_user B d) (stored_credential B d)
     \<and> no_admins (stored_user B d)"

text \<open>
  How the data evolves: users stay as they are, a credential stays under its access key and only gets
  revoked, once.
\<close>

definition credential_evolves :: "credential_record \<Rightarrow> credential_record \<Rightarrow> bool" where
  "credential_evolves c c' \<longleftrightarrow> c' = c \<or> cdRevokedAt c = None \<and> (\<exists>t. c' = c\<lparr>cdRevokedAt := Some t\<rparr>)"

definition auth_evolves :: "'d bolt \<Rightarrow> 'd \<Rightarrow> 'd \<Rightarrow> bool" where
  "auth_evolves B d d' \<longleftrightarrow> stored_user B d \<subseteq>\<^sub>m stored_user B d'
     \<and> (\<forall>k c. stored_credential B d k = Some c \<longrightarrow>
          (\<exists>c'. stored_credential B d' k = Some c' \<and> credential_evolves c c'))"

end
