(* ===== verification/Auth_Runs.thy ===== *)
theory Auth_Runs
  imports Auth_Api
begin

text \<open>
  auth-service on a bolt store with its packages: the invariant over requests and restarts, what a
  request may change and on whose behalf, and how the data evolves.
\<close>

lemma auth_open_bootstrap: "auth_open B path mkdir (Inr d) = Inr d' \<Longrightarrow> auth_bootstrap B d = (Inr (), d')"
  by (auto simp: auth_open_def auth_bootstrap_def open_store_def split: option.splits prod.splits sum.splits)

lemma credential_evolves_refl [simp]: "credential_evolves c c"
  by (simp add: credential_evolves_def)

lemma credential_evolves_trans: "credential_evolves a b \<Longrightarrow> credential_evolves b c \<Longrightarrow> credential_evolves a c"
  by (auto simp: credential_evolves_def)

lemma credential_evolves_sel:
  "credential_evolves c c' \<Longrightarrow> cdUserID c' = cdUserID c \<and> cdSecretKeyEncrypted c' = cdSecretKeyEncrypted c
     \<and> cdAccessKey c' = cdAccessKey c \<and> cdCreatedAt c' = cdCreatedAt c
     \<and> (cdRevokedAt c \<noteq> None \<longrightarrow> cdRevokedAt c' = cdRevokedAt c)"
  by (auto simp: credential_evolves_def)

lemma auth_evolves_refl [simp]: "auth_evolves B d d"
  by (simp add: auth_evolves_def)

lemma auth_evolves_trans: "auth_evolves B d1 d2 \<Longrightarrow> auth_evolves B d2 d3 \<Longrightarrow> auth_evolves B d1 d3"
  unfolding auth_evolves_def by (meson credential_evolves_trans map_le_trans)

lemma auth_evolves_same:
  "stored_user B d' = stored_user B d \<Longrightarrow> stored_credential B d' = stored_credential B d \<Longrightarrow> auth_evolves B d d'"
  by (simp add: auth_evolves_def)

lemma auth_statuses:
  "400 \<le> status (auth_writeError err)" "400 \<le> status auth_unauthorized" "400 \<le> status (auth_refused StatusForbidden m)"
  "400 \<le> status (auth_refused StatusBadRequest m)"
  by (simp_all add: auth_writeError_def auth_unauthorized_def auth_refused_def)

lemma requireAuth_Inl: "requireAuth cfg e h = Inl resp \<Longrightarrow> resp = auth_unauthorized"
  by (auto simp: requireAuth_def Let_def split: if_splits sum.splits)

lemma requireAuth_Inr:
  assumes "requireAuth cfg e h = Inr p"
  shows "\<exists>tok. header_get h ''Authorization'' = ''Bearer '' @ tok \<and> tok \<noteq> []
    \<and> VerifyAccessToken (ag_jwt cfg) (ag_secret cfg) (ae_now e 0) tok = Inr p"
proof -
  let ?a = "header_get h ''Authorization''"
  from assms have "prefix ''Bearer '' ?a" "drop 7 ?a \<noteq> []"
    "VerifyAccessToken (ag_jwt cfg) (ag_secret cfg) (ae_now e 0) (drop 7 ?a) = Inr p"
    by (auto simp: requireAuth_def Let_def split: if_splits sum.splits)
  then show ?thesis by (intro exI[of _ "drop 7 ?a"]) (auto simp: prefix_def)
qed

lemma requireSelfOrAdmin_None:
  "requireSelfOrAdmin (Some p) i = None \<longleftrightarrow> apIsAdmin p \<or> apUserID p = i"
  by (simp add: requireSelfOrAdmin_def)

lemma requireSelfOrAdmin_status: "requireSelfOrAdmin ctx i = Some resp \<Longrightarrow> 400 \<le> status resp"
  by (auto simp: requireSelfOrAdmin_def auth_statuses split: option.splits if_splits)

locale auth_deployment = bolt_store B + jwt_laws "ag_jwt cfg" + bcrypt_laws "ag_bcrypt cfg"
  for B :: "'d bolt" and cfg :: auth_config

sublocale auth_deployment \<subseteq> svc: auth_services "BoltUserRepository B" "BoltCredentialRepository B" "auth_inv B"
  "stored_user B" "stored_credential B" "ag_jwt cfg" "ag_bcrypt cfg"
  by unfold_locales

text \<open>What one request does to the data.\<close>

definition user_added :: "'d bolt \<Rightarrow> 'd \<Rightarrow> 'd \<Rightarrow> bool" where
  "user_added B d d' \<longleftrightarrow> stored_credential B d' = stored_credential B d
     \<and> (\<exists>u. stored_user B d (uID u) = None \<and> \<not> uIsAdmin u \<and> stored_user B d' = (stored_user B d)(uID u \<mapsto> u)
          \<and> (\<forall>i v. stored_user B d i = Some v \<longrightarrow> uUsername v \<noteq> uUsername u))"

definition credential_issued :: "'d bolt \<Rightarrow> string \<Rightarrow> 'd \<Rightarrow> 'd \<Rightarrow> bool" where
  "credential_issued B i d d' \<longleftrightarrow> stored_user B d' = stored_user B d \<and> stored_user B d i \<noteq> None
     \<and> (\<exists>c. cdUserID c = i \<and> cdRevokedAt c = None \<and> stored_credential B d (cdAccessKey c) = None
          \<and> stored_credential B d' = (stored_credential B d)(cdAccessKey c \<mapsto> c))"

definition credential_revoked :: "'d bolt \<Rightarrow> string \<Rightarrow> 'd \<Rightarrow> 'd \<Rightarrow> bool" where
  "credential_revoked B k d d' \<longleftrightarrow> stored_user B d' = stored_user B d
     \<and> (\<exists>c t. stored_credential B d k = Some c \<and> cdRevokedAt c = None
          \<and> stored_credential B d' = (stored_credential B d)(k \<mapsto> c\<lparr>cdRevokedAt := Some t\<rparr>))"

text \<open>
  The effect of a request: none, a new user, or a credential issued or revoked for the bearer of an
  access token that is the user or an admin.
\<close>

definition owner_of :: "'d bolt \<Rightarrow> 'd \<Rightarrow> string \<Rightarrow> string option" where
  "owner_of B d k = map_option cdUserID (stored_credential B d k)"

definition auth_effect :: "auth_config \<Rightarrow> 'd bolt \<Rightarrow> auth_env \<Rightarrow> header \<Rightarrow> auth_request \<Rightarrow> 'd \<Rightarrow> 'd \<Rightarrow> bool" where
  "auth_effect cfg B e h r d d' \<longleftrightarrow> d' = d
     \<or> (\<exists>bdy. r = UCreateUser bdy) \<and> user_added B d d'
     \<or> (\<exists>i p. r = UCreateCredential i \<and> requireAuth cfg e h = Inr p \<and> (apIsAdmin p \<or> apUserID p = i)
          \<and> credential_issued B i d d')
     \<or> (\<exists>k p. r = URevokeCredential k \<and> requireAuth cfg e h = Inr p
          \<and> (apIsAdmin p \<or> owner_of B d k = Some (apUserID p)) \<and> credential_revoked B k d d')"

text \<open>The secret key a response shows: the member of its JSON object.\<close>

definition shown_secret :: "response \<Rightarrow> string option" where
  "shown_secret resp =
     (case body resp of
        JsonBody (JObj ms) \<Rightarrow> (case map_of ms ''secret_key'' of Some (JStr s) \<Rightarrow> Some s | _ \<Rightarrow> None)
      | _ \<Rightarrow> None)"

lemma shown_secret_none [simp]:
  "shown_secret (auth_writeError err) = None" "shown_secret (auth_refused st m) = None" "shown_secret auth_unauthorized = None"
  "shown_secret (write_header st) = None" "shown_secret auth_healthz = None" "shown_secret (auth_healthzReady ctx) = None"
  "shown_secret (write_json st (userResponse_json u)) = None" "shown_secret (write_json st (loginResponse_json a b)) = None"
  "shown_secret (write_json st (refreshResponse_json a)) = None"
  by (simp_all add: shown_secret_def auth_writeError_def auth_refused_def auth_unauthorized_def auth_healthz_def
      auth_healthzReady_def error_json_def status_ok_json_def unavailable_json_def userResponse_json_def
      loginResponse_json_def refreshResponse_json_def split: option.split)

lemma shown_secret_some [simp]:
  "shown_secret (write_json st (credentialIssuedResponse_json c)) = Some (utf8_fix (isSecretKey c))"
  "shown_secret (write_json st (lookupResponse_json x)) = Some (utf8_fix (luSecretKey x))"
  by (simp_all add: shown_secret_def credentialIssuedResponse_json_def lookupResponse_json_def jstr_def)

lemma requireSelfOrAdmin_no_secret: "requireSelfOrAdmin ctx i = Some resp \<Longrightarrow> shown_secret resp = None"
  by (auto simp: requireSelfOrAdmin_def split: option.splits if_splits)

text \<open>Two requests show a secret: the one that issues the credential, and the internal lookup.\<close>

definition may_show ::
    "auth_config \<Rightarrow> 'd bolt \<Rightarrow> auth_env \<Rightarrow> header \<Rightarrow> auth_request \<Rightarrow> 'd \<Rightarrow> 'd \<Rightarrow> string \<Rightarrow> bool" where
  "may_show cfg B e h r d d' s \<longleftrightarrow>
     (\<exists>i p c. r = UCreateCredential i \<and> requireAuth cfg e h = Inr p \<and> (apIsAdmin p \<or> apUserID p = i)
        \<and> cdUserID c = i \<and> stored_credential B d (cdAccessKey c) = None \<and> stored_credential B d' (cdAccessKey c) = Some c
        \<and> decrypt (ag_master cfg) (cdSecretKeyEncrypted c) = Inr s)
     \<or> (\<exists>k c. r = ULookup k \<and> header_get h ''X-Internal-Token'' = ag_token cfg \<and> ag_token cfg \<noteq> []
        \<and> stored_credential B d k = Some c \<and> cdRevokedAt c = None
        \<and> decrypt (ag_master cfg) (cdSecretKeyEncrypted c) = Inr s)"

context auth_deployment
begin

abbreviation (input) "UR \<equiv> BoltUserRepository B"
abbreviation (input) "CR \<equiv> BoltCredentialRepository B"

lemma createUser_effect:
  assumes ok: "auth_ok cfg B d" and e: "auth_env_ok e" and run: "a_createUser cfg UR e bdy d = (resp, d')"
  shows "auth_ok cfg B d' \<and> (400 \<le> status resp \<and> d' = d \<or> status resp = StatusCreated \<and> user_added B d d')"
proof (cases "decode_body createUserRequest_fields True \<lparr>cuUsername = [], cuPassword = []\<rparr> bdy")
  case (Inl err)
  with run ok show ?thesis by (auto simp: a_createUser_def auth_statuses)
next
  case (Inr req)
  obtain res d1 where r: "Register (ag_bcrypt cfg) UR e (cuUsername req) (cuPassword req) d = (res, d1)" by fastforce
  from ok have a: "auth_inv B d" "secrets_ok (ag_master cfg) (stored_user B d) (stored_credential B d)"
    "no_admins (stored_user B d)" by (simp_all add: auth_ok_def)
  from svc.Register_keeps[OF a(1) e a(2,3) r] have ok': "auth_ok cfg B d1" by (simp add: auth_ok_def)
  show ?thesis
  proof (cases res)
    case (Inl err)
    with svc.Register_error r have "d1 = d" by blast
    with run Inr r Inl ok show ?thesis by (auto simp: a_createUser_def auth_statuses)
  next
    case (Inr u)
    from svc.Register_Inr[OF a(1) e r[unfolded Inr]] have "user_added B d d1"
      unfolding user_added_def by (intro conjI exI[of _ u]) auto
    with run \<open>_ = Inr req\<close> r Inr ok' show ?thesis by (auto simp: a_createUser_def)
  qed
qed

lemma createCredential_effect:
  assumes ok: "auth_ok cfg B d" and e: "auth_env_ok e" and run: "a_createCredential cfg UR CR e (Some p) i d = (resp, d')"
  shows "auth_ok cfg B d' \<and> (400 \<le> status resp \<and> d' = d
    \<or> status resp = StatusCreated \<and> (apIsAdmin p \<or> apUserID p = i) \<and> credential_issued B i d d')"
proof (cases "requireSelfOrAdmin (Some p) i")
  case (Some r)
  with run ok show ?thesis by (auto simp: a_createCredential_def dest: requireSelfOrAdmin_status)
next
  case None
  obtain res d1 where r: "IssueCredential (ag_master cfg) UR CR e i d = (res, d1)" by fastforce
  from ok e have a: "auth_inv B d" "rand_ok e" "secrets_ok (ag_master cfg) (stored_user B d) (stored_credential B d)"
    "no_admins (stored_user B d)" by (simp_all add: auth_ok_def auth_env_ok_def)
  from svc.IssueCredential_keeps[OF a r] have ok': "auth_ok cfg B d1" by (simp add: auth_ok_def)
  show ?thesis
  proof (cases res)
    case (Inl err)
    with svc.IssueCredential_error r have "d1 = d" by blast
    with run None r Inl ok show ?thesis by (auto simp: a_createCredential_def auth_statuses)
  next
    case (Inr x)
    from svc.IssueCredential_Inr[OF a(1,2) r[unfolded Inr]] obtain enc u where
      "stored_user B d i = Some u" "stored_credential B d (isAccessKey x) = None" "stored_user B d1 = stored_user B d"
      "stored_credential B d1 = (stored_credential B d)(isAccessKey x \<mapsto>
        \<lparr>cdAccessKey = isAccessKey x, cdUserID = i, cdSecretKeyEncrypted = enc, cdCreatedAt = isCreatedAt x, cdRevokedAt = None\<rparr>)"
      by blast
    then have "credential_issued B i d d1" unfolding credential_issued_def
      by (intro conjI exI[of _ "\<lparr>cdAccessKey = isAccessKey x, cdUserID = i, cdSecretKeyEncrypted = enc,
          cdCreatedAt = isCreatedAt x, cdRevokedAt = None\<rparr>"]) simp_all
    with run None r Inr ok' show ?thesis by (auto simp: a_createCredential_def requireSelfOrAdmin_None)
  qed
qed

lemma revoke_effect:
  assumes ok: "auth_ok cfg B d" and run: "a_revoke CR e k d = (resp, d')"
  shows "auth_ok cfg B d' \<and> (400 \<le> status resp \<and> d' = d \<or> status resp = StatusNoContent \<and> credential_revoked B k d d')"
proof -
  obtain res d1 where r: "RevokeCredential CR e k d = (res, d1)" by fastforce
  from ok have a: "auth_inv B d" "secrets_ok (ag_master cfg) (stored_user B d) (stored_credential B d)"
    "no_admins (stored_user B d)" by (simp_all add: auth_ok_def)
  from svc.RevokeCredential_keeps[OF a r] have ok': "auth_ok cfg B d1" by (simp add: auth_ok_def)
  show ?thesis
  proof (cases res)
    case (Inl err)
    with svc.RevokeCredential_error r have "d1 = d" by blast
    with run r Inl ok show ?thesis by (auto simp: a_revoke_def auth_statuses)
  next
    case (Inr x)
    from svc.RevokeCredential_Inr[OF a(1) r[unfolded Inr]] have "credential_revoked B k d d1"
      unfolding credential_revoked_def by blast
    with run r Inr ok' show ?thesis by (auto simp: a_revoke_def)
  qed
qed

lemma revokeCredential_effect:
  assumes ok: "auth_ok cfg B d" and run: "a_revokeCredential CR e (Some p) k d = (resp, d')"
  shows "auth_ok cfg B d' \<and> (400 \<le> status resp \<and> d' = d
    \<or> status resp = StatusNoContent \<and> (apIsAdmin p \<or> owner_of B d k = Some (apUserID p)) \<and> credential_revoked B k d d')"
proof (cases "apIsAdmin p")
  case True
  with run revoke_effect[OF ok, of e k resp d'] show ?thesis by (auto simp: a_revokeCredential_def)
next
  case False
  from ok have a: "auth_inv B d" by (simp add: auth_ok_def)
  show ?thesis
  proof (cases "GetCredentialOwner CR k d")
    case (Inl err)
    with False run ok show ?thesis by (auto simp: a_revokeCredential_def auth_statuses)
  next
    case (Inr i)
    with svc.GetCredentialOwner_Inr[OF a, of k i] have "owner_of B d k = Some i" by (auto simp: owner_of_def)
    with False Inr run ok revoke_effect[OF ok, of e k resp d'] show ?thesis
      by (auto simp: a_revokeCredential_def auth_statuses split: if_splits)
  qed
qed

lemma auth_serve_effect:
  assumes "auth_ok cfg B d" and "auth_env_ok e" and "auth_serve cfg B e h r d = (resp, d')"
  shows "auth_ok cfg B d' \<and> auth_effect cfg B e h r d d' \<and> (400 \<le> status resp \<longrightarrow> d' = d)"
proof (cases r)
  case (UCreateUser bdy)
  with createUser_effect[OF assms(1,2), of bdy resp d'] assms show ?thesis by (auto simp: auth_effect_def)
next
  case (UCreateCredential i)
  show ?thesis
  proof (cases "requireAuth cfg e h")
    case (Inl x)
    with UCreateCredential assms show ?thesis by (auto simp: authenticated_def auth_effect_def)
  next
    case (Inr p)
    with UCreateCredential assms createCredential_effect[OF assms(1,2), of p i resp d'] show ?thesis
      by (auto simp: authenticated_def auth_effect_def)
  qed
next
  case (URevokeCredential k)
  show ?thesis
  proof (cases "requireAuth cfg e h")
    case (Inl x)
    with URevokeCredential assms show ?thesis by (auto simp: authenticated_def auth_effect_def)
  next
    case (Inr p)
    with URevokeCredential assms revokeCredential_effect[OF assms(1), of e p k resp d'] show ?thesis
      by (auto simp: authenticated_def auth_effect_def)
  qed
qed (use assms in \<open>auto simp: auth_effect_def authenticated_def split: sum.splits\<close>)

lemma createCredential_shows:
  assumes ok: "auth_ok cfg B d" and e: "auth_env_ok e" and run: "a_createCredential cfg UR CR e (Some p) i d = (resp, d')"
    and s: "shown_secret resp = Some s"
  shows "(apIsAdmin p \<or> apUserID p = i) \<and> (\<exists>c. cdUserID c = i \<and> stored_credential B d (cdAccessKey c) = None
    \<and> stored_credential B d' (cdAccessKey c) = Some c \<and> decrypt (ag_master cfg) (cdSecretKeyEncrypted c) = Inr s)"
proof -
  from run s obtain x where p: "apIsAdmin p \<or> apUserID p = i" and r: "IssueCredential (ag_master cfg) UR CR e i d = (Inr x, d')"
    and x: "s = utf8_fix (isSecretKey x)"
    by (auto simp: a_createCredential_def requireSelfOrAdmin_None dest: requireSelfOrAdmin_no_secret
        split: option.splits prod.splits sum.splits)
  from ok e have "auth_inv B d" "rand_ok e" by (simp_all add: auth_ok_def auth_env_ok_def)
  from svc.IssueCredential_Inr[OF this r] obtain b enc where c: "isSecretKey x = b64_encode b"
    "decrypt (ag_master cfg) enc = Inr (isSecretKey x)" "stored_credential B d (isAccessKey x) = None"
    "stored_credential B d' = (stored_credential B d)(isAccessKey x \<mapsto>
      \<lparr>cdAccessKey = isAccessKey x, cdUserID = i, cdSecretKeyEncrypted = enc, cdCreatedAt = isCreatedAt x, cdRevokedAt = None\<rparr>)"
    by blast
  from c(1) x have "s = isSecretKey x" by simp
  with p c show ?thesis
    by (intro conjI exI[of _ "\<lparr>cdAccessKey = isAccessKey x, cdUserID = i, cdSecretKeyEncrypted = enc,
        cdCreatedAt = isCreatedAt x, cdRevokedAt = None\<rparr>"]) simp_all
qed

lemma lookup_shows:
  assumes ok: "auth_ok cfg B d" and "shown_secret (internal_only cfg h (a_lookup cfg CR k d)) = Some s"
  shows "header_get h ''X-Internal-Token'' = ag_token cfg \<and> ag_token cfg \<noteq> []
    \<and> (\<exists>c. stored_credential B d k = Some c \<and> cdRevokedAt c = None \<and> decrypt (ag_master cfg) (cdSecretKeyEncrypted c) = Inr s)"
proof -
  from assms(2) have t: "header_get h ''X-Internal-Token'' = ag_token cfg" "ag_token cfg \<noteq> []"
    "shown_secret (a_lookup cfg CR k d) = Some s"
    by (auto simp: internal_only_def internalTokenAuth_def Let_def split: if_splits)
  from t(3) obtain x where x: "LookupCredential (ag_master cfg) CR k d = Inr x" "s = utf8_fix (luSecretKey x)"
    by (auto simp: a_lookup_def split: sum.splits)
  from ok have a: "auth_inv B d" "secrets_ok (ag_master cfg) (stored_user B d) (stored_credential B d)" by (simp_all add: auth_ok_def)
  from svc.LookupCredential_Inr[OF a(1) x(1)] obtain c where c: "stored_credential B d k = Some c" "cdRevokedAt c = None"
    "decrypt (ag_master cfg) (cdSecretKeyEncrypted c) = Inr (luSecretKey x)" by blast
  from secrets_okD(3)[OF a(2) c(1)] c(3) x(2) have "s = luSecretKey x" by auto
  with t c show ?thesis by blast
qed

lemma auth_serve_shows:
  assumes "auth_ok cfg B d" and "auth_env_ok e" and "auth_serve cfg B e h r d = (resp, d')" and "shown_secret resp = Some s"
  shows "may_show cfg B e h r d d' s"
proof (cases r)
  case (UCreateCredential i)
  show ?thesis
  proof (cases "requireAuth cfg e h")
    case (Inl x)
    with UCreateCredential assms(3,4) requireAuth_Inl[OF Inl] show ?thesis by (auto simp: authenticated_def)
  next
    case (Inr p)
    with UCreateCredential assms(3) have "a_createCredential cfg UR CR e (Some p) i d = (resp, d')" by (simp add: authenticated_def)
    from createCredential_shows[OF assms(1,2) this assms(4)] UCreateCredential Inr show ?thesis
      unfolding may_show_def by blast
  qed
next
  case (ULookup k)
  with assms(3,4) have "shown_secret (internal_only cfg h (a_lookup cfg CR k d)) = Some s" by auto
  from lookup_shows[OF assms(1) this] ULookup show ?thesis unfolding may_show_def by blast
next
  case (UGetUser i)
  with assms(3,4) show ?thesis
    by (auto simp: authenticated_def a_getUser_def dest: requireSelfOrAdmin_no_secret requireAuth_Inl
        split: sum.splits option.splits)
next
  case (URevokeCredential k)
  with assms(3,4) show ?thesis
    by (auto simp: authenticated_def a_revokeCredential_def a_revoke_def dest: requireAuth_Inl
        split: sum.splits prod.splits if_splits)
next
  case (UCreateUser bdy)
  with assms(3,4) show ?thesis by (auto simp: a_createUser_def split: sum.splits prod.splits)
next
  case (ULogin bdy)
  with assms(3,4) show ?thesis by (auto simp: a_login_def split: sum.splits)
next
  case (URefresh bdy)
  with assms(3,4) show ?thesis by (auto simp: a_refresh_def split: sum.splits)
qed (use assms(3,4) in auto)

lemma user_added_evolves: "user_added B d d' \<Longrightarrow> auth_evolves B d d'"
  by (auto simp: user_added_def auth_evolves_def map_le_def)

lemma credential_issued_evolves: "credential_issued B i d d' \<Longrightarrow> auth_evolves B d d'"
  by (auto simp: credential_issued_def auth_evolves_def map_le_def)

lemma credential_revoked_evolves: "credential_revoked B k d d' \<Longrightarrow> auth_evolves B d d'"
proof -
  assume "credential_revoked B k d d'"
  then obtain c t where c: "stored_user B d' = stored_user B d" "stored_credential B d k = Some c" "cdRevokedAt c = None"
    "stored_credential B d' = (stored_credential B d)(k \<mapsto> c\<lparr>cdRevokedAt := Some t\<rparr>)"
    by (auto simp: credential_revoked_def)
  have "\<exists>c'. stored_credential B d' l = Some c' \<and> credential_evolves b c'" if "stored_credential B d l = Some b" for l b
  proof (cases "l = k")
    case True
    with that c have "credential_evolves b (b\<lparr>cdRevokedAt := Some t\<rparr>)" unfolding credential_evolves_def by auto
    with True that c show ?thesis by auto
  next
    case False
    with that c show ?thesis by simp
  qed
  with c(1) show ?thesis by (simp add: auth_evolves_def)
qed

lemma auth_effect_evolves: "auth_effect cfg B e h r d d' \<Longrightarrow> auth_evolves B d d'"
  unfolding auth_effect_def
  by (auto intro: user_added_evolves credential_issued_evolves credential_revoked_evolves)

lemma auth_open_ok:
  assumes "auth_ok cfg B d \<or> (\<forall>b k. bget B d b k = None)" and "auth_open B path mkdir (Inr d) = Inr d'"
  shows "auth_ok cfg B d' \<and> auth_evolves B d d'"
proof -
  from assms(1) have "auth_inv B d \<or> (\<forall>b k. bget B d b k = None)" by (auto simp: auth_ok_def)
  from auth_bootstrap_inv[OF auth_open_bootstrap[OF assms(2)] this]
  have i: "auth_inv B d'" "stored_user B d' = stored_user B d" "stored_credential B d' = stored_credential B d" by blast+
  have "secrets_ok (ag_master cfg) (stored_user B d) (stored_credential B d) \<and> no_admins (stored_user B d)"
    using assms(1)
    by (auto simp: auth_ok_def secrets_ok_def no_admins_def stored_user_def stored_credential_def)
  with i show ?thesis by (simp add: auth_ok_def auth_evolves_same)
qed

lemma auth_step_ok: "auth_step cfg B d d' \<Longrightarrow> auth_ok cfg B d \<Longrightarrow> auth_ok cfg B d' \<and> auth_evolves B d d'"
proof (induction rule: auth_step.induct)
  case (served e h r d resp d')
  with auth_serve_effect[OF served(3,1,2)] show ?case by (blast intro: auth_effect_evolves)
next
  case (reopened path mkdir d d')
  then show ?case by (intro auth_open_ok) auto
qed

lemma auth_steps_ok: "(auth_step cfg B)\<^sup>*\<^sup>* d d' \<Longrightarrow> auth_ok cfg B d \<Longrightarrow> auth_ok cfg B d' \<and> auth_evolves B d d'"
  by (induction rule: rtranclp_induct) (auto dest: auth_step_ok intro: auth_evolves_trans)

lemma auth_reachable_ok: "auth_reachable cfg B d \<Longrightarrow> auth_ok cfg B d"
proof (induction rule: auth_reachable.induct)
  case (created d0 path mkdir d)
  then show ?case using auth_open_ok by blast
next
  case (stepped d d')
  then show ?case using auth_step_ok by blast
qed

end

section \<open>Sessions\<close>

lemma steps_user:
  assumes "auth_evolves B d d'" and "stored_user B d i = Some u"
  shows "stored_user B d' i = Some u"
  using assms by (force simp: auth_evolves_def map_le_def)

context auth_deployment
begin

text \<open>From the registration on, a login and what follows from it.\<close>

lemma registered_user:
  assumes ok: "auth_ok cfg B d0" and e: "auth_env_ok e0"
    and reg: "Register (ag_bcrypt cfg) UR e0 n pw d0 = (Inr u, d1)" and steps: "(auth_step cfg B)\<^sup>*\<^sup>* d1 d"
  shows "auth_inv B d \<and> stored_user B d (uID u) = Some u \<and> uUsername u = n \<and> n \<noteq> [] \<and> pw \<noteq> [] \<and> \<not> uIsAdmin u
    \<and> bc_compare (ag_bcrypt cfg) (uPasswordHash u) pw = None \<and> utf8_user u"
proof -
  from ok have a: "auth_inv B d0" "secrets_ok (ag_master cfg) (stored_user B d0) (stored_credential B d0)"
    "no_admins (stored_user B d0)" by (simp_all add: auth_ok_def)
  note r = svc.Register_Inr[OF a(1) e reg]
  from svc.Register_keeps[OF a(1) e a(2,3) reg] have "auth_ok cfg B d1" by (simp add: auth_ok_def)
  from auth_steps_ok[OF steps this] have inv: "auth_inv B d" and ev: "auth_evolves B d1 d" by (simp_all add: auth_ok_def)
  have u: "stored_user B d (uID u) = Some u" using steps_user[OF ev] r by simp
  from accounts.users_id[OF inv u] have "utf8_user u" by simp
  moreover have "n \<noteq> []" "pw \<noteq> []" using r username_nonempty by auto
  ultimately show ?thesis using inv u r by simp
qed

lemma login_lifecycle:
  assumes "auth_ok cfg B d0" and "auth_env_ok e0"
    and "Register (ag_bcrypt cfg) UR e0 n pw d0 = (Inr u, d1)" and "(auth_step cfg B)\<^sup>*\<^sup>* d1 d"
  shows "\<exists>a r. Login (ag_jwt cfg) (ag_bcrypt cfg) (ag_secret cfg) UR e n pw d = Inr (a, r)
    \<and> (\<forall>now < jw_date (ag_jwt cfg) (ae_now e 1 + accessTokenTTL).
         VerifyAccessToken (ag_jwt cfg) (ag_secret cfg) now a = Inr \<lparr>apUserID = uID u, apIsAdmin = False\<rparr>)
    \<and> (\<forall>f. ae_now f 1 < jw_date (ag_jwt cfg) (ae_now e 2 + refreshTokenTTL) \<longrightarrow>
         (\<exists>b. Refresh (ag_jwt cfg) (ag_secret cfg) UR f r d = Inr b
            \<and> (\<forall>now < jw_date (ag_jwt cfg) (ae_now f 2 + accessTokenTTL).
                 VerifyAccessToken (ag_jwt cfg) (ag_secret cfg) now b = Inr \<lparr>apUserID = uID u, apIsAdmin = False\<rparr>)))
    \<and> (\<forall>now p. VerifyAccessToken (ag_jwt cfg) (ag_secret cfg) now r \<noteq> Inr p)
    \<and> (\<forall>f b. Refresh (ag_jwt cfg) (ag_secret cfg) UR f a d \<noteq> Inr b)"
proof -
  note r = registered_user[OF assms]
  then have inv: "auth_inv B d" and u: "stored_user B d (uID u) = Some u" and utf: "utf8_user u" by simp_all
  obtain a rt where l: "Login (ag_jwt cfg) (ag_bcrypt cfg) (ag_secret cfg) UR e n pw d = Inr (a, rt)"
    "mintAccessToken (ag_jwt cfg) (ag_secret cfg) (ae_now e 1) u = Inr a"
    "mintRefreshToken (ag_jwt cfg) (ag_secret cfg) (ae_now e 2) u = Inr rt"
    using svc.Login_user[OF inv u, of pw "ag_secret cfg" e] r by metis
  have v: "VerifyAccessToken (ag_jwt cfg) (ag_secret cfg) now b = Inr \<lparr>apUserID = uID u, apIsAdmin = False\<rparr>"
    if "mintAccessToken (ag_jwt cfg) (ag_secret cfg) t u = Inr b" "now < jw_date (ag_jwt cfg) (t + accessTokenTTL)" for t b now
    using svc.Verify_access[OF inv u that] r by simp
  have rf: "\<exists>b. Refresh (ag_jwt cfg) (ag_secret cfg) UR f rt d = Inr b \<and> mintAccessToken (ag_jwt cfg) (ag_secret cfg) (ae_now f 2) u = Inr b"
    if "ae_now f 1 < jw_date (ag_jwt cfg) (ae_now e 2 + refreshTokenTTL)" for f
    using svc.Refresh_user[OF inv u utf refl l(3) that] mint_total(1)[of "ag_secret cfg" "ae_now f 2" u] by auto
  have "VerifyAccessToken (ag_jwt cfg) (ag_secret cfg) now rt \<noteq> Inr p" for now p
    using parse_other_type[OF utf l(3)] by (auto simp: VerifyAccessToken_def split: sum.splits)
  then have h4: "\<forall>now p. VerifyAccessToken (ag_jwt cfg) (ag_secret cfg) now rt \<noteq> Inr p" by blast
  have "Refresh (ag_jwt cfg) (ag_secret cfg) UR f a d \<noteq> Inr b" for f b
    using parse_access_type[OF utf l(2)] by (auto simp: Refresh_def split: sum.splits if_splits)
  then have h5: "\<forall>f b. Refresh (ag_jwt cfg) (ag_secret cfg) UR f a d \<noteq> Inr b" by blast
  have h2: "\<forall>now < jw_date (ag_jwt cfg) (ae_now e 1 + accessTokenTTL).
      VerifyAccessToken (ag_jwt cfg) (ag_secret cfg) now a = Inr \<lparr>apUserID = uID u, apIsAdmin = False\<rparr>"
    using v[OF l(2)] by blast
  have "\<exists>b. Refresh (ag_jwt cfg) (ag_secret cfg) UR f rt d = Inr b
      \<and> (\<forall>now < jw_date (ag_jwt cfg) (ae_now f 2 + accessTokenTTL).
           VerifyAccessToken (ag_jwt cfg) (ag_secret cfg) now b = Inr \<lparr>apUserID = uID u, apIsAdmin = False\<rparr>)"
    if "ae_now f 1 < jw_date (ag_jwt cfg) (ae_now e 2 + refreshTokenTTL)" for f
    using rf[OF that] v by blast
  with l(1) h2 h4 h5 show ?thesis by (intro exI[of _ a] exI[of _ rt] conjI) simp_all
qed

lemma access_checked:
  assumes "VerifyAccessToken (ag_jwt cfg) (ag_secret cfg) now tok = Inr p"
  shows "hs256_signed (ag_secret cfg) tok
      \<and> (\<exists>c x. jwt_parse (ag_jwt cfg) (ag_secret cfg) now tok tokenTypeAccess = Inr c \<and> tkType c = tokenTypeAccess
           \<and> tkExpiresAt c = Some x \<and> now < x \<and> p = \<lparr>apUserID = tkSubject c, apIsAdmin = tkIsAdmin c\<rparr>)"
  using svc.Verify_access_Inr[OF assms] by auto

lemma refresh_checked:
  assumes ok: "auth_ok cfg B d" and run: "Refresh (ag_jwt cfg) (ag_secret cfg) UR e tok d = Inr b"
  shows "hs256_signed (ag_secret cfg) tok
      \<and> (\<exists>c x u. jwt_parse (ag_jwt cfg) (ag_secret cfg) (ae_now e 1) tok tokenTypeRefresh = Inr c
           \<and> tkType c = tokenTypeRefresh \<and> tkExpiresAt c = Some x \<and> ae_now e 1 < x
           \<and> stored_user B d (tkSubject c) = Some u
           \<and> jw_sign (ag_jwt cfg) (ag_secret cfg) (access_claims (ag_jwt cfg) (ae_now e 2) u) = Inr b)"
proof -
  from ok have inv: "auth_inv B d" by (simp add: auth_ok_def)
  from svc.Refresh_Inr[OF inv run] obtain c u where c: "jwt_parse (ag_jwt cfg) (ag_secret cfg) (ae_now e 1) tok tokenTypeRefresh = Inr c"
    "stored_user B d (tkSubject c) = Some u" "mintAccessToken (ag_jwt cfg) (ag_secret cfg) (ae_now e 2) u = Inr b" by blast
  from jwt_parse_Inr[OF c(1)] c show ?thesis by (auto simp: mintAccessToken_def)
qed

end

end
