(* ===== verification/Auth_Total.thy ===== *)
theory Auth_Total
  imports Auth_Runs
begin

text \<open>
  When the operations of auth-service succeed: on a store that does not fail and with random bytes at
  hand, registration and the issue of credentials give their result.
\<close>

definition auth_env_calm :: "auth_env \<Rightarrow> bool" where
  "auth_env_calm e \<longleftrightarrow> auth_env_ok e \<and> length (ae_uuid e) \<le> max_key_size \<and> (\<forall>i n. \<exists>b. ae_rand e i n = Inr b)"

lemma auth_env_calm_ok: "auth_env_calm e \<Longrightarrow> auth_env_ok e"
  by (simp add: auth_env_calm_def)

lemma generateAccessKey_total: "auth_env_calm e \<Longrightarrow> \<exists>k. generateAccessKey e i = Inr k"
proof -
  assume "auth_env_calm e"
  then obtain b where "ae_rand e i accessKeyRandLength = Inr b" by (auto simp: auth_env_calm_def)
  then show ?thesis by (simp add: generateAccessKey_def randomStringFromAlphabet_def)
qed

lemma access_key_fits: "access_key_form k \<Longrightarrow> key_ok k"
  by (auto simp: access_key_form_def key_ok_def max_key_size_def)

locale auth_services_total = auth_services + auth_store_total
begin

lemma Register_total:
  assumes "inv d" and e: "auth_env_calm e" and "re_match usernameRE n" "8 \<le> length pw" "length pw \<le> 72"
    and "users d (ae_uuid e) = None" and "\<And>i v. users d i = Some v \<Longrightarrow> uUsername v \<noteq> n"
  shows "\<exists>u d'. Register Bc UR e n pw d = (Inr u, d')"
proof -
  obtain h where h: "bc_generate Bc (ae_salt e) pw = Inr h" using generate_total[OF assms(5)] by blast
  let ?u = "\<lparr>uID = ae_uuid e, uUsername = n, uPasswordHash = h, uIsAdmin = False, uCreatedAt = 0\<rparr>"
  from assms(3) have "user_fits ?u" using e username_chars[of n]
    by (auto simp: user_fits_def auth_env_calm_def auth_env_ok_def key_ok_def max_key_size_def username_no_nul)
  from ucreate_total[OF assms(1) this, of "ae_now e 1"] assms(6,7) h assms(3-5) show ?thesis
    by (simp add: Register_def minPasswordLength_def maxPasswordLength_def del: One_nat_def)
qed

lemma issue_loop_total:
  assumes "inv d" and e: "auth_env_calm e" and "n \<le> j" "j < maxAccessKeyRetries"
    and "generateAccessKey e (2 + j) = Inr k" "creds d k = None"
  shows "\<exists>c d'. issue_loop CR e i enc n d = (Inr c, d')"
  using assms(3)
proof (induction "j - n" arbitrary: n)
  case 0
  then have n: "n = j" by simp
  from e have "rand_ok e" by (simp add: auth_env_calm_def auth_env_ok_def)
  from generateAccessKey_form[OF this assms(5)] have k: "no_nul k" "key_ok k"
    using access_key_facts access_key_fits by blast+
  from ccreate_total[OF assms(1), of "\<lparr>cdAccessKey = k, cdUserID = i, cdSecretKeyEncrypted = enc, cdCreatedAt = 0, cdRevokedAt = None\<rparr>"
      "ae_now e (1 + j)"] k assms(6)
  obtain c d' where "cr_create CR (ae_now e (1 + j))
      \<lparr>cdAccessKey = k, cdUserID = i, cdSecretKeyEncrypted = enc, cdCreatedAt = 0, cdRevokedAt = None\<rparr> d = (Inr c, d')"
    by auto
  with n assms(5) show ?case by (subst issue_loop.simps) simp
next
  case (Suc m)
  obtain k1 where k1: "generateAccessKey e (2 + n) = Inr k1" using generateAccessKey_total[OF e] by blast
  let ?c = "\<lparr>cdAccessKey = k1, cdUserID = i, cdSecretKeyEncrypted = enc, cdCreatedAt = 0, cdRevokedAt = None\<rparr>"
  from Suc have m: "m = j - Suc n" "Suc n \<le> j" by simp_all
  show ?case
  proof (cases "creds d k1")
    case None
    from e have "rand_ok e" by (simp add: auth_env_calm_def auth_env_ok_def)
    from generateAccessKey_form[OF this k1] have "no_nul k1" "key_ok k1"
      using access_key_facts access_key_fits by blast+
    with ccreate_total[OF assms(1), of ?c "ae_now e (1 + n)"] None
    obtain c d' where "cr_create CR (ae_now e (1 + n)) ?c d = (Inr c, d')" by auto
    with k1 show ?thesis by (subst issue_loop.simps) simp
  next
    case (Some c)
    with ccreate_taken[OF assms(1), of ?c "ae_now e (1 + n)"]
    have "cr_create CR (ae_now e (1 + n)) ?c d = (Inl (Sentinel ErrAlreadyExists), d)" by simp
    with Suc.hyps(1)[OF m] k1 assms(4) m(2) show ?thesis by (subst issue_loop.simps) simp
  qed
qed

lemma IssueCredential_total:
  assumes "inv d" and e: "auth_env_calm e" and "aes_key_ok mk" and "users d i = Some u" "i \<noteq> []"
    and "j < maxAccessKeyRetries" "generateAccessKey e (2 + j) = Inr k" "creds d k = None"
  shows "\<exists>x d'. IssueCredential mk UR CR e i d = (Inr x, d')"
proof -
  from uget_id[OF assms(1)] assms(4) have g: "ur_get_id UR i d = Inr u" by simp
  from e obtain b nonce where r: "ae_rand e 0 secretKeyByteLength = Inr b" "ae_rand e 1 gcmNonceSize = Inr nonce"
    unfolding auth_env_calm_def by blast
  obtain enc where enc: "encrypt mk e 1 (b64_encode b) = Inr enc"
    using r(2) assms(3) by (simp add: encrypt_def cs_gcm_def del: One_nat_def)
  from issue_loop_total[OF assms(1) e _ assms(6-8), of 0 i enc]
  obtain c d' where "issue_loop CR e i enc 0 d = (Inr c, d')" by auto
  with g r enc assms(5) show ?thesis by (simp add: IssueCredential_def generateSecretKey_def del: One_nat_def)
qed

text \<open>Issuing fails for want of a free key, and for nothing else; else the first free key is taken.\<close>

lemma IssueCredential_outcome:
  assumes inv: "inv d" and e: "auth_env_calm e" and mk: "aes_key_ok mk" and u: "users d i = Some u" and i: "i \<noteq> []"
  shows "if \<exists>j < maxAccessKeyRetries. \<exists>k. generateAccessKey e (2 + j) = Inr k \<and> creds d k = None
    then \<exists>x d' m. IssueCredential mk UR CR e i d = (Inr x, d') \<and> m < maxAccessKeyRetries
        \<and> generateAccessKey e (2 + m) = Inr (isAccessKey x) \<and> creds d (isAccessKey x) = None
        \<and> (\<forall>j < m. \<exists>k. generateAccessKey e (2 + j) = Inr k \<and> creds d k \<noteq> None)
    else IssueCredential mk UR CR e i d = (Inl (Sentinel ErrAlreadyExists), d)"
proof -
  from uget_id[OF inv] u have g: "ur_get_id UR i d = Inr u" by simp
  from e obtain b nonce where r: "ae_rand e 0 secretKeyByteLength = Inr b" "ae_rand e 1 gcmNonceSize = Inr nonce"
    unfolding auth_env_calm_def by blast
  obtain enc where enc: "encrypt mk e 1 (b64_encode b) = Inr enc"
    using r(2) mk by (simp add: encrypt_def cs_gcm_def del: One_nat_def)
  have run: "IssueCredential mk UR CR e i d = (case issue_loop CR e i enc 0 d of (Inl err, d') \<Rightarrow> (Inl err, d')
      | (Inr c, d') \<Rightarrow> (Inr \<lparr>isAccessKey = cdAccessKey c, isSecretKey = b64_encode b, isUserID = i, isCreatedAt = cdCreatedAt c\<rparr>, d'))"
    using g r enc i by (simp add: IssueCredential_def generateSecretKey_def del: One_nat_def)
  show ?thesis
  proof (cases "\<exists>j < maxAccessKeyRetries. \<exists>k. generateAccessKey e (2 + j) = Inr k \<and> creds d k = None")
    case True
    then obtain j k where "j < maxAccessKeyRetries" "generateAccessKey e (2 + j) = Inr k" "creds d k = None" by blast
    from issue_loop_total[OF inv e _ this, of 0 i enc] obtain c d' where l: "issue_loop CR e i enc 0 d = (Inr c, d')" by auto
    from e have "rand_ok e" by (simp add: auth_env_calm_def auth_env_ok_def)
    moreover from users_id[OF inv u] have "valid_utf8 i" by (auto simp: utf8_user_def)
    ultimately obtain m where "m < max (Suc 0) maxAccessKeyRetries"
      "\<forall>j. 0 \<le> j \<longrightarrow> j < m \<longrightarrow> (\<exists>k. generateAccessKey e (2 + j) = Inr k \<and> creds d k \<noteq> None)"
      "generateAccessKey e (2 + m) = Inr (cdAccessKey c)" "creds d (cdAccessKey c) = None"
      using issue_loop_Inr[OF inv _ _ encrypt_utf8[OF enc] l] by blast
    with True run l show ?thesis by (simp add: maxAccessKeyRetries_def) blast
  next
    case False
    have "\<exists>k. generateAccessKey e (2 + j) = Inr k \<and> creds d k \<noteq> None" if "j < maxAccessKeyRetries" for j
      using False that generateAccessKey_total[OF e, of "2 + j"] by blast
    then have "issue_loop CR e i enc 0 d = (Inl (Sentinel ErrAlreadyExists), d)"
      by (intro issue_loop_exhausted[OF inv]) (simp_all add: maxAccessKeyRetries_def)
    with False run show ?thesis by simp
  qed
qed

lemma RevokeCredential_total:
  assumes "inv d" and "creds d k = Some c" "cdRevokedAt c = None" "key_ok k"
  shows "\<exists>d'. RevokeCredential CR e k d = (Inr (), d')"
  using crevoke_total[OF assms] assms(4) by (simp add: RevokeCredential_def key_ok_def)

end

locale roomy_auth = auth_deployment B cfg + bolt_roomy B for B :: "'d bolt" and cfg :: auth_config

sublocale roomy_auth \<subseteq> svc: auth_services_total "BoltUserRepository B" "BoltCredentialRepository B" "auth_inv B"
  "stored_user B" "stored_credential B" "ag_jwt cfg" "ag_bcrypt cfg"
  by unfold_locales

end
