(* ===== verification/Auth_Compose.thy ===== *)
theory Auth_Compose
  imports Auth_Total Api_System
begin

text \<open>
  auth-service behind the auth client of api-service: the internal lookup of a credential over a
  network with faults, and the signature check of api-service on top of it.
\<close>

definition auth_transport ::
    "chi \<Rightarrow> auth_config \<Rightarrow> 'd bolt \<Rightarrow> (http_call \<Rightarrow> fault) \<Rightarrow> auth_env \<Rightarrow> 'd transport" where
  "auth_transport chi cfg B flt e c d = exchange (flt c) (auth_http chi cfg B e c) d"

lemma internal_url_safe: "url_safe ''/internal/credentials/''"
  by (simp add: url_safe_def ctl_def byte_in_def)

lemma internal_header: "header_get [(''X-Internal-Token'', [t])] ''X-Internal-Token'' = t"
proof -
  have "canonical_header ''X-Internal-Token'' = ''X-Internal-Token''" by code_simp
  then show ?thesis by (simp add: header_get_def header_values_def)
qed

lemma auth_writeError_not_ok [simp]: "status (auth_writeError err) \<noteq> StatusOK"
  using auth_statuses(1)[of err] by auto

lemma auth_unauthorized_status [simp]: "status auth_unauthorized = StatusUnauthorized"
  by (simp add: auth_unauthorized_def auth_refused_def)

lemma internal_only_ok:
  "status (internal_only cfg h r) = StatusOK \<longleftrightarrow>
     status r = StatusOK \<and> header_get h ''X-Internal-Token'' = ag_token cfg \<and> ag_token cfg \<noteq> []"
  by (auto simp: internal_only_def internalTokenAuth_def Let_def)

lemma internal_only_token:
  "header_get h ''X-Internal-Token'' = ag_token cfg \<Longrightarrow> ag_token cfg \<noteq> [] \<Longrightarrow> internal_only cfg h r = r"
  by (simp add: internal_only_def internalTokenAuth_def)

lemma access_key_segment: "access_key_form k \<Longrightarrow> segment k"
proof -
  assume k: "access_key_form k"
  then have c: "\<forall>c \<in> set k. access_key_char c" by (simp add: access_key_form_def list_all_iff)
  have "\<not> access_key_char CHR ''/''" by (simp add: access_key_char_def byte_in_def)
  with c have "CHR ''/'' \<notin> set k" by blast
  moreover have "url_safe k" unfolding url_safe_def
    using c by (auto simp: access_key_char_def byte_in_def ctl_def)
  moreover from access_key_facts[OF k] have "k \<noteq> []" by simp
  ultimately show ?thesis by (simp add: segment_def)
qed

context chi_router
begin

lemma auth_route_lookup:
  "segment k \<Longrightarrow> chi auth_routes ''GET'' (''/internal/credentials/'' @ k) = Inr (10, [k])"
  using segmentD[of k] by (auto intro!: chi_hit simp: auth_routes_def segment_pat)

lemma auth_route_internal:
  "chi auth_routes m (''/internal/credentials/'' @ k) = Inr (i, ps) \<Longrightarrow>
     m = ''GET'' \<and> i = 10 \<and> ps = [takeWhile no_slash k] \<and> dropWhile no_slash k = []"
  using chi_sound[of auth_routes m "''/internal/credentials/'' @ k" i ps]
  by (auto simp: auth_routes_def split: if_splits)

text \<open>
  Whatever is put behind the path, an answer of 200 to the client is the lookup of some access key
  with the right token; for an access key that is a segment it is the lookup of that one.
\<close>

lemma auth_http_internal:
  assumes "url_parse (''/internal/credentials/'' @ ak) = Some u"
    and "auth_http chi cfg B e \<lparr>hc_method = ''GET'', hc_url = u, hc_header = h, hc_body = bdy\<rparr> d = (r, d')"
  shows "d' = d \<and> (status r = StatusOK \<longrightarrow>
      (\<exists>k. r = internal_only cfg h (a_lookup cfg (BoltCredentialRepository B) k d)))"
proof -
  from route_path_prefix[OF internal_url_safe _ assms(1)] obtain k where k: "route_path u = ''/internal/credentials/'' @ k"
    by auto
  show ?thesis
  proof (cases "chi auth_routes ''GET'' (route_path u)")
    case (Inl st)
    with chi_status[OF Inl] assms(2) k show ?thesis
      by (auto simp: auth_http_def auth_miss_def internal_only_ok split: if_splits)
  next
    case (Inr ip)
    obtain i ps where ip: "ip = (i, ps)" by fastforce
    from auth_route_internal[of "''GET''" k i ps] Inr ip k have "i = 10" "ps = [takeWhile no_slash k]" by simp_all
    with Inr ip assms(2) show ?thesis by (auto simp: auth_http_def auth_requests_def split: if_splits)
  qed
qed

lemma auth_http_lookup:
  assumes "segment k" and "url_parse (''/internal/credentials/'' @ k) = Some u"
  shows "auth_http chi cfg B e \<lparr>hc_method = ''GET'', hc_url = u, hc_header = h, hc_body = bdy\<rparr> d
    = (internal_only cfg h (a_lookup cfg (BoltCredentialRepository B) k d), d)"
proof -
  have s: "url_safe (''/internal/credentials/'' @ k)" using assms(1) by (simp only: url_safe_append internal_url_safe segmentD)
  from url_parse_safe[OF s] assms(2) have u: "u = \<lparr>u_path = ''/internal/credentials/'' @ k,
      u_rawpath = (if ''/internal/credentials/'' @ k = escape_path (''/internal/credentials/'' @ k) then []
        else ''/internal/credentials/'' @ k), u_query = []\<rparr>" by simp
  have "route_path u = ''/internal/credentials/'' @ k"
    unfolding u by (rule route_path_safe) (use s in \<open>auto dest: url_safe_no(1)\<close>)
  with auth_route_lookup[OF assms(1)] show ?thesis
    by (simp add: auth_http_def u wire_query_ok_def auth_requests_def)
qed

end

lemma segment_url: "segment k \<Longrightarrow> \<exists>u. url_parse (''/internal/credentials/'' @ k) = Some u"
proof -
  assume "segment k"
  then have "url_safe (''/internal/credentials/'' @ k)" by (simp only: url_safe_append internal_url_safe segmentD)
  from url_parse_safe[OF this] show ?thesis by blast
qed

section \<open>The lookup of the client\<close>

definition lookup_answer :: "response \<Rightarrow> client_error + client_credential" where
  "lookup_answer resp =
     (if status resp \<noteq> StatusOK then
        (if status resp = StatusNotFound then Inl (NotFoundError ''access key'')
         else Inl (OtherError ([Lit ''auth-service returned '', Dec (int (status resp)), Lit '': ''] @ error_body resp)))
      else map_sum id (\<lambda>out. \<lparr>ccUserID = icUserID out, ccSecretKey = icSecretKey out\<rparr>)
             (decoded internalCredentialResponse_fields \<lparr>icUserID = [], icSecretKey = []\<rparr> resp))"

locale auth_backend = auth_deployment B cfg + chi_router chi
  for B :: "'d bolt" and cfg :: auth_config and chi :: chi
begin

abbreviation (input) "lookup t flt e \<equiv> AuthClient_LookupCredential t (auth_transport chi cfg B flt e)"

lemma decoded_lookup:
  "decoded internalCredentialResponse_fields \<lparr>icUserID = [], icSecretKey = []\<rparr> (write_json StatusOK (lookupResponse_json x))
     = Inr \<lparr>icUserID = utf8_fix (luUserID x), icSecretKey = utf8_fix (luSecretKey x)\<rparr>"
  by (simp add: decoded_def internalCredentialResponse_fields_def lookupResponse_json_def json_decode_simps)

lemma decoded_nothing: "decoded fs z (r\<lparr>body := NoBody\<rparr>) = Inl (OtherError (error_text syntax_error))"
  by (simp add: decoded_def decode_body_def resp_json_def)

lemma lookup_run:
  "lookup t flt e ak d = returned (send (auth_transport chi cfg B flt e) ''GET'' (''/internal/credentials/'' @ ak)
     [(''X-Internal-Token'', [t])] NoReqBody d) lookup_answer"
  by (simp only: AuthClient_LookupCredential_def lookup_answer_def[abs_def])

lemma lookup_answer_ok:
  assumes "resp = r \<or> (\<exists>n. resp = r\<lparr>body := cut_body n (body r)\<rparr>)" and "lookup_answer resp = Inr cr"
    and r: "r = internal_only cfg [(''X-Internal-Token'', [t])] (a_lookup cfg CR k d)"
  shows "t = ag_token cfg \<and> (\<exists>x. LookupCredential (ag_master cfg) CR k d = Inr x
    \<and> cr = \<lparr>ccUserID = utf8_fix (luUserID x), ccSecretKey = utf8_fix (luSecretKey x)\<rparr>)"
proof -
  from assms(2) have "status resp = StatusOK" by (auto simp: lookup_answer_def split: if_splits)
  with assms(1) have "status r = StatusOK" by auto
  with r have t: "t = ag_token cfg" "ag_token cfg \<noteq> []" "status (a_lookup cfg CR k d) = StatusOK"
    by (simp_all add: internal_only_ok internal_header)
  then obtain x where l: "LookupCredential (ag_master cfg) CR k d = Inr x"
    by (auto simp: a_lookup_def split: sum.splits)
  with r t have "r = write_json StatusOK (lookupResponse_json x)"
    by (simp add: internal_only_token internal_header a_lookup_def)
  with assms(1,2) have "cr = \<lparr>ccUserID = utf8_fix (luUserID x), ccSecretKey = utf8_fix (luSecretKey x)\<rparr>"
    by (auto simp: lookup_answer_def decoded_lookup decoded_nothing)
  with t l show ?thesis by blast
qed

lemma lookup_sound:
  assumes "lookup t flt e ak d = (res, d')"
  shows "d' = d \<and> (res = Inr cr \<longrightarrow> t = ag_token cfg \<and> (\<exists>k x. LookupCredential (ag_master cfg) CR k d = Inr x
    \<and> (segment ak \<longrightarrow> k = ak) \<and> cr = \<lparr>ccUserID = utf8_fix (luUserID x), ccSecretKey = utf8_fix (luSecretKey x)\<rparr>))"
proof (cases "url_parse (''/internal/credentials/'' @ ak)")
  case None
  with assms show ?thesis by (auto simp: lookup_run send_def)
next
  case (Some u)
  let ?h = "[(''X-Internal-Token'', [t])]"
  let ?c = "\<lparr>hc_method = ''GET'', hc_url = u, hc_header = ?h, hc_body = NoReqBody\<rparr>"
  obtain r d2 where hr: "auth_http chi cfg B e ?c d = (r, d2)" by fastforce
  note h = auth_http_internal[OF Some hr]
  have same: "d' = d" using Some hr h assms
    by (cases "flt ?c") (auto simp: lookup_run send_def auth_transport_def)
  moreover have "t = ag_token cfg \<and> (\<exists>k x. LookupCredential (ag_master cfg) CR k d = Inr x
    \<and> (segment ak \<longrightarrow> k = ak) \<and> cr = \<lparr>ccUserID = utf8_fix (luUserID x), ccSecretKey = utf8_fix (luSecretKey x)\<rparr>)"
    if "res = Inr cr"
  proof -
    from that Some hr assms obtain resp where o: "lookup_answer resp = Inr cr"
      "resp = r \<or> (\<exists>n. resp = r\<lparr>body := cut_body n (body r)\<rparr>)"
      by (cases "flt ?c") (auto simp: lookup_run send_def auth_transport_def)
    then have "status r = StatusOK" by (auto simp: lookup_answer_def split: if_splits)
    with h obtain k where k0: "r = internal_only cfg ?h (a_lookup cfg CR k d)" by blast
    have "\<exists>k. r = internal_only cfg ?h (a_lookup cfg CR k d) \<and> (segment ak \<longrightarrow> k = ak)"
    proof (cases "segment ak")
      case True
      from auth_http_lookup[OF True Some, of cfg B e ?h NoReqBody d] hr show ?thesis by (intro exI[of _ ak]) simp
    qed (use k0 in blast)
    with lookup_answer_ok[OF o(2,1)] show ?thesis by blast
  qed
  ultimately show ?thesis by blast
qed

lemma lookup_live:
  assumes ok: "auth_ok cfg B d" and live: "stored_credential B d k = Some c" "cdRevokedAt c = None"
    and "ag_token cfg \<noteq> []" and f: "flt = (\<lambda>_. Delivered)"
  shows "\<exists>s. decrypt (ag_master cfg) (cdSecretKeyEncrypted c) = Inr s
    \<and> lookup (ag_token cfg) flt e k d = (Inr \<lparr>ccUserID = cdUserID c, ccSecretKey = s\<rparr>, d)"
proof -
  from ok have inv: "auth_inv B d" and s: "secrets_ok (ag_master cfg) (stored_user B d) (stored_credential B d)"
    by (simp_all add: auth_ok_def)
  from secrets_okD[OF s live(1)] obtain b where k: "access_key_form k"
    and b: "decrypt (ag_master cfg) (cdSecretKeyEncrypted c) = Inr (b64_encode b)" by blast
  from secrets.creds_key[OF inv live(1)] have "valid_utf8 (cdUserID c)" by (simp add: utf8_credential_def)
  moreover from svc.LookupCredential_live[OF inv live access_key_facts(1)[OF k] b]
  have l: "LookupCredential (ag_master cfg) CR k d = Inr \<lparr>luUserID = cdUserID c, luSecretKey = b64_encode b\<rparr>" .
  moreover obtain u where u: "url_parse (''/internal/credentials/'' @ k) = Some u"
    using segment_url[OF access_key_segment[OF k]] by blast
  note auth_http_lookup[OF access_key_segment[OF k] u, of cfg B e "[(''X-Internal-Token'', [ag_token cfg])]" NoReqBody d]
  ultimately have "lookup (ag_token cfg) flt e k d = (Inr \<lparr>ccUserID = cdUserID c, ccSecretKey = b64_encode b\<rparr>, d)"
    using u assms(4) f
    by (simp add: lookup_run lookup_answer_def send_def auth_transport_def internal_only_token internal_header
        a_lookup_def l decoded_lookup)
  with b show ?thesis by blast
qed

lemma lookup_dead:
  assumes ok: "auth_ok cfg B d" and seg: "segment k" and dead: "\<And>c. stored_credential B d k = Some c \<Longrightarrow> cdRevokedAt c \<noteq> None"
  shows "fst (lookup t flt e k d) \<noteq> Inr cr"
    and "ag_token cfg \<noteq> [] \<Longrightarrow> lookup (ag_token cfg) (\<lambda>_. Delivered) e k d = (Inl (NotFoundError ''access key''), d)"
proof -
  from ok have inv: "auth_inv B d" by (simp add: auth_ok_def)
  have "ctl keySeparator" by (simp add: ctl_def byte_in_def keySeparator_def)
  with segmentD(3)[OF seg] have "no_nul k" unfolding no_nul_def url_safe_def by blast
  moreover have "k \<noteq> []" by (rule segmentD(1)[OF seg])
  ultimately
  have l: "LookupCredential (ag_master cfg) CR k d = Inl (Sentinel ErrNotFound)"
    using svc.LookupCredential_missing[OF inv _ _ dead] by simp
  obtain res d' where run: "lookup t flt e k d = (res, d')" by fastforce
  show "fst (lookup t flt e k d) \<noteq> Inr cr"
    using lookup_sound[OF run, of cr] seg l run by auto
  obtain u where u: "url_parse (''/internal/credentials/'' @ k) = Some u" using segment_url[OF seg] by blast
  note h = auth_http_lookup[OF seg u, of cfg B e "[(''X-Internal-Token'', [ag_token cfg])]" NoReqBody d]
  assume "ag_token cfg \<noteq> []"
  with u h show "lookup (ag_token cfg) (\<lambda>_. Delivered) e k d = (Inl (NotFoundError ''access key''), d)"
    by (simp add: lookup_run lookup_answer_def send_def auth_transport_def internal_only_token internal_header
        a_lookup_def l auth_writeError_def)
qed

end

section \<open>The signature check of api-service\<close>

lemma requireSigV4_Inr:
  assumes "requireSigV4 auth now r s = (Inr p, s')"
  shows "\<exists>cred cc. ParseAuthorization (header_get (r_header r) ''Authorization'') = Inr cred
    \<and> ac_lookup auth (cAccessKey cred) s = (Inr cc, s') \<and> Verify now r cred (ccSecretKey cc) maxClockSkew = None
    \<and> p = \<lparr>pUserID = ccUserID cc, pAccessKey = cAccessKey cred\<rparr>"
  using assms
  by (auto simp: requireSigV4_def Let_def split: if_splits sum.splits prod.splits client_error.splits option.splits)

lemma ParseAuthorization_ne: "ParseAuthorization h = Inr c \<Longrightarrow> h \<noteq> []"
  by (auto simp: ParseAuthorization_def split: if_splits)

lemma requireSigV4_accepts:
  assumes "ParseAuthorization (header_get (r_header r) ''Authorization'') = Inr cred"
    and "cRegion cred = sigv4Region" "cService cred = sigv4Service"
    and "ac_lookup auth (cAccessKey cred) s = (Inr cc, s')" and "Verify now r cred (ccSecretKey cc) maxClockSkew = None"
  shows "requireSigV4 auth now r s = (Inr \<lparr>pUserID = ccUserID cc, pAccessKey = cAccessKey cred\<rparr>, s')"
proof -
  note ParseAuthorization_ne[OF assms(1)]
  with assms show ?thesis by (simp add: requireSigV4_def)
qed

lemma requireSigV4_unknown:
  assumes "ParseAuthorization (header_get (r_header r) ''Authorization'') = Inr cred"
    and "cRegion cred = sigv4Region" "cService cred = sigv4Service"
    and "ac_lookup auth (cAccessKey cred) s = (Inl (NotFoundError x), s')"
  shows "requireSigV4 auth now r s = (Inl (unauthorized ''unknown access key''), s')"
proof -
  note ParseAuthorization_ne[OF assms(1)]
  with assms show ?thesis by (simp add: requireSigV4_def)
qed

end
