(* ===== verification/Auth_Packages.thy ===== *)
theory Auth_Packages
  imports Auth_Jwt Api_Handlers
begin

text \<open>
  Functions with the documented behaviour of the token and the password package: the concrete packages
  of the witnesses.  A token is the claims in hexadecimal and decimal, signed with HMAC-SHA256 as RFC
  7515 has it; a password hash is the password in hexadecimal.
\<close>

section \<open>Unpadded base64\<close>

abbreviation (input) "b64_pad n \<equiv> replicate ((4 - n mod 4) mod 4) CHR ''=''"

lemma b64_strip_pad:
  "filter (\<lambda>c. c \<noteq> CHR ''='') (b64_encode s) @ b64_pad (length (filter (\<lambda>c. c \<noteq> CHR ''='') (b64_encode s)))
     = b64_encode s"
proof (induction s rule: b64_encode.induct)
  case 1
  show ?case by simp
next
  case (2 a)
  have "replicate 2 CHR ''='' = [CHR ''='', CHR ''='']" by code_simp
  then show ?case by simp
next
  case (3 a b)
  show ?case by simp
next
  case (4 a b c s)
  let ?g = "filter (\<lambda>c. c \<noteq> CHR ''='') (b64_encode s)"
  have four: "(n + 4) mod 4 = n mod (4 :: nat)" for n by simp
  obtain w x y z where e: "b64_encode (a # b # c # s) = [w, x, y, z] @ b64_encode s"
    "w \<noteq> CHR ''=''" "x \<noteq> CHR ''=''" "y \<noteq> CHR ''=''" "z \<noteq> CHR ''=''"
    by (rule that) (simp only: b64_encode.simps append_Cons append_Nil, (rule b64_digit_simps(2), rule byte_parts)+)
  then have f: "filter (\<lambda>c. c \<noteq> CHR ''='') ([w, x, y, z] @ b64_encode s) = [w, x, y, z] @ ?g" by simp
  have l: "length ([w, x, y, z] @ ?g) = length ?g + 4" by simp
  show ?case unfolding e(1) f l four using 4 by (simp only: append_assoc)
qed

lemma b64_digit_set:
  "\<forall>n \<in> set [0..<64]. b64_digit n \<notin> set ''-_.'' \<and> b64_digit n \<noteq> CHR 0x0A \<and> b64_digit n \<noteq> CHR 0x0D"
  by code_simp

lemma b64_digit_safe [simp]: "n < 64 \<Longrightarrow> b64_digit n \<notin> set ''-_.'' \<and> b64_digit n \<noteq> CHR 0x0A \<and> b64_digit n \<noteq> CHR 0x0D"
  using b64_digit_set by simp

lemma b64_encode_safe: "c \<in> set (b64_encode s) \<Longrightarrow> c \<notin> set ''-_.'' \<and> c \<noteq> CHR 0x0A \<and> c \<noteq> CHR 0x0D"
  by (induction s rule: b64_encode.induct) (use b64_digit_safe in \<open>auto simp del: b64_digit_safe\<close>)

lemma b64url_decode_encode: "b64url_decode (b64url_encode s) = Some s"
proof -
  define f where "f = filter (\<lambda>c. c \<noteq> CHR ''='') (b64_encode s)"
  define g where "g = map (\<lambda>c. if c = CHR ''+'' then CHR ''-'' else if c = CHR ''/'' then CHR ''_'' else c) f"
  have safe: "c \<notin> set ''-_.'' \<and> c \<noteq> CHR 0x0A \<and> c \<noteq> CHR 0x0D \<and> c \<noteq> CHR ''=''" if "c \<in> set f" for c
    using that b64_encode_safe by (auto simp: f_def)
  have n: "filter (\<lambda>c. c \<noteq> CHR 0x0A \<and> c \<noteq> CHR 0x0D) g = g"
    by (rule filter_True) (use safe in \<open>auto simp: g_def\<close>)
  have a: "\<not> list_ex (\<lambda>c. c \<in> set ''+/='') g"
    using safe by (auto simp: list_ex_iff g_def)
  have m: "map (\<lambda>c. if c = CHR ''-'' then CHR ''+'' else if c = CHR ''_'' then CHR ''/'' else c) g = f"
    unfolding g_def map_map by (rule map_idI) (use safe in auto)
  have l: "length g = length f" by (simp add: g_def)
  have "b64url_encode s = g" by (simp add: b64url_encode_def g_def f_def)
  then show ?thesis
    using b64_strip_pad[of s, folded f_def] a
    by (simp only: b64url_decode_def Let_def n m l b64_decode_encode if_False)
qed

lemma b64url_encode_dot: "CHR ''.'' \<notin> set (b64url_encode s)"
  using b64_encode_safe by (auto simp: b64url_encode_def)

section \<open>A text for claims\<close>

fun hex_decode :: "string \<Rightarrow> bytes option" where
  "hex_decode [] = Some []"
| "hex_decode [a] = None"
| "hex_decode (a # b # s) =
     (case (unhex a, unhex b, hex_decode s) of
        (Some h, Some l, Some r) \<Rightarrow> Some (char_of (16 * h + l) # r)
      | _ \<Rightarrow> None)"

lemma unhex_digits: "\<forall>n \<in> set [0..<16]. unhex (hex_digit n) = Some n"
  by code_simp

lemma unhex_digit [simp]: "n < 16 \<Longrightarrow> unhex (hex_digit n) = Some n"
  using unhex_digits by simp

lemma hex_decode_encode [simp]: "hex_decode (hex_encode s) = Some s"
  by (induction s) (simp_all add: less_mult_imp_div_less)

definition time_text :: "time option \<Rightarrow> string" where
  "time_text t = (case t of None \<Rightarrow> [] | Some n \<Rightarrow> int_text n)"

definition text_time :: "string \<Rightarrow> time option option" where
  "text_time s =
     (case s of
        [] \<Rightarrow> Some None
      | c # r \<Rightarrow> if c = CHR ''-'' then map_option (\<lambda>n. Some (- int n)) (digits_value 0 r)
                else map_option (\<lambda>n. Some (int n)) (digits_value 0 s))"

lemma digits_value_snoc:
  "digits_value a (s @ [c]) = (case digits_value a s of None \<Rightarrow> None | Some v \<Rightarrow> map_option (\<lambda>x. 10 * v + x) (digit_value c))"
  by (induction s arbitrary: a) (auto split: option.splits)

lemma digit_value_digit [simp]: "n < 10 \<Longrightarrow> digit_value (char_of (48 + n)) = Some n"
  by (simp add: digit_value_def byte_in_def)

lemma digits_value_nat_text [simp]: "digits_value 0 (nat_text n) = Some n"
proof (induction n rule: nat_text.induct)
  case (1 n)
  show ?case
  proof (cases "n < 10")
    case True
    then show ?thesis by (subst nat_text.simps) simp
  next
    case False
    with 1 show ?thesis by (subst nat_text.simps) (simp add: digits_value_snoc)
  qed
qed

lemma nat_text_digits: "c \<in> set (nat_text n) \<Longrightarrow> byte_in 48 57 c"
proof (induction n rule: nat_text.induct)
  case (1 n)
  show ?case
  proof (cases "n < 10")
    case True
    with 1(2) show ?thesis by (subst (asm) nat_text.simps) (auto simp: byte_in_def)
  next
    case False
    with 1 show ?thesis by (subst (asm) (2) nat_text.simps) (auto simp: byte_in_def)
  qed
qed

lemma nat_text_ne [simp]: "nat_text n \<noteq> []"
  by (subst nat_text.simps) simp

lemma text_time_text [simp]: "text_time (time_text t) = Some t"
proof (cases t)
  case None
  then show ?thesis by (simp add: time_text_def text_time_def)
next
  case (Some n)
  obtain c r where c: "nat_text (nat n) = c # r" by (cases "nat_text (nat n)") simp_all
  with nat_text_digits[of c "nat n"] have "c \<noteq> CHR ''-''" by (auto simp: byte_in_def)
  with Some c digits_value_nat_text[of "nat n"] show ?thesis
    by (auto simp: time_text_def text_time_def int_text_def simp del: digits_value.simps)
qed

definition claims_text :: "token_claims \<Rightarrow> string" where
  "claims_text c = join '',''
     [hex_encode (tkUsername c), if tkIsAdmin c then ''1'' else ''0'', hex_encode (tkType c), hex_encode (tkSubject c),
      time_text (tkIssuedAt c), time_text (tkExpiresAt c)]"

definition text_claims :: "string \<Rightarrow> token_claims option" where
  "text_claims s =
     (case split_at_char CHR '','' s of
        [u, a, t, i, x, y] \<Rightarrow>
          (case (hex_decode u, hex_decode t, hex_decode i, text_time x, text_time y) of
             (Some u, Some t, Some i, Some x, Some y) \<Rightarrow>
               Some \<lparr>tkUsername = u, tkIsAdmin = (a = ''1''), tkType = t, tkSubject = i, tkIssuedAt = x, tkExpiresAt = y\<rparr>
           | _ \<Rightarrow> None)
      | _ \<Rightarrow> None)"

lemma time_text_chars: "c \<in> set (time_text t) \<Longrightarrow> byte_in 48 57 c \<or> c = CHR ''-''"
  by (auto simp: time_text_def int_text_def dest: nat_text_digits split: option.splits if_splits)

lemma claims_parts_chars:
  "c \<in> set (hex_encode s) \<Longrightarrow> c \<noteq> CHR '','' \<and> c \<noteq> CHR ''.''"
  "c \<in> set (time_text t) \<Longrightarrow> c \<noteq> CHR '','' \<and> c \<noteq> CHR ''.''"
  by (auto dest!: hex_encode_chars time_text_chars simp: hex_char_def byte_in_def)

lemma text_claims_text [simp]: "text_claims (claims_text c) = Some c"
proof -
  have "split_at_char CHR '','' (claims_text c) =
      [hex_encode (tkUsername c), if tkIsAdmin c then ''1'' else ''0'', hex_encode (tkType c), hex_encode (tkSubject c),
       time_text (tkIssuedAt c), time_text (tkExpiresAt c)]"
    unfolding claims_text_def by (rule split_join) (auto dest: claims_parts_chars)
  then show ?thesis by (simp add: text_claims_def)
qed

lemma claims_text_dot: "CHR ''.'' \<notin> set (claims_text c)"
  by (auto simp: claims_text_def dest: claims_parts_chars)

section \<open>The packages\<close>

definition plain_sign :: "bytes \<Rightarrow> token_claims \<Rightarrow> go_error + string" where
  "plain_sign key c = Inr (claims_text c @ CHR ''.'' # b64url_encode (hmacSHA256 key (claims_text c)))"

definition plain_parse :: "time \<Rightarrow> keyfunc \<Rightarrow> string \<Rightarrow> go_error + bool \<times> token_claims" where
  "plain_parse now kf tok =
     (case cut_at CHR ''.'' tok of (p, s) \<Rightarrow>
        (case (kf HS256, text_claims p) of
           (Inl err, _) \<Rightarrow> Inl err
         | (Inr key, None) \<Rightarrow> Inl (Plain [Lit ''token is malformed''])
         | (Inr key, Some c) \<Rightarrow>
             if CHR ''.'' \<notin> set tok \<or> b64url_decode s \<noteq> Some (hmacSHA256 key p)
             then Inl (Plain [Lit ''signature is invalid''])
             else if (case tkExpiresAt c of None \<Rightarrow> False | Some x \<Rightarrow> x \<le> now)
             then Inl (Plain [Lit ''token is expired''])
             else Inr (True, c)))"

definition plain_jwt :: jwt_package where
  "plain_jwt = \<lparr>jw_date = \<lambda>t. t - t mod second, jw_sign = plain_sign, jw_parse = plain_parse\<rparr>"

definition plain_bcrypt :: bcrypt_package where
  "plain_bcrypt = \<lparr>bc_generate = \<lambda>salt pw. if length pw \<le> 72 then Inr (hex_encode pw) else Inl (Plain [Lit ''password length exceeds 72 bytes'']),
     bc_compare = \<lambda>h pw. if h = hex_encode pw then None else Some (Plain [Lit ''hashedPassword is not the hash of the given password''])\<rparr>"

lemma cut_at_mem: "z \<in> set s \<Longrightarrow> cut_at z s = (p, t) \<Longrightarrow> s = p @ z # t"
  by (induction s arbitrary: p) (auto split: if_splits prod.splits)

lemma plain_parse_sign:
  assumes "plain_sign key c = Inr tok" and "plain_parse now kf tok = Inr (v, c')"
  shows "c' = c"
  using assms claims_text_dot[of c]
  by (auto simp: plain_sign_def plain_parse_def cut_at_hit split: sum.splits option.splits if_splits)

interpretation plain_jwt: jwt_laws plain_jwt
proof (unfold_locales, goal_cases)
  case (1 t)
  have "t - t mod second - (t - t mod second) mod second = t - t mod second" by (simp add: minus_mod_eq_div_mult)
  moreover have "0 \<le> t mod second" "t mod second < second" by (simp_all add: second_def)
  ultimately show ?case by (simp add: plain_jwt_def)
next
  case (2 key c)
  show ?case by (simp add: plain_jwt_def plain_sign_def)
next
  case (3 key c tok e kf now)
  then show ?case using claims_text_dot[of c]
    by (auto simp: plain_jwt_def plain_sign_def plain_parse_def cut_at_hit b64url_decode_encode)
next
  case (4 key c tok now kf v c')
  then show ?case using plain_parse_sign by (simp add: plain_jwt_def)
next
  case (5 now kf tok v c e)
  then show ?case by (auto simp: plain_jwt_def plain_parse_def split: prod.splits sum.splits option.splits if_splits)
next
  case (6 now kf tok v c)
  then obtain p s key where p: "cut_at CHR ''.'' tok = (p, s)" "kf HS256 = Inr key" "CHR ''.'' \<in> set tok"
    "b64url_decode s = Some (hmacSHA256 key p)"
    by (auto simp: plain_jwt_def plain_parse_def split: prod.splits sum.splits option.splits if_splits)
  with cut_at_mem[OF p(3,1)] have "hs256_signed key tok" by (auto simp: hs256_signed_def)
  with p(2) show ?case by blast
qed

interpretation plain_bcrypt: bcrypt_laws plain_bcrypt
proof (unfold_locales, goal_cases)
  case (2 salt pw h)
  then show ?case
    by (auto simp: plain_bcrypt_def hex_char_def byte_in_def intro!: valid_utf8_ascii dest!: hex_encode_chars split: if_splits)
qed (auto simp: plain_bcrypt_def split: if_splits)

end
