(* ===== verification/Service_Config.thy ===== *)
theory Service_Config
  imports Auth_Api Data_Api Meta_Api
begin

text \<open>
  The configuration of the services (\<open>internal/config\<close> of each) and what the main functions put
  together from it before they listen.  The environment maps a variable to its value, the empty string
  when it is not set (\<open>os.Getenv\<close>).
\<close>

type_synonym environment = "string \<Rightarrow> string"

definition getenv_or :: "environment \<Rightarrow> string \<Rightarrow> string \<Rightarrow> string" where
  "getenv_or env name dflt = (if env name = [] then dflt else env name)"

section \<open>api-service\<close>

record api_settings =
  asServerPort :: string
  asMetadataURL :: string
  asDataURL :: string
  asAuthURL :: string
  asInternalToken :: string

definition api_Load :: "environment \<Rightarrow> go_error + api_settings" where
  "api_Load env =
     (let port = getenv_or env ''API_SERVICE_SERVER_PORT'' ''8080'';
          metadataURL = getenv_or env ''API_SERVICE_METADATA_URL'' ''http://localhost:8083'';
          dataURL = getenv_or env ''API_SERVICE_DATA_URL'' ''http://localhost:8081'';
          authURL = getenv_or env ''API_SERVICE_AUTH_URL'' ''http://localhost:8082'';
          internalToken = env ''API_SERVICE_INTERNAL_TOKEN''
      in if internalToken = [] then
           Inl (Plain [Lit ''API_SERVICE_INTERNAL_TOKEN is required (must match auth-service's AUTH_SERVICE_INTERNAL_TOKEN)''])
         else Inr \<lparr>asServerPort = port, asMetadataURL = metadataURL, asDataURL = dataURL, asAuthURL = authURL,
                   asInternalToken = internalToken\<rparr>)"

section \<open>metadata-service and data-service\<close>

record meta_settings =
  msServerPort :: string
  msDBPath :: string

definition meta_Load :: "environment \<Rightarrow> go_error + meta_settings" where
  "meta_Load env = Inr \<lparr>msServerPort = getenv_or env ''METADATA_SERVICE_SERVER_PORT'' ''8083'',
     msDBPath = getenv_or env ''METADATA_SERVICE_DB_PATH'' ''data/metadata.db''\<rparr>"

record data_settings =
  dsServerPort :: string
  dsDataDir :: string

definition data_Load :: "environment \<Rightarrow> go_error + data_settings" where
  "data_Load env = Inr \<lparr>dsServerPort = getenv_or env ''DATA_SERVICE_SERVER_PORT'' ''8081'',
     dsDataDir = getenv_or env ''DATA_SERVICE_DATA_DIR'' ''data''\<rparr>"

section \<open>auth-service\<close>

definition masterKeySize :: nat where
  "masterKeySize = 32"

record auth_settings =
  auJWTSecret :: string
  auMasterKey :: bytes
  auInternalToken :: string
  auDBPath :: string
  auServerPort :: string

definition required :: "string \<Rightarrow> go_error" where
  "required name = Plain [Lit name, Lit '' is required'']"

definition auth_Load :: "environment \<Rightarrow> go_error + auth_settings" where
  "auth_Load env =
     (let jwtSecret = env ''AUTH_SERVICE_JWT_SECRET''
      in if jwtSecret = [] then Inl (required ''AUTH_SERVICE_JWT_SECRET'')
         else
           (let internalToken = env ''AUTH_SERVICE_INTERNAL_TOKEN''
            in if internalToken = [] then Inl (required ''AUTH_SERVICE_INTERNAL_TOKEN'')
               else
                 (let masterKeyRaw = env ''AUTH_SERVICE_MASTER_KEY''
                  in if masterKeyRaw = [] then Inl (required ''AUTH_SERVICE_MASTER_KEY'')
                     else
                       (case b64_decode masterKeyRaw of
                          None \<Rightarrow> Inl (Wrap [Lit ''AUTH_SERVICE_MASTER_KEY must be base64-encoded: '']
                                    (Plain [Lit ''illegal base64 data'']) [])
                        | Some masterKey \<Rightarrow>
                            if length masterKey \<noteq> masterKeySize then
                              Inl (Plain [Lit ''AUTH_SERVICE_MASTER_KEY must decode to '', Dec (int masterKeySize),
                                Lit '' bytes, got '', Dec (int (length masterKey))])
                            else
                              Inr \<lparr>auJWTSecret = jwtSecret, auMasterKey = masterKey, auInternalToken = internalToken,
                                auDBPath = getenv_or env ''AUTH_SERVICE_DB_PATH'' ''data/auth.db'',
                                auServerPort = getenv_or env ''AUTH_SERVICE_SERVER_PORT'' ''8082''\<rparr>))))"

text \<open>
  \<open>main\<close> up to the router: the configuration, the store, the services.  What the operating system does
  with the directory and the file of the store is given; any error ends the process.
\<close>

definition auth_start ::
    "jwt_package \<Rightarrow> bcrypt_package \<Rightarrow> 'd bolt \<Rightarrow> environment \<Rightarrow> go_error option \<Rightarrow> go_error + 'd
       \<Rightarrow> go_error + auth_config \<times> 'd" where
  "auth_start J Bc B env mkdir disk =
     (case auth_Load env of
        Inl err \<Rightarrow> Inl err
      | Inr cfg \<Rightarrow>
          (case auth_open B (auDBPath cfg) mkdir disk of
             Inl err \<Rightarrow> Inl err
           | Inr d \<Rightarrow>
               (case NewAuthService (auJWTSecret cfg) of
                  Inl err \<Rightarrow> Inl err
                | Inr secret \<Rightarrow>
                    Inr (\<lparr>ag_jwt = J, ag_bcrypt = Bc, ag_secret = secret, ag_master = auMasterKey cfg,
                          ag_token = auInternalToken cfg\<rparr>, d))))"

text \<open>The same of metadata-service.\<close>

definition meta_start :: "'d bolt \<Rightarrow> environment \<Rightarrow> go_error option \<Rightarrow> go_error + 'd \<Rightarrow> go_error + 'd" where
  "meta_start B env mkdir disk =
     (case meta_Load env of
        Inl err \<Rightarrow> Inl err
      | Inr cfg \<Rightarrow> meta_open B (msDBPath cfg) mkdir disk)"

section \<open>Lemmas\<close>

lemma auth_Load_Inr:
  "auth_Load env = Inr cfg \<Longrightarrow> auJWTSecret cfg = env ''AUTH_SERVICE_JWT_SECRET''
     \<and> auInternalToken cfg = env ''AUTH_SERVICE_INTERNAL_TOKEN'' \<and> auInternalToken cfg \<noteq> []
     \<and> b64_decode (env ''AUTH_SERVICE_MASTER_KEY'') = Some (auMasterKey cfg) \<and> length (auMasterKey cfg) = 32"
  by (auto simp: auth_Load_def Let_def masterKeySize_def split: if_splits option.splits)

lemma auth_start_Inr:
  assumes "auth_start J Bc B env mkdir disk = Inr (cfg, d)"
  shows "ag_jwt cfg = J \<and> ag_bcrypt cfg = Bc \<and> aes_key_ok (ag_master cfg) \<and> 32 \<le> length (ag_secret cfg)
    \<and> ag_token cfg = env ''AUTH_SERVICE_INTERNAL_TOKEN'' \<and> ag_token cfg \<noteq> []
    \<and> auth_open B (getenv_or env ''AUTH_SERVICE_DB_PATH'' ''data/auth.db'') mkdir disk = Inr d"
proof -
  from assms obtain c where c: "auth_Load env = Inr c" "auth_open B (auDBPath c) mkdir disk = Inr d"
    "32 \<le> length (auJWTSecret c)"
    "cfg = \<lparr>ag_jwt = J, ag_bcrypt = Bc, ag_secret = auJWTSecret c, ag_master = auMasterKey c, ag_token = auInternalToken c\<rparr>"
    by (auto simp: auth_start_def NewAuthService_def minJWTSecretLength_def split: sum.splits if_splits)
  have "auDBPath c = getenv_or env ''AUTH_SERVICE_DB_PATH'' ''data/auth.db''"
    using c(1) by (auto simp: auth_Load_def Let_def split: if_splits option.splits)
  with c auth_Load_Inr[OF c(1)] show ?thesis by (auto simp: aes_key_ok_def)
qed

lemma auth_Load_iff:
  "auth_Load env = Inr c \<longleftrightarrow>
     env ''AUTH_SERVICE_JWT_SECRET'' \<noteq> [] \<and> env ''AUTH_SERVICE_INTERNAL_TOKEN'' \<noteq> []
     \<and> (\<exists>k. b64_decode (env ''AUTH_SERVICE_MASTER_KEY'') = Some k \<and> length k = 32
          \<and> c = \<lparr>auJWTSecret = env ''AUTH_SERVICE_JWT_SECRET'', auMasterKey = k,
              auInternalToken = env ''AUTH_SERVICE_INTERNAL_TOKEN'',
              auDBPath = getenv_or env ''AUTH_SERVICE_DB_PATH'' ''data/auth.db'',
              auServerPort = getenv_or env ''AUTH_SERVICE_SERVER_PORT'' ''8082''\<rparr>)"
proof -
  have "b64_decode [] = Some []" by code_simp
  then show ?thesis
    by (auto simp: auth_Load_def Let_def masterKeySize_def split: option.splits)
qed

lemma auth_start_iff:
  "auth_start J Bc B env mkdir disk = Inr (cfg, d) \<longleftrightarrow>
     32 \<le> length (env ''AUTH_SERVICE_JWT_SECRET'') \<and> env ''AUTH_SERVICE_INTERNAL_TOKEN'' \<noteq> []
     \<and> (\<exists>k. b64_decode (env ''AUTH_SERVICE_MASTER_KEY'') = Some k \<and> length k = 32
          \<and> cfg = \<lparr>ag_jwt = J, ag_bcrypt = Bc, ag_secret = env ''AUTH_SERVICE_JWT_SECRET'', ag_master = k,
                   ag_token = env ''AUTH_SERVICE_INTERNAL_TOKEN''\<rparr>)
     \<and> auth_open B (getenv_or env ''AUTH_SERVICE_DB_PATH'' ''data/auth.db'') mkdir disk = Inr d"
proof (cases "auth_Load env")
  case (Inl err)
  with auth_Load_iff[of env] show ?thesis by (fastforce simp: auth_start_def)
next
  case (Inr c)
  then show ?thesis
    using Inr[unfolded auth_Load_iff]
    by (auto simp: auth_start_def NewAuthService_def minJWTSecretLength_def split: sum.splits)
qed

text \<open>With a shorter secret nothing starts, whatever else the environment holds.\<close>

lemma auth_start_short_secret:
  "length (env ''AUTH_SERVICE_JWT_SECRET'') < 32 \<Longrightarrow> \<exists>err. auth_start J Bc B env mkdir disk = Inl err"
  by (cases "auth_start J Bc B env mkdir disk")
    (auto simp: auth_start_def NewAuthService_def minJWTSecretLength_def dest: auth_Load_Inr split: sum.splits if_splits)

end
