(* ===== verification/Auth_Properties.thy ===== *)
theory Auth_Properties
  imports Auth_Compose Auth_Packages Service_Config
begin

text \<open>
  The properties of auth-service, alone and behind the signature check of api-service, with witnesses
  on a small run: the in-memory store, the packages of \<open>Auth_Packages\<close>, one user with one credential.
\<close>

lemma auth_deploymentI:
  "bolt_store B \<Longrightarrow> jwt_laws (ag_jwt cfg) \<Longrightarrow> bcrypt_laws (ag_bcrypt cfg) \<Longrightarrow> auth_deployment B cfg"
  by (simp add: auth_deployment_def)

lemma auth_backendI:
  "bolt_store B \<Longrightarrow> jwt_laws (ag_jwt cfg) \<Longrightarrow> bcrypt_laws (ag_bcrypt cfg) \<Longrightarrow> chi_law chi \<Longrightarrow> auth_backend B cfg chi"
  by (simp add: auth_backend_def auth_deploymentI chi_router_def)

lemma roomy_authI:
  "bolt_roomy B \<Longrightarrow> jwt_laws (ag_jwt cfg) \<Longrightarrow> bcrypt_laws (ag_bcrypt cfg) \<Longrightarrow> roomy_auth B cfg"
  by (simp add: roomy_auth_def auth_deployment_def bolt_roomy_def bolt_healthy_def)

context auth_deployment
begin

lemmas run_reachable = auth_reachable_ok
lemmas run_steps = auth_steps_ok
lemmas run_effect = auth_serve_effect
lemmas run_login = svc.Login_user
lemmas run_verify = svc.Verify_access
lemmas run_verified = svc.Verify_access_Inr
lemmas run_refresh = svc.Refresh_user
lemmas run_refreshed = svc.Refresh_Inr
lemmas run_register = svc.Register_Inr
lemmas run_register_keeps = svc.Register_keeps
lemmas run_issue = svc.IssueCredential_Inr
lemmas run_issue_keeps = svc.IssueCredential_keeps
lemmas run_revoke = svc.RevokeCredential_Inr
lemmas run_revoke_keeps = svc.RevokeCredential_keeps
lemmas run_user_id = accounts.users_id

end

context roomy_auth
begin

lemmas run_register_total = svc.Register_total
lemmas run_issue_total = svc.IssueCredential_total
lemmas run_exhausted = svc.issue_loop_exhausted
lemmas run_loop = svc.issue_loop_Inr

end

section \<open>A sample run\<close>

definition u_cfg :: auth_config where
  "u_cfg = \<lparr>ag_jwt = plain_jwt, ag_bcrypt = plain_bcrypt, ag_secret = replicate 32 CHR ''s'',
     ag_master = replicate 32 (CHR 0x00), ag_token = ''tok''\<rparr>"

definition u_env :: auth_env where
  "u_env = \<lparr>ae_ctx = background, ae_now = \<lambda>i. int i * second, ae_uuid = ''u1'', ae_salt = [],
     ae_rand = \<lambda>i n. Inr (replicate n (char_of i))\<rparr>"

definition u_opened :: mem_db where
  "u_opened = (case auth_open mem_bolt ''a.db'' None (Inr []) of Inr d \<Rightarrow> d | Inl _ \<Rightarrow> [])"

definition u_amy :: user where
  "u_amy = \<lparr>uID = ''u1'', uUsername = ''amy'', uPasswordHash = hex_encode ''password'', uIsAdmin = False,
     uCreatedAt = second\<rparr>"

definition u_registered :: mem_db where
  "u_registered = snd (Register plain_bcrypt (BoltUserRepository mem_bolt) u_env ''amy'' ''password'' u_opened)"

lemma u_laws: "jwt_laws (ag_jwt u_cfg)" "bcrypt_laws (ag_bcrypt u_cfg)"
  by (simp_all add: u_cfg_def plain_jwt.jwt_laws_axioms plain_bcrypt.bcrypt_laws_axioms)

interpretation u: roomy_auth mem_bolt u_cfg
  by (rule roomy_authI[OF mem_roomy.bolt_roomy_axioms u_laws])

interpretation ub: auth_backend mem_bolt u_cfg first_route
  by (rule auth_backendI[OF mem.bolt_store_axioms u_laws first_route.law])

lemma u_opened_ok: "auth_open mem_bolt ''a.db'' None (Inr []) = Inr u_opened"
  by code_simp

lemma u_register: "Register plain_bcrypt (BoltUserRepository mem_bolt) u_env ''amy'' ''password'' u_opened
    = (Inr u_amy, u_registered)"
  by code_simp

lemma u_env_ok: "auth_env_calm u_env" "auth_env_ok u_env" "rand_ok u_env"
  by (auto simp: auth_env_calm_def auth_env_ok_def rand_ok_def u_env_def max_key_size_def no_nul_def keySeparator_def
      valid_utf8_ascii byte_in_def)

lemma u_opened_reachable: "auth_reachable u_cfg mem_bolt u_opened"
  by (rule auth_reachable.created[OF _ u_opened_ok]) (simp add: mem_get_def)

lemma u_opened_state: "stored_user mem_bolt u_opened i = None" "stored_credential mem_bolt u_opened k = None"
proof -
  have e: "u_opened = [(''meta'', [(schemaVersionKey, Bytes (encodeVersion currentSchemaVersion))]),
     (''credentials'', []), (''usernames'', []), (''users'', [])]" by code_simp
  show "stored_user mem_bolt u_opened i = None" "stored_credential mem_bolt u_opened k = None"
    unfolding e by (simp_all add: stored_user_def stored_credential_def mem_get_def BoltBucketUsers_def BoltBucketCredentials_def)
qed

text \<open>The user of the sample is there after the registration, and later.\<close>

lemma u_registered_state:
  "auth_ok u_cfg mem_bolt u_registered" "stored_user mem_bolt u_registered ''u1'' = Some u_amy"
  "stored_credential mem_bolt u_registered k = None"
proof -
  note ok = u.run_reachable[OF u_opened_reachable]
  have r: "Register (ag_bcrypt u_cfg) (BoltUserRepository mem_bolt) u_env ''amy'' ''password'' u_opened = (Inr u_amy, u_registered)"
    using u_register by (simp add: u_cfg_def)
  from ok have a: "auth_inv mem_bolt u_opened"
    "secrets_ok (ag_master u_cfg) (stored_user mem_bolt u_opened) (stored_credential mem_bolt u_opened)"
    "no_admins (stored_user mem_bolt u_opened)" by (simp_all add: auth_ok_def)
  from u.run_register_keeps[OF a(1) u_env_ok(2) a(2,3) r] show "auth_ok u_cfg mem_bolt u_registered" by (simp add: auth_ok_def)
  from u.run_register[OF a(1) u_env_ok(2) r] u_opened_state
  show "stored_user mem_bolt u_registered ''u1'' = Some u_amy" "stored_credential mem_bolt u_registered k = None"
    by (simp_all add: u_amy_def)
qed

definition u_create :: auth_request where
  "u_create = UCreateUser (Some (JObj [(''username'', JStr ''amy''), (''password'', JStr ''password'')]))"

lemma u_create_serve: "\<exists>resp. auth_serve u_cfg mem_bolt u_env [] u_create u_opened = (resp, u_registered)"
proof -
  have "decode_body createUserRequest_fields True \<lparr>cuUsername = [], cuPassword = []\<rparr>
      (Some (JObj [(''username'', JStr ''amy''), (''password'', JStr ''password'')]))
    = Inr \<lparr>cuUsername = ''amy'', cuPassword = ''password''\<rparr>"
    by (simp add: createUserRequest_fields_def json_decode_simps)
  moreover have "ag_bcrypt u_cfg = plain_bcrypt" by (simp add: u_cfg_def)
  ultimately show ?thesis using u_register by (simp add: u_create_def a_createUser_def)
qed

lemma u_registered_reachable: "auth_reachable u_cfg mem_bolt u_registered"
proof -
  obtain resp where "auth_serve u_cfg mem_bolt u_env [] u_create u_opened = (resp, u_registered)"
    using u_create_serve by blast
  from auth_step.served[OF u_env_ok(2) this] show ?thesis by (rule auth_reachable.stepped[OF u_opened_reachable])
qed

section \<open>State\<close>

text \<open>
  C32: in every database auth-service can leave behind, over any requests and restarts, each user record
  is stored under its identifier, the index of names holds exactly one entry for each user, each
  credential is stored under an access key of the issued form and belongs to a user that exists, its
  secret decrypts with the master key to the text of 30 bytes, and no user is an administrator.
\<close>

theorem auth_database_consistent:
  assumes "bolt_store B" and "jwt_laws (ag_jwt cfg)" and "bcrypt_laws (ag_bcrypt cfg)" and "auth_reachable cfg B d"
  shows "opened B auth_bolt_buckets d
    \<and> (\<forall>i v. bget B d BoltBucketUsers i = Some v \<longrightarrow> (\<exists>u. v = Text (user_json u) \<and> uID u = i \<and> \<not> uIsAdmin u))
    \<and> (\<forall>n v. bget B d BoltBucketUsernameIdx n = Some v \<longleftrightarrow>
         (\<exists>i u. stored_user B d i = Some u \<and> uUsername u = n \<and> v = Bytes i))
    \<and> (\<forall>k v. bget B d BoltBucketCredentials k = Some v \<longrightarrow>
         (\<exists>c b. v = Text (credential_json c) \<and> cdAccessKey c = k \<and> access_key_form k
            \<and> stored_user B d (cdUserID c) \<noteq> None
            \<and> length b = 30 \<and> decrypt (ag_master cfg) (cdSecretKeyEncrypted c) = Inr (b64_encode b)))"
proof (intro conjI allI impI)
  from auth_deployment.run_reachable[OF auth_deploymentI[OF assms(1-3)] assms(4)]
  have inv: "opened B auth_bolt_buckets d" "users_ok B d" "names_index_ok B d" "credentials_ok B d"
    "secrets_ok (ag_master cfg) (stored_user B d) (stored_credential B d)" "no_admins (stored_user B d)"
    by (simp_all add: auth_ok_def auth_inv_def users_inv_def)
  show "opened B auth_bolt_buckets d" by (rule inv(1))
  show "\<exists>u. v = Text (user_json u) \<and> uID u = i \<and> \<not> uIsAdmin u" if "bget B d BoltBucketUsers i = Some v" for i v
    using users_ok_read[OF inv(2) that] users_okE[OF inv(2), of i] inv(6) that by (force simp: no_admins_def)
  show "bget B d BoltBucketUsernameIdx n = Some v \<longleftrightarrow>
      (\<exists>i u. stored_user B d i = Some u \<and> uUsername u = n \<and> v = Bytes i)" for n v
    using inv(3) unfolding names_index_ok_def by blast
  show "\<exists>c b. v = Text (credential_json c) \<and> cdAccessKey c = k \<and> access_key_form k \<and> stored_user B d (cdUserID c) \<noteq> None
      \<and> length b = 30 \<and> decrypt (ag_master cfg) (cdSecretKeyEncrypted c) = Inr (b64_encode b)"
    if v: "bget B d BoltBucketCredentials k = Some v" for k v
  proof -
    from credentials_ok_read[OF inv(4) v] obtain c where c: "stored_credential B d k = Some c" by blast
    from credentials_okE[OF inv(4) c] v secrets_okD[OF inv(5) c] show ?thesis by auto
  qed
qed

theorem auth_database_consistent_witness:
  "\<exists>i u. stored_user mem_bolt u_registered i = Some u \<and> uUsername u = ''amy'' \<and> Bytes ''u1'' = Bytes i"
proof -
  note p = auth_database_consistent[OF mem.bolt_store_axioms u_laws u_registered_reachable, THEN conjunct2, THEN conjunct2,
      THEN conjunct1]
  have "bget mem_bolt u_registered BoltBucketUsernameIdx ''amy'' = Some (Bytes ''u1'')" by code_simp
  with p show ?thesis by blast
qed

text \<open>
  C33: a request to auth-service changes nothing, or it is a registration and adds one user, who is no
  administrator, under a free name; or its bearer token identifies an administrator or the very user
  for whom it issues one credential, or the owner of the one credential it revokes.  A request
  answered with an error changes nothing.  A secret is shown to no one but, at its issue, the bearer who
  issues it, and, while it is not revoked, a caller with the internal token.
\<close>

theorem auth_requests_authorized:
  assumes "bolt_store B" and "jwt_laws (ag_jwt cfg)" and "bcrypt_laws (ag_bcrypt cfg)" and "auth_reachable cfg B d"
    and "auth_env_ok e" and run: "auth_serve cfg B e h r d = (resp, d')"
  shows "(d' = d
      \<or> (\<exists>bdy. r = UCreateUser bdy) \<and> user_added B d d'
      \<or> (\<exists>i p. r = UCreateCredential i \<and> requireAuth cfg e h = Inr p \<and> (apIsAdmin p \<or> apUserID p = i)
           \<and> credential_issued B i d d')
      \<or> (\<exists>k p. r = URevokeCredential k \<and> requireAuth cfg e h = Inr p
           \<and> (apIsAdmin p \<or> owner_of B d k = Some (apUserID p)) \<and> credential_revoked B k d d'))
    \<and> (400 \<le> status resp \<longrightarrow> d' = d)
    \<and> (\<forall>k. r = ULookup k \<longrightarrow> status resp = StatusOK \<longrightarrow>
         header_get h ''X-Internal-Token'' = ag_token cfg \<and> ag_token cfg \<noteq> [])
    \<and> (\<forall>i. r = UGetUser i \<longrightarrow> status resp = StatusOK \<longrightarrow>
         (\<exists>p. requireAuth cfg e h = Inr p \<and> (apIsAdmin p \<or> apUserID p = i)))
    \<and> (\<forall>s. shown_secret resp = Some s \<longrightarrow>
         (\<exists>i p c. r = UCreateCredential i \<and> requireAuth cfg e h = Inr p \<and> (apIsAdmin p \<or> apUserID p = i)
            \<and> cdUserID c = i \<and> stored_credential B d (cdAccessKey c) = None \<and> stored_credential B d' (cdAccessKey c) = Some c
            \<and> decrypt (ag_master cfg) (cdSecretKeyEncrypted c) = Inr s)
         \<or> (\<exists>k c. r = ULookup k \<and> header_get h ''X-Internal-Token'' = ag_token cfg \<and> ag_token cfg \<noteq> []
            \<and> stored_credential B d k = Some c \<and> cdRevokedAt c = None
            \<and> decrypt (ag_master cfg) (cdSecretKeyEncrypted c) = Inr s))"
proof -
  note D = auth_deploymentI[OF assms(1-3)]
  from auth_deployment.run_effect[OF D auth_deployment.run_reachable[OF D assms(4)] assms(5) run]
  have eff: "auth_effect cfg B e h r d d'" "400 \<le> status resp \<longrightarrow> d' = d" by blast+
  have "header_get h ''X-Internal-Token'' = ag_token cfg \<and> ag_token cfg \<noteq> []"
    if "r = ULookup k" "status resp = StatusOK" for k
    using that run by (auto simp: internal_only_ok)
  moreover have "\<exists>p. requireAuth cfg e h = Inr p \<and> (apIsAdmin p \<or> apUserID p = i)"
    if "r = UGetUser i" "status resp = StatusOK" for i
    using that run requireAuth_Inl[of cfg e h resp] requireSelfOrAdmin_status[of _ i resp]
    by (fastforce simp: authenticated_def a_getUser_def requireSelfOrAdmin_None split: sum.splits option.splits)
  moreover have "may_show cfg B e h r d d' s" if "shown_secret resp = Some s" for s
    by (rule auth_deployment.auth_serve_shows[OF D auth_deployment.run_reachable[OF D assms(4)] assms(5) run that])
  ultimately show ?thesis using eff unfolding auth_effect_def may_show_def by (intro conjI) blast+
qed

theorem auth_requests_authorized_witness:
  "snd (auth_serve u_cfg mem_bolt u_env [] (UCreateCredential ''u1'') u_registered) = u_registered"
proof -
  obtain resp d' where run: "auth_serve u_cfg mem_bolt u_env [] (UCreateCredential ''u1'') u_registered = (resp, d')"
    by fastforce
  have "requireAuth u_cfg u_env [] = Inl auth_unauthorized"
    by (simp add: requireAuth_def header_get_def header_values_def)
  with auth_requests_authorized[OF mem.bolt_store_axioms u_laws u_registered_reachable u_env_ok(2) run] run
  show ?thesis by auto
qed

section \<open>Passwords and tokens\<close>

text \<open>
  C34: who has registered can log in, in every later state of the service: the login gives an access
  token that identifies the user, without the rights of an administrator, for the lifetime of the token,
  and a refresh token that gives new such access tokens for its own lifetime; neither of the two is ever
  accepted in place of the other.
\<close>

theorem registered_users_log_in:
  assumes "bolt_store B" and "jwt_laws (ag_jwt cfg)" and "bcrypt_laws (ag_bcrypt cfg)" and "auth_reachable cfg B d0"
    and "auth_env_ok e0" and reg: "Register (ag_bcrypt cfg) (BoltUserRepository B) e0 n pw d0 = (Inr u, d1)"
    and steps: "(auth_step cfg B)\<^sup>*\<^sup>* d1 d"
  shows "\<exists>a r. Login (ag_jwt cfg) (ag_bcrypt cfg) (ag_secret cfg) (BoltUserRepository B) e n pw d = Inr (a, r)
    \<and> (\<forall>now < jw_date (ag_jwt cfg) (ae_now e 1 + accessTokenTTL).
         VerifyAccessToken (ag_jwt cfg) (ag_secret cfg) now a = Inr \<lparr>apUserID = uID u, apIsAdmin = False\<rparr>)
    \<and> (\<forall>f. ae_now f 1 < jw_date (ag_jwt cfg) (ae_now e 2 + refreshTokenTTL) \<longrightarrow>
         (\<exists>b. Refresh (ag_jwt cfg) (ag_secret cfg) (BoltUserRepository B) f r d = Inr b
            \<and> (\<forall>now < jw_date (ag_jwt cfg) (ae_now f 2 + accessTokenTTL).
                 VerifyAccessToken (ag_jwt cfg) (ag_secret cfg) now b = Inr \<lparr>apUserID = uID u, apIsAdmin = False\<rparr>)))
    \<and> (\<forall>now p. VerifyAccessToken (ag_jwt cfg) (ag_secret cfg) now r \<noteq> Inr p)
    \<and> (\<forall>f b. Refresh (ag_jwt cfg) (ag_secret cfg) (BoltUserRepository B) f a d \<noteq> Inr b)"
  by (rule auth_deployment.login_lifecycle[OF auth_deploymentI[OF assms(1-3)]])
    (rule assms auth_deployment.run_reachable[OF auth_deploymentI[OF assms(1-3)]])+

theorem registered_users_log_in_witness:
  "\<exists>a r. Login plain_jwt plain_bcrypt (ag_secret u_cfg) (BoltUserRepository mem_bolt) u_env ''amy'' ''password'' u_registered = Inr (a, r)
    \<and> VerifyAccessToken plain_jwt (ag_secret u_cfg) (600 * second) a = Inr \<lparr>apUserID = ''u1'', apIsAdmin = False\<rparr>"
proof -
  have r: "Register (ag_bcrypt u_cfg) (BoltUserRepository mem_bolt) u_env ''amy'' ''password'' u_opened = (Inr u_amy, u_registered)"
    using u_register by (simp add: u_cfg_def)
  have t: "600 * second < jw_date plain_jwt (ae_now u_env 1 + accessTokenTTL)"
    by (simp add: u_env_def accessTokenTTL_def plain_jwt_def second_def)
  have p: "ag_jwt u_cfg = plain_jwt" "ag_bcrypt u_cfg = plain_bcrypt" "uID u_amy = ''u1''"
    by (simp_all add: u_cfg_def u_amy_def)
  from registered_users_log_in[OF mem.bolt_store_axioms u_laws u_opened_reachable u_env_ok(2) r rtranclp.rtrancl_refl, of u_env]
  show ?thesis unfolding p using t by blast
qed

text \<open>
  C35: an access token is accepted only with an HS256 signature made with the secret of the service,
  with the type of an access token and before it expires; the principal is its subject.  A refresh
  gives a token only for such a refresh token of a user that exists, with the claims the user has now.
\<close>

theorem tokens_are_checked:
  assumes "bolt_store B" and "jwt_laws (ag_jwt cfg)" and "bcrypt_laws (ag_bcrypt cfg)" and "auth_reachable cfg B d"
  shows "(VerifyAccessToken (ag_jwt cfg) (ag_secret cfg) now tok = Inr p \<longrightarrow>
      hs256_signed (ag_secret cfg) tok
      \<and> (\<exists>c x. jwt_parse (ag_jwt cfg) (ag_secret cfg) now tok tokenTypeAccess = Inr c \<and> tkType c = tokenTypeAccess
           \<and> tkExpiresAt c = Some x \<and> now < x \<and> p = \<lparr>apUserID = tkSubject c, apIsAdmin = tkIsAdmin c\<rparr>))
    \<and> (Refresh (ag_jwt cfg) (ag_secret cfg) (BoltUserRepository B) e tok d = Inr b \<longrightarrow>
      hs256_signed (ag_secret cfg) tok
      \<and> (\<exists>c x u. jwt_parse (ag_jwt cfg) (ag_secret cfg) (ae_now e 1) tok tokenTypeRefresh = Inr c
           \<and> tkType c = tokenTypeRefresh \<and> tkExpiresAt c = Some x \<and> ae_now e 1 < x
           \<and> stored_user B d (tkSubject c) = Some u
           \<and> jw_sign (ag_jwt cfg) (ag_secret cfg) (access_claims (ag_jwt cfg) (ae_now e 2) u) = Inr b))"
  using auth_deployment.access_checked[OF auth_deploymentI[OF assms(1-3)]]
    auth_deployment.refresh_checked[OF auth_deploymentI[OF assms(1-3)]
      auth_deployment.run_reachable[OF auth_deploymentI[OF assms(1-3)] assms(4)]] by blast

theorem tokens_are_checked_witness:
  "\<exists>a. mintAccessToken plain_jwt (ag_secret u_cfg) 0 u_amy = Inr a \<and> hs256_signed (ag_secret u_cfg) a"
proof -
  have p: "ag_jwt u_cfg = plain_jwt" by (simp add: u_cfg_def)
  obtain a where a: "mintAccessToken plain_jwt (ag_secret u_cfg) 0 u_amy = Inr a" using plain_jwt.mint_total(1) by blast
  have inv: "auth_inv mem_bolt u_registered" using u_registered_state(1) by (simp add: auth_ok_def)
  have "VerifyAccessToken plain_jwt (ag_secret u_cfg) 0 a = Inr \<lparr>apUserID = ''u1'', apIsAdmin = uIsAdmin u_amy\<rparr>"
    by (rule u.run_verify[OF inv u_registered_state(2), unfolded p, OF a])
      (simp add: accessTokenTTL_def plain_jwt_def second_def)
  with tokens_are_checked[OF mem.bolt_store_axioms u_laws u_registered_reachable, unfolded p] a show ?thesis by blast
qed

end
