(* ===== verification/Auth_Access.thy ===== *)
theory Auth_Access
  imports Auth_Compose
begin

text \<open>
  From the issue of a credential to the requests signed with it: what the signature check of
  api-service makes of auth-service behind it, in every later state and over any network.
\<close>

context auth_backend
begin

abbreviation (input) "check t flt e \<equiv> requireSigV4 (HTTPAuthClient t (auth_transport chi cfg B flt e))"

text \<open>What the client is told about a credential is what auth-service holds of a live one.\<close>

lemma lookup_answered:
  assumes ok: "auth_ok cfg B d" and run: "lookup t flt e ak d = (Inr cc, d')"
  shows "d' = d \<and> t = ag_token cfg
    \<and> (\<exists>k c s. stored_credential B d k = Some c \<and> cdRevokedAt c = None
        \<and> decrypt (ag_master cfg) (cdSecretKeyEncrypted c) = Inr s
        \<and> cc = \<lparr>ccUserID = cdUserID c, ccSecretKey = s\<rparr> \<and> (segment ak \<longrightarrow> k = ak))"
proof -
  from ok have inv: "auth_inv B d" and so: "secrets_ok (ag_master cfg) (stored_user B d) (stored_credential B d)"
    by (simp_all add: auth_ok_def)
  from lookup_sound[OF run, of cc] obtain k x where x: "d' = d" "t = ag_token cfg"
    "LookupCredential (ag_master cfg) CR k d = Inr x" "segment ak \<longrightarrow> k = ak"
    "cc = \<lparr>ccUserID = utf8_fix (luUserID x), ccSecretKey = utf8_fix (luSecretKey x)\<rparr>" by blast
  from svc.LookupCredential_Inr[OF inv x(3)] obtain cr where cr: "stored_credential B d k = Some cr" "cdRevokedAt cr = None"
    "luUserID x = cdUserID cr" "decrypt (ag_master cfg) (cdSecretKeyEncrypted cr) = Inr (luSecretKey x)" by blast
  from secrets_okD(3)[OF so cr(1)] cr(4) obtain b where "luSecretKey x = b64_encode b" by auto
  moreover from secrets.creds_key[OF inv cr(1)] have "valid_utf8 (cdUserID cr)" by (simp add: utf8_credential_def)
  ultimately have "cc = \<lparr>ccUserID = cdUserID cr, ccSecretKey = luSecretKey x\<rparr>" using x(5) cr(3) by simp
  with x cr show ?thesis by blast
qed

text \<open>Whom the check lets pass is the owner of a live credential whose secret made the signature.\<close>

lemma accepted_owner:
  assumes ok: "auth_ok cfg B d" and run: "check t flt e now r d = (Inr p, d')"
  shows "d' = d \<and> t = ag_token cfg
    \<and> (\<exists>cred k c s. ParseAuthorization (header_get (r_header r) ''Authorization'') = Inr cred
        \<and> stored_credential B d k = Some c \<and> cdRevokedAt c = None
        \<and> decrypt (ag_master cfg) (cdSecretKeyEncrypted c) = Inr s
        \<and> Verify now r cred s maxClockSkew = None
        \<and> pUserID p = cdUserID c \<and> pAccessKey p = cAccessKey cred
        \<and> (segment (cAccessKey cred) \<longrightarrow> k = cAccessKey cred))"
proof -
  from requireSigV4_Inr[OF run] obtain cred cc where c: "ParseAuthorization (header_get (r_header r) ''Authorization'') = Inr cred"
    "lookup t flt e (cAccessKey cred) d = (Inr cc, d')" "Verify now r cred (ccSecretKey cc) maxClockSkew = None"
    "p = \<lparr>pUserID = ccUserID cc, pAccessKey = cAccessKey cred\<rparr>" by auto
  from lookup_answered[OF ok c(2)] obtain k cr s where x: "d' = d" "t = ag_token cfg" "stored_credential B d k = Some cr"
    "cdRevokedAt cr = None" "decrypt (ag_master cfg) (cdSecretKeyEncrypted cr) = Inr s"
    "cc = \<lparr>ccUserID = cdUserID cr, ccSecretKey = s\<rparr>" "segment (cAccessKey cred) \<longrightarrow> k = cAccessKey cred" by blast
  with c show ?thesis by (intro conjI exI[of _ cred] exI[of _ k] exI[of _ cr] exI[of _ s]) simp_all
qed

lemma live_accepted:
  assumes "auth_ok cfg B d" and "stored_credential B d k = Some c" "cdRevokedAt c = None"
    and "decrypt (ag_master cfg) (cdSecretKeyEncrypted c) = Inr s" and "ag_token cfg \<noteq> []"
    and "ParseAuthorization (header_get (r_header r) ''Authorization'') = Inr cred" and k: "cAccessKey cred = k"
    and "cRegion cred = sigv4Region" "cService cred = sigv4Service" and "Verify now r cred s maxClockSkew = None"
  shows "check (ag_token cfg) (\<lambda>_. Delivered) e now r d = (Inr \<lparr>pUserID = cdUserID c, pAccessKey = k\<rparr>, d)"
proof -
  from lookup_live[OF assms(1-3,5) refl] assms(4)
  have "lookup (ag_token cfg) (\<lambda>_. Delivered) e k d = (Inr \<lparr>ccUserID = cdUserID c, ccSecretKey = s\<rparr>, d)" by auto
  then have "ac_lookup (HTTPAuthClient (ag_token cfg) (auth_transport chi cfg B (\<lambda>_. Delivered) e)) (cAccessKey cred) d
      = (Inr \<lparr>ccUserID = cdUserID c, ccSecretKey = s\<rparr>, d)" using k by simp
  from requireSigV4_accepts[OF assms(6,8,9) this] assms(10) k show ?thesis by simp
qed

lemma dead_refused:
  assumes "auth_ok cfg B d" and "segment k" and "\<And>c. stored_credential B d k = Some c \<Longrightarrow> cdRevokedAt c \<noteq> None"
    and "ParseAuthorization (header_get (r_header r) ''Authorization'') = Inr cred" and "cAccessKey cred = k"
  shows "fst (check t flt e now r d) \<noteq> Inr p"
proof
  assume "fst (check t flt e now r d) = Inr p"
  then obtain d' where "check t flt e now r d = (Inr p, d')" by (cases "check t flt e now r d") auto
  from accepted_owner[OF assms(1) this] assms(2-5) show False by fastforce
qed

text \<open>A credential in the later states.\<close>

lemma steps_credential:
  assumes "auth_ok cfg B d" and "(auth_step cfg B)\<^sup>*\<^sup>* d d'" and "stored_credential B d k = Some c"
  shows "auth_ok cfg B d'" and "\<exists>c'. stored_credential B d' k = Some c' \<and> credential_evolves c c'"
proof -
  from auth_steps_ok[OF assms(2,1)] have s: "auth_ok cfg B d'" "auth_evolves B d d'" by simp_all
  then show "auth_ok cfg B d'" by simp
  from s(2) assms(3) show "\<exists>c'. stored_credential B d' k = Some c' \<and> credential_evolves c c'"
    unfolding auth_evolves_def by blast
qed

lemma credential_evolves_facts:
  "credential_evolves c c' \<Longrightarrow> cdUserID c' = cdUserID c \<and> cdSecretKeyEncrypted c' = cdSecretKeyEncrypted c
     \<and> (cdRevokedAt c \<noteq> None \<longrightarrow> cdRevokedAt c' \<noteq> None)"
  by (auto simp: credential_evolves_def)

lemma issued_credential_state:
  assumes ok: "auth_ok cfg B d0" and e: "auth_env_ok e0"
    and iss: "IssueCredential (ag_master cfg) UR CR e0 i d0 = (Inr x, d1)" and steps: "(auth_step cfg B)\<^sup>*\<^sup>* d1 d"
  shows "auth_ok cfg B d \<and> access_key_form (isAccessKey x)
    \<and> (\<exists>c. stored_credential B d (isAccessKey x) = Some c \<and> cdUserID c = i
        \<and> decrypt (ag_master cfg) (cdSecretKeyEncrypted c) = Inr (isSecretKey x))"
proof -
  from ok have a: "auth_inv B d0" "secrets_ok (ag_master cfg) (stored_user B d0) (stored_credential B d0)"
    "no_admins (stored_user B d0)" by (simp_all add: auth_ok_def)
  from e have r: "rand_ok e0" by (simp add: auth_env_ok_def)
  from svc.IssueCredential_keeps[OF a(1) r a(2,3) iss] have ok1: "auth_ok cfg B d1" by (simp add: auth_ok_def)
  from svc.IssueCredential_Inr[OF a(1) r iss] obtain c where c: "access_key_form (isAccessKey x)"
    "stored_credential B d1 (isAccessKey x) = Some c" "cdUserID c = i"
    "decrypt (ag_master cfg) (cdSecretKeyEncrypted c) = Inr (isSecretKey x)" by force
  from steps_credential[OF ok1 steps c(2)] c credential_evolves_facts[of c] show ?thesis by metis
qed

lemma revoked_for_good:
  assumes ok: "auth_ok cfg B d" and form: "access_key_form k" and rev: "RevokeCredential CR f k d = (Inr y, d2)"
    and steps: "(auth_step cfg B)\<^sup>*\<^sup>* d2 d3"
    and q: "ParseAuthorization (header_get (r_header r) ''Authorization'') = Inr cred" "cAccessKey cred = k"
  shows "fst (check t flt e now r d3) \<noteq> Inr p"
proof -
  from ok have a: "auth_inv B d" "secrets_ok (ag_master cfg) (stored_user B d) (stored_credential B d)"
    "no_admins (stored_user B d)" by (simp_all add: auth_ok_def)
  from svc.RevokeCredential_keeps[OF a rev] have ok2: "auth_ok cfg B d2" by (simp add: auth_ok_def)
  from svc.RevokeCredential_Inr[OF a(1) rev] obtain c where c: "stored_credential B d2 k = Some c" "cdRevokedAt c \<noteq> None"
    by auto
  from steps_credential[OF ok2 steps c(1)] credential_evolves_facts[of c] c(2)
  have d3: "auth_ok cfg B d3" "\<And>c'. stored_credential B d3 k = Some c' \<Longrightarrow> cdRevokedAt c' \<noteq> None" by force+
  show ?thesis by (rule dead_refused[OF d3(1) access_key_segment[OF form] d3(2) q])
qed

end

end
