(* ===== verification/Access_Properties.thy ===== *)
theory Access_Properties
  imports Auth_Properties Auth_Access Sig_Properties
begin

text \<open>
  The properties of credentials, from their issue to the requests signed with them, and of the start
  of auth-service, with witnesses on the sample run: the user of the sample gets a credential and signs
  a request with it.
\<close>

context auth_backend
begin

lemmas run_accepted = accepted_owner
lemmas run_live = live_accepted
lemmas run_issued = issued_credential_state
lemmas run_revoked = revoked_for_good

end

context roomy_auth
begin

lemmas run_outcome = svc.IssueCredential_outcome

end

section \<open>A sample credential\<close>

lemma u_issue:
  "\<exists>x d. IssueCredential (ag_master u_cfg) (BoltUserRepository mem_bolt) (BoltCredentialRepository mem_bolt) u_env ''u1''
     u_registered = (Inr x, d)"
proof -
  from u_registered_state(1) have inv: "auth_inv mem_bolt u_registered" by (simp add: auth_ok_def)
  have mk: "aes_key_ok (ag_master u_cfg)" by (simp add: u_cfg_def aes_key_ok_def)
  obtain k where "generateAccessKey u_env (2 + 0) = Inr k" using generateAccessKey_total[OF u_env_ok(1)] by blast
  from u.run_issue_total[OF inv u_env_ok(1) mk u_registered_state(2) _ _ this u_registered_state(3)]
  show ?thesis by (simp add: maxAccessKeyRetries_def)
qed

definition s_unsigned :: "string \<Rightarrow> credential" where
  "s_unsigned k = \<lparr>cAccessKey = k, cDate = ''20260101'', cRegion = sigv4Region, cService = sigv4Service,
     cSignedHeaders = [''host'', ''x-amz-date''], cSignature = ''0''\<rparr>"

definition s_cred :: "string \<Rightarrow> string \<Rightarrow> credential" where
  "s_cred k secret = (s_unsigned k)\<lparr>cSignature := expected_signature g_request (s_unsigned k) secret ''20260101T000000Z''\<rparr>"

definition s_request :: "string \<Rightarrow> string \<Rightarrow> http_request" where
  "s_request k secret = g_request\<lparr>r_header := g_header @ [(''Authorization'', [authorization_header (s_cred k secret)])]\<rparr>"

lemma s_cred_sel [simp]:
  "cAccessKey (s_cred k s) = k" "cRegion (s_cred k s) = sigv4Region" "cService (s_cred k s) = sigv4Service"
  "cSignedHeaders (s_cred k s) = [''host'', ''x-amz-date'']"
  by (simp_all add: s_cred_def s_unsigned_def)

lemma s_canonical_names:
  "canonical_header ''X-Amz-Date'' = ''X-Amz-Date''" "canonical_header ''x-amz-date'' = ''X-Amz-Date''"
  "canonical_header ''Authorization'' = ''Authorization''"
  "canonical_header ''X-Amz-Content-Sha256'' = ''X-Amz-Content-Sha256''"
  by code_simp+

lemma s_headers:
  "header_get (r_header (s_request k s)) ''Authorization'' = authorization_header (s_cred k s)"
  "header_get (r_header (s_request k s)) ''X-Amz-Date'' = ''20260101T000000Z''"
  by (simp_all add: s_request_def g_header_def header_get_def header_values_def s_canonical_names)

lemma s_text_ok: "access_key_form k \<Longrightarrow> credential_text_ok (s_cred k s)"
proof -
  assume "access_key_form k"
  then have "\<forall>c \<in> set k. access_key_char c" by (simp add: access_key_form_def list_all_iff)
  then have k: "\<forall>x \<in> set k. graphic x \<and> x \<noteq> CHR '','' \<and> x \<noteq> CHR ''/''"
    by (auto simp: access_key_char_def graphic_def byte_in_def)
  let ?sig = "expected_signature g_request (s_unsigned k) s ''20260101T000000Z''"
  have "\<forall>x \<in> set ?sig. hex_char x" by (auto simp: expected_signature_def dest: hex_encode_chars)
  then have sg: "\<forall>x \<in> set ?sig. graphic x \<and> x \<noteq> CHR '',''"
    by (auto simp: hex_char_def graphic_def byte_in_def)
  have "length ?sig = 64" by (simp add: expected_signature_def)
  then have ne: "?sig \<noteq> []" by auto
  have r: "\<forall>x \<in> set sigv4Region. graphic x \<and> x \<noteq> CHR '','' \<and> x \<noteq> CHR ''/''"
    "\<forall>x \<in> set sigv4Service. graphic x \<and> x \<noteq> CHR '','' \<and> x \<noteq> CHR ''/''"
    "\<forall>x \<in> set ''20260101''. graphic x \<and> x \<noteq> CHR '','' \<and> x \<noteq> CHR ''/''"
    by (auto simp: sigv4Region_def sigv4Service_def graphic_def byte_in_def)
  have h: "\<forall>h \<in> set [''host'', ''x-amz-date'']. h \<noteq> []
      \<and> (\<forall>x \<in> set h. graphic x \<and> x \<noteq> CHR '','' \<and> x \<noteq> CHR '';'' \<and> to_lower x = x)"
    by (auto simp: graphic_def byte_in_def to_lower_def)
  have o: "sorted [''host'', ''x-amz-date'']" by code_simp
  from k sg ne r h o show ?thesis
    by (simp add: credential_text_ok_def s_cred_def s_unsigned_def)
qed

lemma s_signature: "expected_signature (s_request k s) (s_cred k s) key date = expected_signature g_request (s_unsigned k) key date"
proof -
  have "header_line (s_request k s) h = header_line g_request h" if "h \<in> set [''host'', ''x-amz-date'']" for h
    using that by (auto simp: header_line_def header_line_values_def s_request_def g_request_def g_header_def
        header_values_def s_canonical_names)
  moreover have "content_sha256 (s_request k s) = content_sha256 g_request"
    by (simp add: content_sha256_def s_request_def g_request_def g_header_def header_get_def header_values_def s_canonical_names)
  ultimately have "buildCanonicalRequest (s_request k s) [''host'', ''x-amz-date'']
      = buildCanonicalRequest g_request [''host'', ''x-amz-date'']"
    by (simp add: buildCanonicalRequest_def s_request_def)
  then show ?thesis by (simp add: expected_signature_def string_to_sign_def s_cred_def s_unsigned_def)
qed

lemma s_verifies: "Verify g_now (s_request k s) (s_cred k s) s maxClockSkew = None"
proof -
  have "cSignature (s_cred k s) = expected_signature g_request (s_unsigned k) s ''20260101T000000Z''" by (simp add: s_cred_def)
  moreover have "duration_since g_now (g_now - 300 * second) = 300 * second"
    by (simp add: duration_since_def second_def)
  ultimately show ?thesis
    by (auto simp: Verify_None s_headers(2) g_date s_signature expected_signature_lower maxClockSkew_def second_def)
qed

lemma s_parsed:
  "access_key_form k \<Longrightarrow> ParseAuthorization (header_get (r_header (s_request k s)) ''Authorization'') = Inr (s_cred k s)"
  unfolding s_headers by (rule ParseAuthorization_printed[OF s_text_ok])

text \<open>The user of the sample gets the credential over HTTP, with an access token.\<close>

lemma s_bearer: "\<exists>h. requireAuth u_cfg u_env h = Inr \<lparr>apUserID = ''u1'', apIsAdmin = False\<rparr>"
proof -
  have p: "ag_jwt u_cfg = plain_jwt" by (simp add: u_cfg_def)
  obtain a where a: "mintAccessToken plain_jwt (ag_secret u_cfg) 0 u_amy = Inr a" using plain_jwt.mint_total(1) by blast
  have inv: "auth_inv mem_bolt u_registered" using u_registered_state(1) by (simp add: auth_ok_def)
  have v: "VerifyAccessToken plain_jwt (ag_secret u_cfg) (ae_now u_env 0) a = Inr \<lparr>apUserID = ''u1'', apIsAdmin = uIsAdmin u_amy\<rparr>"
    by (rule u.run_verify[OF inv u_registered_state(2), unfolded p, OF a])
      (simp add: accessTokenTTL_def plain_jwt_def second_def u_env_def)
  have "hs256_signed (ag_secret u_cfg) a" using u.run_verified[unfolded p, OF v] by blast
  then have ne: "a \<noteq> []" by (auto simp: hs256_signed_def)
  have "requireAuth u_cfg u_env [(''Authorization'', [''Bearer '' @ a])] = Inr \<lparr>apUserID = ''u1'', apIsAdmin = False\<rparr>"
    using v ne by (simp add: requireAuth_def Let_def header_get_def header_values_def s_canonical_names p u_amy_def)
  then show ?thesis by blast
qed

lemma s_issued:
  "\<exists>x d c. IssueCredential (ag_master u_cfg) (BoltUserRepository mem_bolt) (BoltCredentialRepository mem_bolt) u_env ''u1''
       u_registered = (Inr x, d) \<and> auth_reachable u_cfg mem_bolt d \<and> access_key_form (isAccessKey x)
     \<and> stored_credential mem_bolt d (isAccessKey x) = Some c \<and> cdUserID c = ''u1'' \<and> cdRevokedAt c = None
     \<and> decrypt (ag_master u_cfg) (cdSecretKeyEncrypted c) = Inr (isSecretKey x)"
proof -
  obtain x d where iss: "IssueCredential (ag_master u_cfg) (BoltUserRepository mem_bolt) (BoltCredentialRepository mem_bolt)
      u_env ''u1'' u_registered = (Inr x, d)" using u_issue by blast
  obtain h where "requireAuth u_cfg u_env h = Inr \<lparr>apUserID = ''u1'', apIsAdmin = False\<rparr>" using s_bearer by blast
  with iss have "auth_serve u_cfg mem_bolt u_env h (UCreateCredential ''u1'') u_registered
      = (write_json StatusCreated (credentialIssuedResponse_json x), d)"
    by (simp add: authenticated_def a_createCredential_def requireSelfOrAdmin_def)
  from auth_reachable.stepped[OF u_registered_reachable auth_step.served[OF u_env_ok(2) this]]
  have re: "auth_reachable u_cfg mem_bolt d" .
  have inv: "auth_inv mem_bolt u_registered" using u_registered_state(1) by (simp add: auth_ok_def)
  from u.run_issue[OF inv u_env_ok(3) iss] iss re show ?thesis by force
qed

section \<open>Properties\<close>

text \<open>
  C36: on a store that does not fail, with random bytes at hand and a valid master key, issuing a
  credential to a user ends: with the first of the five access keys it draws that is free, or, when all
  five are taken, with the error of an existing record and the database as it was.
\<close>

theorem issue_credential_terminates:
  assumes "bolt_roomy B" and "jwt_laws (ag_jwt cfg)" and "bcrypt_laws (ag_bcrypt cfg)" and "auth_reachable cfg B d"
    and "auth_env_calm e" and "aes_key_ok (ag_master cfg)" and "stored_user B d i = Some u" and "i \<noteq> []"
  shows "if \<exists>j < maxAccessKeyRetries. \<exists>k. generateAccessKey e (2 + j) = Inr k \<and> stored_credential B d k = None
    then \<exists>x d' m. IssueCredential (ag_master cfg) (BoltUserRepository B) (BoltCredentialRepository B) e i d = (Inr x, d')
        \<and> m < maxAccessKeyRetries \<and> generateAccessKey e (2 + m) = Inr (isAccessKey x)
        \<and> stored_credential B d (isAccessKey x) = None
        \<and> (\<forall>j < m. \<exists>k. generateAccessKey e (2 + j) = Inr k \<and> stored_credential B d k \<noteq> None)
    else IssueCredential (ag_master cfg) (BoltUserRepository B) (BoltCredentialRepository B) e i d
        = (Inl (Sentinel ErrAlreadyExists), d)"
proof -
  note R = roomy_authI[OF assms(1-3)]
  have "bolt_store B" using assms(1) by (simp add: bolt_roomy_def bolt_healthy_def)
  from auth_deployment.run_reachable[OF auth_deploymentI[OF this assms(2,3)] assms(4)]
  have "auth_inv B d" by (simp add: auth_ok_def)
  from roomy_auth.run_outcome[OF R this assms(5-8)] show ?thesis .
qed

theorem issue_credential_terminates_witness:
  "\<exists>x d. IssueCredential (ag_master u_cfg) (BoltUserRepository mem_bolt) (BoltCredentialRepository mem_bolt) u_env ''u1''
     u_registered = (Inr x, d)"
proof -
  have mk: "aes_key_ok (ag_master u_cfg)" by (simp add: u_cfg_def aes_key_ok_def)
  obtain k where "generateAccessKey u_env (2 + 0) = Inr k" using generateAccessKey_total[OF u_env_ok(1)] by blast
  then have "\<exists>j < maxAccessKeyRetries. \<exists>k. generateAccessKey u_env (2 + j) = Inr k \<and> stored_credential mem_bolt u_registered k = None"
    by (intro exI[of _ 0] conjI exI[of _ k]) (simp_all add: maxAccessKeyRetries_def u_registered_state(3))
  with issue_credential_terminates[OF mem_roomy.bolt_roomy_axioms u_laws u_registered_reachable u_env_ok(1) mk u_registered_state(2)]
  show ?thesis by auto
qed

text \<open>
  C37: what is stored of a secret opens to it under the same master key, and nothing opens under a
  master key that is not the base64 text of a nonce of 12 bytes and the AES-GCM seal of the result.
  A seal is not bound to its record: put into the record of another access key, as it may be in a
  database that was tampered with, it opens there too, and the lookup answers with its secret as if it
  were the one of the owner of that record.
\<close>

theorem secrets_at_rest:
  assumes "rand_ok e" and "encrypt mk e n s = Inr x"
  shows "decrypt mk x = Inr s
    \<and> (\<forall>y t. decrypt mk y = Inr t \<longleftrightarrow>
         (\<exists>nonce. length nonce = 12 \<and> b64_decode y = Some (nonce @ gcm_seal (aes_block mk) nonce t)))
    \<and> (\<forall>(CR :: 'd credential_repository) k d c. k \<noteq> [] \<longrightarrow> cr_get CR k d = Inr (c\<lparr>cdSecretKeyEncrypted := x\<rparr>) \<longrightarrow>
         LookupCredential mk CR k d = Inr \<lparr>luUserID = cdUserID c, luSecretKey = s\<rparr>)"
proof (intro conjI allI impI)
  show "decrypt mk x = Inr s" by (rule decrypt_encrypt[OF assms])
  from assms(2) have "aes_key_ok mk" by (simp add: encrypt_Inr)
  then show "decrypt mk y = Inr t \<longleftrightarrow>
      (\<exists>nonce. length nonce = 12 \<and> b64_decode y = Some (nonce @ gcm_seal (aes_block mk) nonce t))" for y t
    using decrypt_Inr by blast
  show "LookupCredential mk CR k d = Inr \<lparr>luUserID = cdUserID c, luSecretKey = s\<rparr>"
    if "k \<noteq> []" "cr_get CR k d = Inr (c\<lparr>cdSecretKeyEncrypted := x\<rparr>)" for CR :: "'d credential_repository" and k d c
    using that by (simp add: LookupCredential_def decrypt_encrypt[OF assms])
qed

text \<open>A repository with the record of bob, into which the seal of another secret was put.\<close>

definition swapped_record :: "string \<Rightarrow> credential_record" where
  "swapped_record x = \<lparr>cdAccessKey = ''AKIABOB'', cdUserID = ''bob'', cdSecretKeyEncrypted = x, cdCreatedAt = 0, cdRevokedAt = None\<rparr>"

theorem secrets_at_rest_witness:
  "\<exists>x. encrypt (ag_master u_cfg) u_env 1 ''secret'' = Inr x \<and> decrypt (ag_master u_cfg) x = Inr ''secret''
     \<and> LookupCredential (ag_master u_cfg)
         ((BoltCredentialRepository mem_bolt)\<lparr>cr_get := \<lambda>k d. Inr (swapped_record x)\<rparr>) ''AKIABOB'' u_registered
       = Inr \<lparr>luUserID = ''bob'', luSecretKey = ''secret''\<rparr>"
proof -
  obtain x where x: "encrypt (ag_master u_cfg) u_env 1 ''secret'' = Inr x"
    by (auto simp: encrypt_def cs_gcm_def u_cfg_def aes_key_ok_def u_env_def)
  let ?CR = "(BoltCredentialRepository mem_bolt)\<lparr>cr_get := \<lambda>k d. Inr (swapped_record x)\<rparr>"
  note p = secrets_at_rest[OF u_env_ok(3) x]
  have "cr_get ?CR ''AKIABOB'' u_registered = Inr ((swapped_record [])\<lparr>cdSecretKeyEncrypted := x\<rparr>)"
    by (simp add: swapped_record_def)
  then have "LookupCredential (ag_master u_cfg) ?CR ''AKIABOB'' u_registered
      = Inr \<lparr>luUserID = cdUserID (swapped_record []), luSecretKey = ''secret''\<rparr>"
    by (rule p[THEN conjunct2, THEN conjunct2, rule_format, rotated]) simp
  with x p[THEN conjunct1] show ?thesis by (intro exI[of _ x]) (simp add: swapped_record_def)
qed

text \<open>
  C38: a request that passes the signature check of api-service in front of auth-service, over any
  network, is attributed to the owner of a credential that exists and is not revoked, the request
  carries a signature made with the secret of this credential, and the access key named in the request
  is the one of the credential, if it is a plain path segment; the token of the client is the internal
  token of auth-service, whose database is not changed.
\<close>

theorem accepted_requests_name_the_owner:
  assumes "bolt_store B" and "jwt_laws (ag_jwt cfg)" and "bcrypt_laws (ag_bcrypt cfg)" and "chi_law chi"
    and "auth_reachable cfg B d"
    and "requireSigV4 (HTTPAuthClient t (auth_transport chi cfg B flt e)) now r d = (Inr p, d')"
  shows "d' = d \<and> t = ag_token cfg
    \<and> (\<exists>cred k c s. ParseAuthorization (header_get (r_header r) ''Authorization'') = Inr cred
        \<and> stored_credential B d k = Some c \<and> cdRevokedAt c = None
        \<and> decrypt (ag_master cfg) (cdSecretKeyEncrypted c) = Inr s
        \<and> Verify now r cred s maxClockSkew = None
        \<and> pUserID p = cdUserID c \<and> pAccessKey p = cAccessKey cred
        \<and> (segment (cAccessKey cred) \<longrightarrow> k = cAccessKey cred))"
  by (rule auth_backend.run_accepted[OF auth_backendI[OF assms(1-4)]
        auth_deployment.run_reachable[OF auth_deploymentI[OF assms(1-3)] assms(5)] assms(6)])

theorem accepted_requests_name_the_owner_witness:
  "\<exists>(x :: issued_credential) d. requireSigV4 (HTTPAuthClient ''tok'' (auth_transport first_route u_cfg mem_bolt (\<lambda>_. Delivered) u_env))
       g_now (s_request (isAccessKey x) (isSecretKey x)) d = (Inr \<lparr>pUserID = ''u1'', pAccessKey = isAccessKey x\<rparr>, d)
     \<and> (\<exists>k c. stored_credential mem_bolt d k = Some c \<and> cdRevokedAt c = None \<and> cdUserID c = ''u1'')"
proof -
  from s_issued obtain x :: issued_credential and d c where d: "auth_reachable u_cfg mem_bolt d" and k: "access_key_form (isAccessKey x)"
    and c: "stored_credential mem_bolt d (isAccessKey x) = Some c" "cdUserID c = ''u1''" "cdRevokedAt c = None"
    "decrypt (ag_master u_cfg) (cdSecretKeyEncrypted c) = Inr (isSecretKey x)" by blast
  have tok: "ag_token u_cfg \<noteq> []" "ag_token u_cfg = ''tok''" by (simp_all add: u_cfg_def)
  from ub.run_live[OF u.run_reachable[OF d] c(1,3,4) tok(1) s_parsed[OF k] s_cred_sel(1-3) s_verifies, of u_env] c(2)
  have run: "requireSigV4 (HTTPAuthClient ''tok'' (auth_transport first_route u_cfg mem_bolt (\<lambda>_. Delivered) u_env))
      g_now (s_request (isAccessKey x) (isSecretKey x)) d = (Inr \<lparr>pUserID = ''u1'', pAccessKey = isAccessKey x\<rparr>, d)"
    unfolding tok(2) by simp
  with accepted_requests_name_the_owner[OF mem.bolt_store_axioms u_laws first_route.law d run] show ?thesis by fastforce
qed

text \<open>
  C39: an access key works until it is revoked.  In every state of auth-service after the key was
  issued, a request that is signed with the issued secret and reaches auth-service is accepted and
  attributed to the user for whom the key was issued, as long as the credential is not revoked; after
  a revocation no request that names the key is accepted in any later state, over any network.
\<close>

theorem issued_keys_work_until_revoked:
  assumes "bolt_store B" and "jwt_laws (ag_jwt cfg)" and "bcrypt_laws (ag_bcrypt cfg)" and "chi_law chi"
    and "auth_reachable cfg B d0" and "auth_env_ok e0" and tok: "ag_token cfg \<noteq> []"
    and iss: "IssueCredential (ag_master cfg) (BoltUserRepository B) (BoltCredentialRepository B) e0 i d0 = (Inr x, d1)"
    and steps: "(auth_step cfg B)\<^sup>*\<^sup>* d1 d"
    and par: "ParseAuthorization (header_get (r_header r) ''Authorization'') = Inr cred" and k: "cAccessKey cred = isAccessKey x"
    and reg: "cRegion cred = sigv4Region" "cService cred = sigv4Service"
    and ver: "Verify now r cred (isSecretKey x) maxClockSkew = None"
  shows "\<exists>c. stored_credential B d (isAccessKey x) = Some c
    \<and> (cdRevokedAt c = None \<longrightarrow>
         requireSigV4 (HTTPAuthClient (ag_token cfg) (auth_transport chi cfg B (\<lambda>_. Delivered) e)) now r d
           = (Inr \<lparr>pUserID = i, pAccessKey = isAccessKey x\<rparr>, d))
    \<and> (\<forall>f d2 d3 t flt e3 now3 p.
         RevokeCredential (BoltCredentialRepository B) f (isAccessKey x) d = (Inr (), d2) \<longrightarrow> (auth_step cfg B)\<^sup>*\<^sup>* d2 d3 \<longrightarrow>
         fst (requireSigV4 (HTTPAuthClient t (auth_transport chi cfg B flt e3)) now3 r d3) \<noteq> Inr p)"
proof -
  note L = auth_backendI[OF assms(1-4)]
  note ok0 = auth_deployment.run_reachable[OF auth_deploymentI[OF assms(1-3)] assms(5)]
  from auth_backend.run_issued[OF L ok0 assms(6) iss steps] obtain c where ok: "auth_ok cfg B d"
    and form: "access_key_form (isAccessKey x)" and c: "stored_credential B d (isAccessKey x) = Some c" "cdUserID c = i"
    "decrypt (ag_master cfg) (cdSecretKeyEncrypted c) = Inr (isSecretKey x)" by blast
  from auth_backend.run_live[OF L ok c(1) _ c(3) tok par k reg ver] auth_backend.run_revoked[OF L ok form _ _ par k] c
  show ?thesis by (intro exI[of _ c]) blast
qed

theorem issued_keys_work_until_revoked_witness:
  "\<exists>x d. IssueCredential (ag_master u_cfg) (BoltUserRepository mem_bolt) (BoltCredentialRepository mem_bolt) u_env ''u1''
      u_registered = (Inr x, d)
    \<and> (\<exists>c. stored_credential mem_bolt d (isAccessKey x) = Some c \<and> cdRevokedAt c = None)
    \<and> requireSigV4 (HTTPAuthClient ''tok'' (auth_transport first_route u_cfg mem_bolt (\<lambda>_. Delivered) u_env))
        g_now (s_request (isAccessKey x) (isSecretKey x)) d = (Inr \<lparr>pUserID = ''u1'', pAccessKey = isAccessKey x\<rparr>, d)"
proof -
  from s_issued obtain x d c where iss: "IssueCredential (ag_master u_cfg) (BoltUserRepository mem_bolt)
      (BoltCredentialRepository mem_bolt) u_env ''u1'' u_registered = (Inr x, d)"
    and c: "access_key_form (isAccessKey x)" "stored_credential mem_bolt d (isAccessKey x) = Some c" "cdRevokedAt c = None"
    by blast
  have tok: "ag_token u_cfg \<noteq> []" "ag_token u_cfg = ''tok''" by (simp_all add: u_cfg_def)
  from issued_keys_work_until_revoked[OF mem.bolt_store_axioms u_laws first_route.law u_registered_reachable u_env_ok(2)
      tok(1) iss rtranclp.rtrancl_refl s_parsed[OF c(1)] s_cred_sel(1-3) s_verifies, of u_env] c
  have "requireSigV4 (HTTPAuthClient (ag_token u_cfg) (auth_transport first_route u_cfg mem_bolt (\<lambda>_. Delivered) u_env))
      g_now (s_request (isAccessKey x) (isSecretKey x)) d = (Inr \<lparr>pUserID = ''u1'', pAccessKey = isAccessKey x\<rparr>, d)" by auto
  with iss c show ?thesis unfolding tok(2) by blast
qed

text \<open>
  C40: auth-service starts exactly when its JWT secret has at least 32 bytes, its internal token is not
  empty, its master key is the base64 text of 32 bytes, and the database can be opened; it then runs
  with just these.  No shorter secret is accepted, whatever else is configured.
\<close>

theorem service_starts_only_configured:
  "auth_start J Bc B env mkdir disk = Inr (cfg, d) \<longleftrightarrow>
     32 \<le> length (env ''AUTH_SERVICE_JWT_SECRET'') \<and> env ''AUTH_SERVICE_INTERNAL_TOKEN'' \<noteq> []
     \<and> (\<exists>k. b64_decode (env ''AUTH_SERVICE_MASTER_KEY'') = Some k \<and> length k = 32
          \<and> cfg = \<lparr>ag_jwt = J, ag_bcrypt = Bc, ag_secret = env ''AUTH_SERVICE_JWT_SECRET'', ag_master = k,
                   ag_token = env ''AUTH_SERVICE_INTERNAL_TOKEN''\<rparr>)
     \<and> auth_open B (getenv_or env ''AUTH_SERVICE_DB_PATH'' ''data/auth.db'') mkdir disk = Inr d"
  by (rule auth_start_iff)

end
