(* ===== verification/Service_Process.thy ===== *)
theory Service_Process
  imports Service_Config Api_Compose Meta_Total
begin

text \<open>
  The processes (\<open>cmd/server/main.go\<close> of each service): what \<open>main\<close> builds before it listens, and
  the life of the process after that, which is the same code in all four.  One goroutine listens and
  ends the process with status 1 when that fails; the main one waits for a signal, gives the running
  requests ten seconds, and closes the store.  The life of metadata-service is then put together with
  its interleaved requests and with restarts, also after it was killed.
\<close>

section \<open>Starting\<close>

text \<open>data-service and api-service; the transports stand for the addresses in the configuration.\<close>

definition data_start ::
    "environment \<Rightarrow> data_env \<Rightarrow> fsys \<Rightarrow> ((go_error + os_error) + path) \<times> fsys" where
  "data_start env de fs =
     (case data_Load env of
        Inl err \<Rightarrow> (Inl (Inl err), fs)
      | Inr cfg \<Rightarrow>
          (let base = path_join [] [dsDataDir cfg]
           in case NewLocalStore base de fs of
                (Inl err, fs') \<Rightarrow> (Inl (Inr err), fs')
              | (Inr _, fs') \<Rightarrow> (Inr base, fs')))"

definition api_start ::
    "chi \<Rightarrow> 'd bolt \<Rightarrow> path \<Rightarrow> net \<Rightarrow> 'd system transport \<Rightarrow> environment \<Rightarrow> go_error + 'd system server" where
  "api_start chi B base net auth env =
     (case api_Load env of
        Inl err \<Rightarrow> Inl err
      | Inr cfg \<Rightarrow> Inr (api_server chi B base net (HTTPAuthClient (asInternalToken cfg) auth)))"

section \<open>The life of a process\<close>

definition shutdownTimeout :: int where
  "shutdownTimeout = 10 * second"

text \<open>
  A process serves, or drains until a deadline, or has exited with a status.  It counts the requests
  it is handling, and knows whether it has closed its store.
\<close>

datatype phase = Serving | Draining int | Exited nat

record process =
  pc_phase :: phase
  pc_clock :: int
  pc_active :: nat
  pc_closed :: bool

definition launched :: "int \<Rightarrow> process" where
  "launched t = \<lparr>pc_phase = Serving, pc_clock = t, pc_active = 0, pc_closed = False\<rparr>"

text \<open>
  A start that failed ends the process with status 1; \<open>os.Exit\<close> and \<open>log.Fatalf\<close> run no deferred
  call, so nothing is closed.
\<close>

definition main_process :: "('e + 'a) \<Rightarrow> int \<Rightarrow> process" where
  "main_process started t =
     (case started of Inl _ \<Rightarrow> (launched t)\<lparr>pc_phase := Exited 1\<rparr> | Inr _ \<Rightarrow> launched t)"

text \<open>
  What happens to a process: a request starts or is answered, time passes, \<open>ListenAndServe\<close> fails, an
  interrupt or termination signal arrives, \<open>Shutdown\<close> returns, or the process is killed.
\<close>

datatype process_event = Accepted | Answered | Elapsed nat | ListenFailed | Signalled | ShutdownReturns | Killed

text \<open>
  \<open>signal.Notify\<close> has a buffer of one and nobody reads it again, so a second signal does nothing.  A
  connection that was accepted before the shutdown can still send a request.  \<open>Shutdown\<close> returns when
  no request is running, or when its context has expired; either way \<open>main\<close> returns, the deferred
  call closes the store, and the status is 0.
\<close>

definition exited :: "process \<Rightarrow> bool" where
  "exited p \<longleftrightarrow> (case pc_phase p of Exited _ \<Rightarrow> True | _ \<Rightarrow> False)"

definition waitForShutdown :: "process \<Rightarrow> process" where
  "waitForShutdown p =
     (case pc_phase p of
        Serving \<Rightarrow> p\<lparr>pc_phase := Draining (pc_clock p + shutdownTimeout)\<rparr>
      | _ \<Rightarrow> p)"

definition shutdown_returns :: "process \<Rightarrow> process option" where
  "shutdown_returns p =
     (case pc_phase p of
        Draining deadline \<Rightarrow>
          if pc_active p = 0 \<or> deadline \<le> pc_clock p
          then Some (p\<lparr>pc_phase := Exited 0, pc_closed := True\<rparr>) else None
      | _ \<Rightarrow> None)"

fun process_step :: "process_event \<Rightarrow> process \<Rightarrow> process option" where
  "process_step Accepted p = (if exited p then None else Some (p\<lparr>pc_active := Suc (pc_active p)\<rparr>))"
| "process_step Answered p =
     (if exited p \<or> pc_active p = 0 then None else Some (p\<lparr>pc_active := pc_active p - 1\<rparr>))"
| "process_step (Elapsed n) p = (if exited p then None else Some (p\<lparr>pc_clock := pc_clock p + int n\<rparr>))"
| "process_step ListenFailed p = (if pc_phase p = Serving then Some (p\<lparr>pc_phase := Exited 1\<rparr>) else None)"
| "process_step Signalled p = (if exited p then None else Some (waitForShutdown p))"
| "process_step ShutdownReturns p = shutdown_returns p"
| "process_step Killed p = (if exited p then None else Some (p\<lparr>pc_phase := Exited 137\<rparr>))"

text \<open>The process closes its store last, and only on the way to status 0.\<close>

definition process_ok :: "process \<Rightarrow> bool" where
  "process_ok p \<longleftrightarrow> (pc_closed p \<longleftrightarrow> pc_phase p = Exited 0)"

lemma process_ok_launched [simp]: "process_ok (launched t)"
  by (simp add: process_ok_def launched_def)

lemma main_process_Inl [simp]: "pc_phase (main_process (Inl err) t) = Exited 1"
  by (simp add: main_process_def)

lemma main_process_Inr [simp]: "main_process (Inr x) t = launched t"
  by (simp add: main_process_def)

lemma exited_step: "exited p \<Longrightarrow> process_step ev p = None"
  by (cases ev) (auto simp: exited_def shutdown_returns_def split: phase.splits)

lemma process_step_ok: "process_step ev p = Some p' \<Longrightarrow> process_ok p \<Longrightarrow> process_ok p'"
  by (cases ev)
    (auto simp: process_ok_def exited_def waitForShutdown_def shutdown_returns_def split: if_splits phase.splits)

text \<open>When it can end with status 0.\<close>

lemma process_step_exit:
  "process_step ev p = Some p' \<Longrightarrow> pc_phase p' = Exited 0 \<Longrightarrow>
     ev = ShutdownReturns \<and> pc_active p' = pc_active p
     \<and> (\<exists>deadline. pc_phase p = Draining deadline \<and> (pc_active p = 0 \<or> deadline \<le> pc_clock p))"
  by (cases ev)
    (auto simp: exited_def waitForShutdown_def shutdown_returns_def split: if_splits phase.splits)

section \<open>The life of metadata-service\<close>

text \<open>
  The requests the process handles are those of \<open>conc_step\<close>; a request that is in the middle of a
  PutObject is not answered before its record is written.
\<close>

inductive life_step :: "'d bolt \<Rightarrow> process \<times> 'd meta_conc \<Rightarrow> process \<times> 'd meta_conc \<Rightarrow> bool" for B :: "'d bolt" where
  happens: "process_step ev p = Some p' \<Longrightarrow> (ev = Answered \<Longrightarrow> length (c_pending s) < pc_active p) \<Longrightarrow>
    life_step B (p, s) (p', s)"
| works: "\<not> exited p \<Longrightarrow> 0 < pc_active p \<Longrightarrow> conc_step B act s s' \<Longrightarrow> length (c_pending s') \<le> pc_active p \<Longrightarrow>
    life_step B (p, s) (p, s')"

inductive_cases life_stepE: "life_step B (p, s) (p', s')"

text \<open>
  The database files of metadata-service over all its lives: a new one, and what is left of one when
  the process that opened it has ended, in whatever way.
\<close>

inductive meta_disk :: "'d bolt \<Rightarrow> 'd \<Rightarrow> bool" for B :: "'d bolt" where
  new: "empty_db B d \<Longrightarrow> meta_disk B d"
| left: "meta_disk B d \<Longrightarrow> meta_start B env mkdir (Inr d) = Inr d' \<Longrightarrow>
    (life_step B)\<^sup>*\<^sup>* (launched t, \<lparr>c_db = d', c_pending = []\<rparr>) (p, s) \<Longrightarrow> exited p \<Longrightarrow>
    meta_disk B (c_db s)"

definition life_ok :: "'d bolt \<Rightarrow> process \<times> 'd meta_conc \<Rightarrow> bool" where
  "life_ok B ps \<longleftrightarrow> process_ok (fst ps) \<and> conc_inv B (snd ps) \<and> length (c_pending (snd ps)) \<le> pc_active (fst ps)"

lemma meta_start_Inr:
  "meta_start B env mkdir disk = Inr d' \<Longrightarrow>
     meta_open B (getenv_or env ''METADATA_SERVICE_DB_PATH'' ''data/metadata.db'') mkdir disk = Inr d'"
  by (simp add: meta_start_def meta_Load_def)

lemma process_step_active:
  "process_step ev p = Some p' \<Longrightarrow> (ev = Answered \<Longrightarrow> n < pc_active p) \<Longrightarrow> n \<le> pc_active p \<Longrightarrow> n \<le> pc_active p'"
  by (cases ev) (auto simp: waitForShutdown_def shutdown_returns_def split: if_splits phase.splits)

context bolt_store
begin

lemma life_step_ok: "life_step B ps ps' \<Longrightarrow> life_ok B ps \<Longrightarrow> life_ok B ps'"
proof (induction rule: life_step.induct)
  case (happens ev p p' s)
  then show ?case
    using process_step_ok[OF happens(1)] process_step_active[OF happens(1), of "length (c_pending s)"]
    by (simp add: life_ok_def)
next
  case (works p act s s')
  then show ?case using conc_step_inv[OF works(3)] by (simp add: life_ok_def)
qed

lemma life_steps_ok: "(life_step B)\<^sup>*\<^sup>* ps ps' \<Longrightarrow> life_ok B ps \<Longrightarrow> life_ok B ps'"
  by (induction rule: rtranclp_induct) (auto dest: life_step_ok)

text \<open>A file that was never used, or holds consistent data, is opened to consistent data.\<close>

lemma disk_start:
  assumes "empty_db B d \<or> meta_inv B d" and "meta_start B env mkdir (Inr d) = Inr d'"
  shows "life_ok B (launched t, \<lparr>c_db = d', c_pending = []\<rparr>)"
proof -
  have "meta_inv B d'"
    by (rule meta_inv_open[OF _ _ _ meta_open_bootstrap[OF meta_start_Inr[OF assms(2)]]])
      (use assms(1) empty_db_ok[of d] in \<open>auto simp: meta_inv_def\<close>)
  then show ?thesis by (simp add: life_ok_def conc_inv_def)
qed

lemma meta_disk_ok: "meta_disk B d \<Longrightarrow> empty_db B d \<or> meta_inv B d"
proof (induction rule: meta_disk.induct)
  case (new d)
  then show ?case by simp
next
  case (left d env mkdir d' t p s)
  from life_steps_ok[OF left(3) disk_start[OF left(5,2)]] show ?case by (simp add: life_ok_def conc_inv_def)
qed

lemma life_steps_of_disk:
  assumes "meta_disk B d" and "meta_start B env mkdir (Inr d) = Inr d'"
    and "(life_step B)\<^sup>*\<^sup>* (launched t, \<lparr>c_db = d', c_pending = []\<rparr>) (p, s)"
  shows "life_ok B (p, s)"
  by (rule life_steps_ok[OF assms(3) disk_start[OF meta_disk_ok[OF assms(1)] assms(2)]])

end

context bolt_store
begin

text \<open>Opening changes no data.\<close>

lemma restart_keeps:
  assumes "meta_inv B d" and "meta_start B env mkdir (Inr d) = Inr d'"
  shows "meta_inv B d' \<and> live_bucket B d' = live_bucket B d \<and> live_object B d' = live_object B d"
proof -
  note b = meta_open_bootstrap[OF meta_start_Inr[OF assms(2)]]
  have g: "bget B d' b k = bget B d b k" if "b \<noteq> BoltBucketMeta" for b k
    using bootstrap_keeps[OF b] that by blast
  have "live_bucket B d' = live_bucket B d" by (rule live_bucket_cong) (simp add: g)
  moreover have "live_object B d' = live_object B d" by (rule live_object_cong) (simp add: g)
  moreover have "meta_inv B d'" by (rule meta_inv_open[OF _ _ _ b]) (use assms(1) in \<open>simp_all add: meta_inv_def\<close>)
  ultimately show ?thesis by blast
qed

end

text \<open>On a disk without errors, metadata-service starts again on what it left.\<close>

lemma meta_names_ne: "[] \<notin> set meta_bolt_buckets"
  by (simp add: meta_bolt_buckets_def BoltBucketRecords_def BoltBucketOwnerIdx_def BoltBucketObjects_def BoltBucketMeta_def)

context bolt_roomy
begin

lemma disk_starts:
  assumes "empty_db B d \<or> meta_inv B d"
  shows "\<exists>d'. meta_start B env None (Inr d) = Inr d'"
proof -
  have "bget B d BoltBucketMeta schemaVersionKey \<in> {None, Some (Bytes (encodeVersion currentSchemaVersion))}"
    using assms by (auto simp: empty_db_def meta_inv_def opened_def)
  from bootstrap_ok[OF meta_names_ne meta_names(4) fits_all this] show ?thesis
    by (auto simp: meta_start_def meta_Load_def meta_open_def open_store_def)
qed

end

text \<open>From the signal on it takes at most the timeout until the process can end.\<close>

lemma deadline_bound:
  assumes "process_step Signalled p = Some p'" and "pc_phase p = Serving" and "process_step (Elapsed n) p' = Some p''"
    and "shutdownTimeout \<le> int n"
  shows "\<exists>q. process_step ShutdownReturns p'' = Some q \<and> pc_phase q = Exited 0"
  using assms by (auto simp: exited_def waitForShutdown_def shutdown_returns_def split: if_splits)

end
