(* ===== verification/Api_Messages.thy ===== *)
theory Api_Messages
  imports Api_Runs
begin

text \<open>
  The messages between api-service and the services behind it: what a call of a client returns is what
  the service holds after it, field by field, whatever the JSON tags of the two programs are in between.
\<close>

definition bucket_info_of :: "bucket \<Rightarrow> bucket_info" where
  "bucket_info_of b = \<lparr>biName = bName b, biOwnerID = bOwnerID b, biCreatedAt = bCreatedAt b\<rparr>"

section \<open>Answers\<close>

lemma decoded_bucket_info:
  "utf8_bucket b \<Longrightarrow> map_sum id toBucketInfo (decoded client_bucketResponse_fields zero_bucketResponse
      (write_json st (bucketResponse_json (toBucketResponse b)))) = Inr (bucket_info_of b)"
  by (simp add: decoded_json[OF _ decode_bucketResponse] toBucketInfo_def bucket_info_of_def toBucketResponse_def utf8_bucket_def)

lemma decoded_bucket_infos:
  assumes "\<And>b. b \<in> set bs \<Longrightarrow> utf8_bucket b"
  shows "map_sum id (map toBucketInfo) (decoded_list client_bucketResponse_fields zero_bucketResponse
      (write_json st (JArr (map (\<lambda>b. bucketResponse_json (toBucketResponse b)) bs)))) = Inr (map bucket_info_of bs)"
  using assms decode_elems_map[where xs = bs and enc = "\<lambda>b. bucketResponse_json (toBucketResponse b)", OF decode_bucketResponse]
  by (simp add: decoded_list_def decode_list_body_def toBucketInfo_def bucket_info_of_def toBucketResponse_def utf8_bucket_def)

lemma decoded_object_infos:
  assumes "\<And>x. x \<in> set obs \<Longrightarrow> utf8_object x"
  shows "map_sum id (map toObjectInfo) (decoded_list client_objectResponse_fields zero_objectResponse
      (write_json st (JArr (map (\<lambda>x. objectResponse_json (toObjectResponse x)) obs)))) = Inr (map object_info_of obs)"
  using assms decode_elems_map[where xs = obs and enc = "\<lambda>x. objectResponse_json (toObjectResponse x)", OF decode_objectResponse]
  by (simp add: decoded_list_def decode_list_body_def toObjectInfo_def object_info_of_def toObjectResponse_def utf8_object_def)

text \<open>A body that broke off gives no answer.\<close>

lemma resp_json_cut [simp]: "resp_json (r\<lparr>body := cut_body n b\<rparr>) = None"
  by (cases b) (simp_all add: resp_json_def)

lemma decoded_cut [simp]:
  "decoded fs zero (r\<lparr>body := cut_body n b\<rparr>) \<noteq> Inr x" "decoded_list fs zero (r\<lparr>body := cut_body n b\<rparr>) \<noteq> Inr xs"
  by (simp_all add: decoded_def decoded_list_def decode_body_def decode_list_body_def)

lemma map_sum_Inr: "map_sum id f x = Inr y \<longleftrightarrow> (\<exists>z. x = Inr z \<and> y = f z)"
  by (cases x) auto

lemma cut_answer:
  "map_sum id f (decoded fs zero (r\<lparr>body := cut_body n b\<rparr>)) \<noteq> Inr x"
  "map_sum id g (decoded_list fs zero (r\<lparr>body := cut_body n b\<rparr>)) \<noteq> Inr y"
  by (simp_all add: map_sum_Inr)

text \<open>A call that returns a value was served, and the whole answer came back.\<close>

lemma meta_answer:
  fixes s :: "'d system"
  assumes "returned (meta_do (meta_transport chi B net) want mth txt hdr bdy s) k = (Inr x, s')"
    and "is_call chi B mth txt bdy serve" and cut: "\<And>n r. k (r\<lparr>body := cut_body n (body r)\<rparr>) \<noteq> Inr x"
  shows "\<exists>r. serve (nt_meta net (sys_calls s)) (sys_meta s) = (r, sys_meta s') \<and> status r = want \<and> k r = Inr x"
proof -
  obtain res s1 where d: "meta_do (meta_transport chi B net) want mth txt hdr bdy s = (res, s1)" by fastforce
  with assms(1) obtain r1 where r1: "res = Inr r1" "k r1 = Inr x" "s' = s1" by (cases res) auto
  from d assms(2) show ?thesis
  proof (cases rule: meta_do_cases)
    case (served r d')
    with r1 cut show ?thesis by (auto intro: exI[of _ r])
  qed (use r1 in auto)
qed

context deployment
begin

lemma stored_utf8:
  assumes "meta_inv B d"
  shows "live_bucket B d n = Some b \<Longrightarrow> utf8_bucket b" "owner_listing (live_bucket B d) u bs \<Longrightarrow> b \<in> set bs \<Longrightarrow> utf8_bucket b"
    "object_listing (live_object B d n) p lim obs \<Longrightarrow> x \<in> set obs \<Longrightarrow> utf8_object x"
proof -
  show g: "utf8_bucket b" if "live_bucket B d n = Some b" for n
    using buckets.live_good[OF assms that] by (simp add: good_bucket_def)
  show "utf8_bucket b" if "owner_listing (live_bucket B d) u bs" "b \<in> set bs"
    using that g by (auto simp: owner_listing_def)
  show "utf8_object x" if "object_listing (live_object B d n) p lim obs" "x \<in> set obs"
  proof -
    from that obtain k where "live_object B d n k = Some x" by (auto simp: object_listing_def dest!: in_set_takeD)
    then show ?thesis by (rule live_object_utf8[OF assms])
  qed
qed

section \<open>Calls\<close>

lemma created_bucket:
  assumes "sinv s" and run: "MetadataClient_CreateBucket (meta_transport chi B net) n u s = (Inr i, s')"
  shows "\<exists>b. live_bucket B (sys_meta s') (utf8_fix n) = Some b \<and> bName b = utf8_fix n \<and> bOwnerID b = utf8_fix u
    \<and> i = bucket_info_of b"
proof -
  let ?e = "nt_meta net (sys_calls s)"
  from assms(1) have inv: "meta_inv B (sys_meta s)" by (simp add: sys_inv_def)
  from meta_answer[OF run[unfolded MetadataClient_CreateBucket_def] call_create cut_answer(1)] obtain r where
    r: "meta_serve B ?e (MCreateBucket (Some (JObj [(''name'', jstr n), (''owner_id'', jstr u)]))) (sys_meta s) = (r, sys_meta s')"
    "status r = StatusCreated"
    "map_sum id toBucketInfo (decoded client_bucketResponse_fields zero_bucketResponse r) = Inr i"
    by blast
  have "status (meta_writeError err) \<noteq> StatusCreated" for err using writeError_status[of err] by auto
  with r(1,2) obtain b where
    c: "CreateBucket bkts (e_ctx ?e) (e_now ?e) (e_uuid ?e) (utf8_fix n) (utf8_fix u) (sys_meta s) = (Inr b, sys_meta s')"
    "r = write_json StatusCreated (bucketResponse_json (toBucketResponse b))"
    by (auto simp: h_createBucket_def decode_createBucketRequest split: sum.splits prod.splits)
  have "valid_utf8 (e_uuid ?e)" "valid_utf8 (utf8_fix u)" using env_ok_net by (simp_all add: env_ok_def)
  from meta.CreateBucket_Inr[OF inv this c(1)] have b: "meta_inv B (sys_meta s')" "bName b = utf8_fix n"
    "bOwnerID b = utf8_fix u" "live_bucket B (sys_meta s') (utf8_fix n) = Some b" by auto
  from stored_utf8(1)[OF b(1,4)] r(3) c(2) have "i = bucket_info_of b" by (simp add: decoded_bucket_info)
  with b show ?thesis by blast
qed

lemma got_bucket:
  assumes "sinv s" and "segment b" and run: "MetadataClient_GetBucket (meta_transport chi B net) b s = (Inr i, s')"
  shows "\<exists>x. live_bucket B (sys_meta s') b = Some x \<and> i = bucket_info_of x"
proof -
  let ?e = "nt_meta net (sys_calls s)"
  from assms(1) have inv: "meta_inv B (sys_meta s)" by (simp add: sys_inv_def)
  from meta_answer[OF run[unfolded MetadataClient_GetBucket_def] call_bucket(1)[OF assms(2)] cut_answer(1)] obtain r where
    r: "meta_serve B ?e (MGetBucket b) (sys_meta s) = (r, sys_meta s')" "status r = StatusOK"
    "map_sum id toBucketInfo (decoded client_bucketResponse_fields zero_bucketResponse r) = Inr i"
    by blast
  note r1 = r(1)[unfolded meta_serve.simps prod.inject]
  have h: "h_getBucket bkts ?e b (sys_meta s) = r" by (rule r1[THEN conjunct1])
  have same: "sys_meta s' = sys_meta s" by (rule r1[THEN conjunct2, symmetric])
  have "status (meta_writeError err) \<noteq> StatusOK" for err using writeError_status[of err] by auto
  with h r(2) obtain x where
    x: "GetBucket bkts (e_ctx ?e) b (sys_meta s) = Inr x" "r = write_json StatusOK (bucketResponse_json (toBucketResponse x))"
    by (auto simp: h_getBucket_def split: sum.splits)
  from x(1) buckets.get_eq[OF inv, of "e_ctx ?e" b] have l: "live_bucket B (sys_meta s) b = Some x"
    by (auto simp: GetBucket_def split: if_splits option.splits)
  from stored_utf8(1)[OF inv l] r(3) x(2) have "i = bucket_info_of x" by (simp add: decoded_bucket_info)
  with l same show ?thesis by simp
qed

lemma listed_buckets:
  assumes "sinv s" and run: "MetadataClient_ListBucketsByOwner (meta_transport chi B net) u s = (Inr is, s')"
  shows "\<exists>bs. owner_listing (live_bucket B (sys_meta s')) u bs \<and> is = map bucket_info_of bs"
proof -
  let ?e = "nt_meta net (sys_calls s)"
  from assms(1) have inv: "meta_inv B (sys_meta s)" by (simp add: sys_inv_def)
  from meta_answer[OF run[unfolded MetadataClient_ListBucketsByOwner_def] call_list_buckets cut_answer(2)] obtain r where
    r: "meta_serve B ?e (MListBuckets u) (sys_meta s) = (r, sys_meta s')" "status r = StatusOK"
    "map_sum id (map toBucketInfo) (decoded_list client_bucketResponse_fields zero_bucketResponse r) = Inr is"
    by blast
  note r1 = r(1)[unfolded meta_serve.simps prod.inject]
  have h: "h_listBuckets bkts ?e u (sys_meta s) = r" by (rule r1[THEN conjunct1])
  have same: "sys_meta s' = sys_meta s" by (rule r1[THEN conjunct2, symmetric])
  have "status (meta_writeError err) \<noteq> StatusOK" for err using writeError_status[of err] by auto
  with h r(2) obtain bs where
    x: "ListBuckets bkts (e_ctx ?e) u (sys_meta s) = Inr bs"
    "r = write_json StatusOK (JArr (map (\<lambda>b. bucketResponse_json (toBucketResponse b)) bs))"
    by (auto simp: h_listBuckets_def split: sum.splits)
  from x(1) have "br_list bkts (e_ctx ?e) u (sys_meta s) = Inr bs" by (simp add: ListBuckets_def split: if_splits)
  note l = buckets.list_Inr[OF inv this]
  from decoded_bucket_infos[of bs StatusOK, OF stored_utf8(2)[OF inv l]] r(3) x(2) have "is = map bucket_info_of bs" by simp
  with l same show ?thesis by auto
qed

lemma listed_objects:
  assumes "sinv s" and "segment b" and run: "MetadataClient_ListObjects (meta_transport chi B net) b p s = (Inr ms, s')"
  shows "\<exists>obs. object_listing (live_object B (sys_meta s') b) p 1000 obs \<and> ms = map object_info_of obs"
proof -
  let ?e = "nt_meta net (sys_calls s)"
  from assms(1) have inv: "meta_inv B (sys_meta s)" by (simp add: sys_inv_def)
  from meta_answer[OF run[unfolded MetadataClient_ListObjects_def] call_list_objects[OF assms(2)] cut_answer(2)] obtain r where
    r: "meta_serve B ?e (MListObjects b p []) (sys_meta s) = (r, sys_meta s')" "status r = StatusOK"
    "map_sum id (map toObjectInfo) (decoded_list client_objectResponse_fields zero_objectResponse r) = Inr ms"
    by blast
  note r1 = r(1)[unfolded meta_serve.simps prod.inject]
  have h: "h_listObjects objts ?e b p [] (sys_meta s) = r" by (rule r1[THEN conjunct1])
  have same: "sys_meta s' = sys_meta s" by (rule r1[THEN conjunct2, symmetric])
  have "status (meta_writeError err) \<noteq> StatusOK" for err using writeError_status[of err] by auto
  with h r(2) obtain obs where
    x: "ListObjects objts (e_ctx ?e) b p 0 (sys_meta s) = Inr obs"
    "r = write_json StatusOK (JArr (map (\<lambda>x. objectResponse_json (toObjectResponse x)) obs))"
    by (auto simp: h_listObjects_def split: sum.splits)
  from x(1) have "or_list objts (e_ctx ?e) b p 0 (sys_meta s) = Inr obs" by (simp add: ListObjects_def split: if_splits)
  from objects.olist_Inr[OF inv this] have l: "object_listing (live_object B (sys_meta s) b) p 1000 obs"
    by (simp add: list_limit_def)
  from decoded_object_infos[of obs StatusOK, OF stored_utf8(3)[OF inv l]] r(3) x(2) have "ms = map object_info_of obs" by simp
  with l same show ?thesis by auto
qed

lemma put_object_told:
  assumes "sinv s" and "segment (oiBucket ob)"
    and run: "MetadataClient_PutObjectMeta (meta_transport chi B net) ob s = (Inr m, s')"
  shows "stored_as ob m \<and> (\<exists>x. live_object B (sys_meta s') (oiBucket ob) (oiKey m) = Some x \<and> m = object_info_of x)"
  using MetadataClient_PutObjectMeta_spec[OF assms]
  by (auto simp: set_object_def dest!: arg_cong[where f = "\<lambda>v. vw_object v (oiBucket ob) (oiKey m)"])

lemma got_object:
  assumes "sinv s" and "segment b" and "object_param k"
    and run: "MetadataClient_GetObjectMeta (meta_transport chi B net) b k s = (Inr m, s')"
  shows "\<exists>x. live_object B (sys_meta s') b k = Some x \<and> m = object_info_of x"
proof -
  from MetadataClient_GetObjectMeta_spec(1)[OF assms(1,2) run] assms(3)
  have v: "sview s' = sview s" "vw_object (sview s) b k = Some m" by auto
  then have "vw_object (sview s') b k = Some m" by simp
  then show ?thesis by auto
qed

lemma written_blob:
  assumes "sinv s" and "segment b" and "plain b"
    and run: "DataClient_Write (data_transport chi base net) b u s = (Inr (h, n), s')"
  shows "h = sha256_hex (u_data u) \<and> n = word_of_int (int (length (u_data u))) \<and> blob base (sys_fs s') b h = Some (u_data u)"
  using DataClient_Write_spec[OF assms]
  by (auto simp: set_blob_def dest!: arg_cong[where f = "\<lambda>v. vw_blob v b h"])

end

end
