(* ===== verification/Process_Properties.thy ===== *)
theory Process_Properties
  imports Service_Process Auth_Access Auth_Properties Api_Messages Api_Properties
begin

text \<open>
  The properties of the services as processes that talk to each other: the messages they exchange mean
  the same at both ends, and metadata-service keeps its data over all its lives.
\<close>

section \<open>Messages\<close>

text \<open>
  C11: the services agree on their messages.  Over any network, whatever a call of a client of
  api-service returns is, field by field, what the service behind it holds after the call: the bucket
  that was created (with the name and the owner that were sent) or looked up, all buckets of an owner
  in order, the record of the object that was put (with the key, size, hash, content type and
  reference that were sent) or looked up, the first 1000 objects of a bucket with a prefix, the hash and the
  length of the bytes that data-service has stored, and the owner and the secret of a credential.
\<close>

theorem wire_formats_agree:
  assumes "bolt_store B" and "chi_law chi" and "net_ok net" and "sys_reachable B base s"
    and "bolt_store C" and "jwt_laws (ag_jwt cfg)" and "bcrypt_laws (ag_bcrypt cfg)" and "auth_reachable cfg C a"
  defines "T \<equiv> meta_transport chi B net"
  shows "(MetadataClient_CreateBucket T n u s = (Inr i, s') \<longrightarrow>
        (\<exists>x. live_bucket B (sys_meta s') (utf8_fix n) = Some x \<and> bName x = utf8_fix n \<and> bOwnerID x = utf8_fix u
           \<and> biName i = bName x \<and> biOwnerID i = bOwnerID x \<and> biCreatedAt i = bCreatedAt x))
    \<and> (segment b \<longrightarrow> MetadataClient_GetBucket T b s = (Inr i, s') \<longrightarrow>
        (\<exists>x. live_bucket B (sys_meta s') b = Some x
           \<and> biName i = bName x \<and> biOwnerID i = bOwnerID x \<and> biCreatedAt i = bCreatedAt x))
    \<and> (MetadataClient_ListBucketsByOwner T u s = (Inr is, s') \<longrightarrow>
        (\<exists>bs. owner_listing (live_bucket B (sys_meta s')) u bs \<and> is = map bucket_info_of bs))
    \<and> (segment (oiBucket ob) \<longrightarrow> MetadataClient_PutObjectMeta T ob s = (Inr m, s') \<longrightarrow>
        (\<exists>x. live_object B (sys_meta s') (oiBucket ob) (utf8_fix (oiKey ob)) = Some x \<and> m = object_info_of x
           \<and> oObjectKey x = utf8_fix (oiKey ob) \<and> oBucketName x = oiBucket ob \<and> oSizeBytes x = oiSizeBytes ob
           \<and> oETag x = utf8_fix (oiETag ob) \<and> oContentType x = utf8_fix (oiContentType ob)
           \<and> oStorageRef x = utf8_fix (oiStorageRef ob)))
    \<and> (segment b \<longrightarrow> object_param k \<longrightarrow> MetadataClient_GetObjectMeta T b k s = (Inr m, s') \<longrightarrow>
        (\<exists>x. live_object B (sys_meta s') b k = Some x \<and> m = object_info_of x))
    \<and> (segment b \<longrightarrow> MetadataClient_ListObjects T b p s = (Inr ms, s') \<longrightarrow>
        (\<exists>obs. object_listing (live_object B (sys_meta s') b) p 1000 obs \<and> ms = map object_info_of obs))
    \<and> (segment b \<longrightarrow> plain b \<longrightarrow> DataClient_Write (data_transport chi base net) b up s = (Inr (h, sz), s') \<longrightarrow>
        h = sha256_hex (u_data up) \<and> sz = word_of_int (int (length (u_data up))) \<and> blob base (sys_fs s') b h = Some (u_data up))
    \<and> (AuthClient_LookupCredential t (auth_transport chi cfg C flt e) ak a = (Inr cc, a') \<longrightarrow>
        a' = a \<and> (\<exists>l c. stored_credential C a l = Some c \<and> cdRevokedAt c = None \<and> ccUserID cc = cdUserID c
          \<and> decrypt (ag_master cfg) (cdSecretKeyEncrypted c) = Inr (ccSecretKey cc) \<and> (segment ak \<longrightarrow> l = ak)))"
proof (intro conjI impI)
  note D = deploymentI[OF assms(1-3)]
  note inv = deployment.sreach_inv[OF D assms(4)]
  show "\<exists>x. live_bucket B (sys_meta s') (utf8_fix n) = Some x \<and> bName x = utf8_fix n \<and> bOwnerID x = utf8_fix u
      \<and> biName i = bName x \<and> biOwnerID i = bOwnerID x \<and> biCreatedAt i = bCreatedAt x"
    if "MetadataClient_CreateBucket T n u s = (Inr i, s')"
    using deployment.created_bucket[OF D inv that[unfolded T_def]] by (auto simp: bucket_info_of_def)
  show "\<exists>x. live_bucket B (sys_meta s') b = Some x
      \<and> biName i = bName x \<and> biOwnerID i = bOwnerID x \<and> biCreatedAt i = bCreatedAt x"
    if "segment b" "MetadataClient_GetBucket T b s = (Inr i, s')"
    using deployment.got_bucket[OF D inv that(1) that(2)[unfolded T_def]] by (auto simp: bucket_info_of_def)
  show "\<exists>bs. owner_listing (live_bucket B (sys_meta s')) u bs \<and> is = map bucket_info_of bs"
    if "MetadataClient_ListBucketsByOwner T u s = (Inr is, s')"
    by (rule deployment.listed_buckets[OF D inv that[unfolded T_def]])
  show "\<exists>x. live_object B (sys_meta s') (oiBucket ob) (utf8_fix (oiKey ob)) = Some x \<and> m = object_info_of x
      \<and> oObjectKey x = utf8_fix (oiKey ob) \<and> oBucketName x = oiBucket ob \<and> oSizeBytes x = oiSizeBytes ob
      \<and> oETag x = utf8_fix (oiETag ob) \<and> oContentType x = utf8_fix (oiContentType ob)
      \<and> oStorageRef x = utf8_fix (oiStorageRef ob)"
    if "segment (oiBucket ob)" "MetadataClient_PutObjectMeta T ob s = (Inr m, s')"
    using deployment.put_object_told[OF D inv that(1) that(2)[unfolded T_def]] by (auto simp: stored_as_def object_info_of_def)
  show "\<exists>x. live_object B (sys_meta s') b k = Some x \<and> m = object_info_of x"
    if "segment b" "object_param k" "MetadataClient_GetObjectMeta T b k s = (Inr m, s')"
    by (rule deployment.got_object[OF D inv that(1,2) that(3)[unfolded T_def]])
  show "\<exists>obs. object_listing (live_object B (sys_meta s') b) p 1000 obs \<and> ms = map object_info_of obs"
    if "segment b" "MetadataClient_ListObjects T b p s = (Inr ms, s')"
    by (rule deployment.listed_objects[OF D inv that(1) that(2)[unfolded T_def]])
  show "h = sha256_hex (u_data up)" "sz = word_of_int (int (length (u_data up)))" "blob base (sys_fs s') b h = Some (u_data up)"
    if "segment b" "plain b" "DataClient_Write (data_transport chi base net) b up s = (Inr (h, sz), s')"
    using deployment.written_blob[OF D inv that] by blast+
  note A = auth_backendI[OF assms(5-7) assms(2)]
    and ok = auth_deployment.run_reachable[OF auth_deploymentI[OF assms(5-7)] assms(8)]
  show "a' = a" "\<exists>l c. stored_credential C a l = Some c \<and> cdRevokedAt c = None \<and> ccUserID cc = cdUserID c
      \<and> decrypt (ag_master cfg) (cdSecretKeyEncrypted c) = Inr (ccSecretKey cc) \<and> (segment ak \<longrightarrow> l = ak)"
    if "AuthClient_LookupCredential t (auth_transport chi cfg C flt e) ak a = (Inr cc, a')"
  proof -
    from auth_backend.lookup_answered[OF A ok that] obtain l c x where c: "a' = a" "stored_credential C a l = Some c"
      "cdRevokedAt c = None" "decrypt (ag_master cfg) (cdSecretKeyEncrypted c) = Inr x"
      "cc = \<lparr>ccUserID = cdUserID c, ccSecretKey = x\<rparr>" "segment ak \<longrightarrow> l = ak" by blast
    from c show "a' = a" by simp
    from c show "\<exists>l c. stored_credential C a l = Some c \<and> cdRevokedAt c = None \<and> ccUserID cc = cdUserID c
      \<and> decrypt (ag_master cfg) (cdSecretKeyEncrypted c) = Inr (ccSecretKey cc) \<and> (segment ak \<longrightarrow> l = ak)"
      by (intro exI[of _ l] exI[of _ c]) simp
  qed
qed

theorem wire_formats_agree_witness:
  "\<exists>i s'. MetadataClient_GetBucket (meta_transport first_route mem_bolt q_net) ''pics'' q_sys = (Inr i, s')
     \<and> biName i = ''pics'' \<and> biOwnerID i = ''amy'' \<and> live_bucket mem_bolt (sys_meta s') ''pics'' \<noteq> None"
proof -
  let ?T = "meta_transport first_route mem_bolt q_net"
  have seg: "segment ''pics''" by (rule bucket_name_segment) code_simp
  obtain res s' where run: "MetadataClient_GetBucket ?T ''pics'' q_sys = (res, s')" by fastforce
  have "vw_owner (sys_view mem_bolt d_base q_sys) ''pics'' = Some ''amy''" by (simp add: q_sys_def s_created_bucket)
  from sample.MetadataClient_GetBucket_spec(2)[OF q_inv seg run q_calm this] obtain i where res: "res = Inr i" by blast
  from sample.MetadataClient_GetBucket_spec(1)[OF q_inv seg run] have "biOwnerID i = ''amy''"
    using res by (simp add: q_sys_def s_created_bucket)
  moreover from wire_formats_agree[OF mem.bolt_store_axioms first_route.law q_net_ok q_reach mem.bolt_store_axioms u_laws u_registered_reachable,
      THEN conjunct2, THEN conjunct1, rule_format, OF seg run[unfolded res]]
  obtain x where x: "live_bucket mem_bolt (sys_meta s') ''pics'' = Some x" "biName i = bName x" by blast
  moreover have "bName x = ''pics''"
  proof -
    from sample.MetadataClient_GetBucket_spec(1)[OF q_inv seg run] have "sys_inv mem_bolt d_base s'" by simp
    then have "meta_inv mem_bolt (sys_meta s')" by (simp add: sys_inv_def)
    from mem.buckets.live_name[OF this x(1)] show ?thesis .
  qed
  ultimately show ?thesis using run res by auto
qed

section \<open>Lives of metadata-service\<close>

text \<open>
  C14: metadata-service keeps its data over all its lives.  Whatever happened before (requests that
  interleave, shutdowns, a kill at any point), in every state of a running process the database is
  consistent.  A request that was checked and not yet written belongs to a running request, so nothing
  is left half done when the process ends after all requests are answered.  With status 0 it ends only
  after a signal, when nothing is running or ten seconds have passed; exactly then the store has been
  closed, and ten seconds after a signal it can always end so.  On a disk without errors the next
  process starts on what is left, with the same data.
\<close>

theorem restarts_keep_consistency:
  assumes "bolt_store B" and "meta_disk B d" and "meta_start B env mkdir (Inr d) = Inr d'"
    and "(life_step B)\<^sup>*\<^sup>* (launched t, \<lparr>c_db = d', c_pending = []\<rparr>) (p, s)"
  shows "meta_inv B (c_db s)
    \<and> (pc_active p = 0 \<longrightarrow> c_pending s = [])
    \<and> (pc_closed p \<longleftrightarrow> pc_phase p = Exited 0)
    \<and> (\<forall>ev q. process_step ev p = Some q \<longrightarrow> pc_phase q = Exited 0 \<longrightarrow>
         (\<exists>deadline. pc_phase p = Draining deadline \<and> (pc_active p = 0 \<and> c_pending s = [] \<or> deadline \<le> pc_clock p)))
    \<and> (\<forall>q q' n. pc_phase p = Serving \<longrightarrow> process_step Signalled p = Some q \<longrightarrow> process_step (Elapsed n) q = Some q' \<longrightarrow>
         shutdownTimeout \<le> int n \<longrightarrow> (\<exists>r. process_step ShutdownReturns q' = Some r \<and> pc_phase r = Exited 0))
    \<and> (bolt_roomy B \<longrightarrow> (\<exists>d2. meta_start B env2 None (Inr (c_db s)) = Inr d2 \<and> meta_inv B d2
         \<and> live_bucket B d2 = live_bucket B (c_db s) \<and> live_object B d2 = live_object B (c_db s)))"
proof -
  from bolt_store.life_steps_of_disk[OF assms] have ok: "meta_inv B (c_db s)" "process_ok p" "length (c_pending s) \<le> pc_active p"
    by (simp_all add: life_ok_def conc_inv_def)
  have "\<exists>d2. meta_start B env2 None (Inr (c_db s)) = Inr d2 \<and> meta_inv B d2
      \<and> live_bucket B d2 = live_bucket B (c_db s) \<and> live_object B d2 = live_object B (c_db s)" if "bolt_roomy B"
    using bolt_roomy.disk_starts[OF that, of "c_db s" env2] bolt_store.restart_keeps[OF assms(1) ok(1)] ok(1) by blast
  with ok process_step_exit deadline_bound show ?thesis by (fastforce simp: process_ok_def)
qed

text \<open>A first life that creates a bucket and is killed while the request is still running.\<close>

definition l_env :: environment where
  "l_env name = (if name = ''METADATA_SERVICE_DB_PATH'' then ''m.db'' else [])"

definition l_killed :: process where
  "l_killed = \<lparr>pc_phase = Exited 137, pc_clock = 0, pc_active = 1, pc_closed = False\<rparr>"

lemma l_start: "meta_start mem_bolt l_env None (Inr []) = Inr s_opened"
  using s_opened_ok by (simp add: meta_start_def meta_Load_def getenv_or_def l_env_def)

lemma l_life:
  "(life_step mem_bolt)\<^sup>*\<^sup>* (launched 0, \<lparr>c_db = s_opened, c_pending = []\<rparr>) (l_killed, \<lparr>c_db = s_created, c_pending = []\<rparr>)"
proof -
  let ?p = "\<lparr>pc_phase = Serving, pc_clock = 0, pc_active = 1, pc_closed = False\<rparr>"
  have 1: "life_step mem_bolt (launched 0, \<lparr>c_db = s_opened, c_pending = []\<rparr>) (?p, \<lparr>c_db = s_opened, c_pending = []\<rparr>)"
    by (rule happens[of Accepted]) (simp_all add: launched_def exited_def)
  have c: "conc_step mem_bolt (Served s_create) \<lparr>c_db = s_opened, c_pending = []\<rparr> \<lparr>c_db = s_created, c_pending = []\<rparr>"
    using serve[of s_env s_create mem_bolt "\<lparr>c_db = s_opened, c_pending = []\<rparr>"
        "fst (meta_serve mem_bolt s_env s_create s_opened)" s_created] s_env_ok s_create_ok
    by (simp add: s_created_def)
  have 2: "life_step mem_bolt (?p, \<lparr>c_db = s_opened, c_pending = []\<rparr>) (?p, \<lparr>c_db = s_created, c_pending = []\<rparr>)"
    by (rule works[OF _ _ c]) (simp_all add: exited_def)
  have 3: "life_step mem_bolt (?p, \<lparr>c_db = s_created, c_pending = []\<rparr>) (l_killed, \<lparr>c_db = s_created, c_pending = []\<rparr>)"
    by (rule happens[of Killed]) (simp_all add: l_killed_def exited_def)
  show ?thesis by (rule rtranclp.rtrancl_into_rtrancl[OF rtranclp.rtrancl_into_rtrancl[OF r_into_rtranclp[of "life_step mem_bolt", OF 1] 2] 3])
qed

theorem restarts_keep_consistency_witness:
  "\<exists>d2. meta_start mem_bolt l_env None (Inr s_created) = Inr d2 \<and> live_bucket mem_bolt d2 ''pics'' = Some s_bucket"
proof -
  from restarts_keep_consistency[OF mem.bolt_store_axioms meta_disk.new[OF empty_mem] l_start l_life, of l_env] mem_roomy.bolt_roomy_axioms
  obtain d2 where "meta_start mem_bolt l_env None (Inr s_created) = Inr d2" "live_bucket mem_bolt d2 = live_bucket mem_bolt s_created"
    by auto
  with s_created_bucket show ?thesis by auto
qed

end
