(* ===== verification/Meta_Demo.thy ===== *)
theory Meta_Demo
  imports Service_Process
begin

text \<open>
  The demonstration of metadata-service (\<open>cmd/demo/main.go\<close>): a program that runs one of fourteen
  steps over the repositories on its own database file and prints what comes of it.  On any store that
  does not fail the steps, run in their order on a new file, print what their labels say.  The log
  lines of the repositories, which go to the same output, are left out.
\<close>

section \<open>The program\<close>

text \<open>A line of output is a text, or a text with an object printed field by field.\<close>

datatype demo_line = Say message | Show string object

definition dash :: string where
  "dash = [CHR 0xE2, CHR 0x80, CHR 0x94]"

definition printResult :: "string \<Rightarrow> go_error option \<Rightarrow> demo_line" where
  "printResult label err =
     (case err of
        Some e \<Rightarrow> Say ([Lit label, Lit '' -> ERROR: ''] @ error_text e)
      | None \<Rightarrow> Say [Lit label, Lit '' -> OK''])"

definition result_line :: "string \<Rightarrow> go_error + 'a \<Rightarrow> demo_line" where
  "result_line label res = printResult label (case res of Inl e \<Rightarrow> Some e | Inr _ \<Rightarrow> None)"

definition is_line :: "string \<Rightarrow> sentinel \<Rightarrow> go_error + 'a \<Rightarrow> demo_line" where
  "is_line label s res =
     Say [Lit label, Lit (if (case res of Inl e \<Rightarrow> errors_is e s | Inr _ \<Rightarrow> False) then ''true'' else ''false'')]"

definition listed :: "go_error + 'a list \<Rightarrow> 'a list" where
  "listed res = (case res of Inl _ \<Rightarrow> [] | Inr xs \<Rightarrow> xs)"

definition say :: "string \<Rightarrow> demo_line" where
  "say s = Say [Lit s]"

definition demo_bucket :: "string \<Rightarrow> string \<Rightarrow> string \<Rightarrow> bucket" where
  "demo_bucket i n owner =
     \<lparr>bID = i, bName = n, bOwnerID = owner, bIsVersioned = False, bDeletedAt = None, bCreatedAt = 0\<rparr>"

definition demo_object :: "string \<Rightarrow> string \<Rightarrow> string \<Rightarrow> 64 word \<Rightarrow> string \<Rightarrow> string \<Rightarrow> object" where
  "demo_object i bucket key sz etag ct =
     \<lparr>oID = i, oObjectKey = key, oBucketName = bucket, oSizeBytes = sz, oETag = etag, oContentType = ct,
      oStorageRef = bucket @ ''/'' @ key, oVersionID = ''null'', oIsLatest = True, oCreatedAt = 0, oDeletedAt = None\<rparr>"

definition owned_lines :: "string \<Rightarrow> go_error + bucket list \<Rightarrow> demo_line list" where
  "owned_lines who res = map (\<lambda>b. Say [Lit ''  '', Lit who, Lit '' owns: '', Lit (bName b)]) (listed res)"

text \<open>
  One step: the lines it prints, and the database.  The two clocks are those of its first and its
  second change.
\<close>

definition demo_step :: "'d bolt \<Rightarrow> (nat \<Rightarrow> time) \<Rightarrow> int \<Rightarrow> 'd \<Rightarrow> (demo_line list \<times> 'd) option" where
  "demo_step B now step d =
     (if step = 1 then
        (case BucketRepo_Create B background (now 0) (demo_bucket ''b-photos'' ''photos'' ''user-alice'') d of
           (r, d1) \<Rightarrow> Some ([say ''--- Step 1: alice creates bucket 'photos' ---'', result_line ''Create(photos, alice)'' r], d1))
      else if step = 2 then
        (case BucketRepo_Create B background (now 0) (demo_bucket ''b-documents'' ''documents'' ''user-bob'') d of
           (r, d1) \<Rightarrow> Some ([say ''--- Step 2: bob creates bucket 'documents' ---'', result_line ''Create(documents, bob)'' r], d1))
      else if step = 3 then
        (case BucketRepo_Create B background (now 0) (demo_bucket ''b-photos-2'' ''photos'' ''user-bob'') d of
           (r, d1) \<Rightarrow> Some ([say ''--- Step 3: bob tries to create 'photos' too (should be rejected) ---'',
               result_line (''Create(photos, bob) '' @ dash @ '' expect ErrAlreadyExists'') r,
               is_line ''Is ErrAlreadyExists: '' ErrAlreadyExists r], d1))
      else if step = 4 then
        (case ObjectRepo_Put B background (now 0)
                (demo_object ''o-vacation'' ''photos'' ''vacation.png'' 204800 ''etag-vacation'' ''image/png'') d of
           (r1, d1) \<Rightarrow>
             (case ObjectRepo_Put B background (now 1)
                     (demo_object ''o-profile'' ''photos'' ''profile.jpg'' 51200 ''etag-profile'' ''image/jpeg'') d1 of
                (r2, d2) \<Rightarrow> Some ([say ''--- Step 4: alice puts two objects into 'photos' ---'',
                    result_line ''Put(photos/vacation.png)'' r1, result_line ''Put(photos/profile.jpg)'' r2], d2)))
      else if step = 5 then
        (case ObjectRepo_Put B background (now 0)
                (demo_object ''o-readme'' ''documents'' ''readme.txt'' 1024 ''etag-readme'' ''text/plain'') d of
           (r, d1) \<Rightarrow> Some ([say ''--- Step 5: bob puts one object into 'documents' ---'',
               result_line ''Put(documents/readme.txt)'' r], d1))
      else if step = 6 then
        (let r = ObjectRepo_Get B background ''photos'' ''vacation.png'' d
         in Some ([say ''--- Step 6: Get a single object ---'', result_line ''Get(photos/vacation.png)'' r]
              @ (case r of Inl _ \<Rightarrow> [] | Inr ob \<Rightarrow> [Show ''  -> '' ob]), d))
      else if step = 7 then
        (let r = ObjectRepo_List B background ''photos'' [] 100 d
         in Some ([say ''--- Step 7: List all objects in 'photos' ---'', result_line ''List(photos, prefix=\"\")'' r]
              @ map (\<lambda>ob. Say [Lit ''  -> '', Lit (oObjectKey ob), Lit '' ('', Dec (sint (oSizeBytes ob)), Lit '' bytes)'']) (listed r), d))
      else if step = 8 then
        (let r1 = BucketRepo_ListByOwner B background ''user-alice'' d; r2 = BucketRepo_ListByOwner B background ''user-bob'' d
         in Some ([say ''--- Step 8: ListByOwner for both users ---'', result_line ''ListByOwner(user-alice)'' r1]
              @ owned_lines ''alice'' r1 @ [result_line ''ListByOwner(user-bob)'' r2] @ owned_lines ''bob'' r2, d))
      else if step = 9 then
        (case ObjectRepo_Delete B background (now 0) ''photos'' ''profile.jpg'' d of
           (r, d1) \<Rightarrow> Some ([say ''--- Step 9: Delete one object (soft delete) ---'', result_line ''Delete(photos/profile.jpg)'' r,
               say ''  photos now lists:'']
             @ map (\<lambda>ob. Say [Lit ''    -> '', Lit (oObjectKey ob)]) (listed (ObjectRepo_List B background ''photos'' [] 100 d1)), d1))
      else if step = 10 then
        (case BucketRepo_Delete B background (now 0) ''photos'' d of
           (r, d1) \<Rightarrow> Some ([say (''--- Step 10: alice tries to delete 'photos' '' @ dash @ '' should fail, vacation.png still live ---''),
               result_line (''Delete(photos) '' @ dash @ '' expect ErrBucketNotEmpty'') r,
               is_line ''Is ErrBucketNotEmpty: '' ErrBucketNotEmpty r], d1))
      else if step = 11 then
        (case ObjectRepo_Delete B background (now 0) ''photos'' ''vacation.png'' d of
           (r1, d1) \<Rightarrow>
             (case BucketRepo_Delete B background (now 1) ''photos'' d1 of
                (r2, d2) \<Rightarrow> Some ([say ''--- Step 11: delete the last live object, then delete the bucket ---'',
                    result_line ''Delete(photos/vacation.png)'' r1,
                    result_line (''Delete(photos) '' @ dash @ '' should now succeed'') r2], d2)))
      else if step = 12 then
        (let r = BucketRepo_ListByOwner B background ''user-alice'' d
         in Some ([say ''--- Step 12: confirm alice's bucket list is now empty ---'', result_line ''ListByOwner(user-alice)'' r,
                Say [Lit ''  alice owns '', Dec (int (length (listed r))), Lit '' buckets'']], d))
      else if step = 13 then
        (case BucketRepo_Create B background (now 0) (demo_bucket ''b-photos-resurrected'' ''photos'' ''user-bob'') d of
           (r, d1) \<Rightarrow> Some ([say ''--- Step 13: bob resurrects the soft-deleted 'photos' name ---'',
               result_line ''Create(photos, bob) over soft-deleted name'' r], d1))
      else if step = 14 then
        (let r1 = BucketRepo_ListByOwner B background ''user-alice'' d; r2 = BucketRepo_ListByOwner B background ''user-bob'' d
         in Some ([say (''--- Step 14: regression check '' @ dash @ '' alice must NOT see bob's resurrected 'photos' ---''),
                result_line ''ListByOwner(user-alice)'' r1,
                Say [Lit ''  alice owns '', Dec (int (length (listed r1))), Lit '' buckets (want 0)''],
                result_line ''ListByOwner(user-bob)'' r2] @ owned_lines ''bob'' r2, d))
      else None)"

text \<open>The program: its status, its output, and the file it leaves when it got so far as to open it.\<close>

definition demoDBPath :: string where
  "demoDBPath = ''data/demo.db''"

definition demo_main ::
    "'d bolt \<Rightarrow> (nat \<Rightarrow> time) \<Rightarrow> int \<Rightarrow> go_error option \<Rightarrow> go_error + 'd \<Rightarrow> nat \<times> demo_line list \<times> 'd option" where
  "demo_main B now step mkdir disk =
     (if step = 0 then
        (1, [say ''usage: go run ./cmd/demo --step=N   (see README table for N=1..14)''], None)
      else
        (case meta_open B demoDBPath mkdir disk of
           Inl err \<Rightarrow> (1, [Say ([Lit ''open store ''] @ error_text err)], None)
         | Inr d \<Rightarrow>
             (case demo_step B now step d of
                None \<Rightarrow> (1, [Say [Lit ''no such step: '', Dec step]], Some d)
              | Some (ls, d') \<Rightarrow> (0, ls, Some d'))))"

text \<open>Several runs one after the other on the same file.\<close>

fun demo_session :: "'d bolt \<Rightarrow> (int \<Rightarrow> nat \<Rightarrow> time) \<Rightarrow> int list \<Rightarrow> 'd \<Rightarrow> (nat \<times> demo_line list) list" where
  "demo_session B clock [] d = []"
| "demo_session B clock (n # ns) d =
     (case demo_main B (clock n) n None (Inr d) of
        (code, ls, None) \<Rightarrow> [(code, ls)]
      | (code, ls, Some d') \<Rightarrow> (code, ls) # demo_session B clock ns d')"

section \<open>What a step does to the data\<close>

definition disk_state ::
    "'d bolt \<Rightarrow> 'd \<Rightarrow> (string \<Rightarrow> bucket option) \<Rightarrow> (string \<Rightarrow> string \<Rightarrow> object option) \<Rightarrow> bool" where
  "disk_state B d bk ob \<longleftrightarrow> (empty_db B d \<or> meta_inv B d) \<and> live_bucket B d = bk \<and> live_object B d = ob"

definition demo_state ::
    "'d bolt \<Rightarrow> 'd \<Rightarrow> (string \<Rightarrow> bucket option) \<Rightarrow> (string \<Rightarrow> string \<Rightarrow> object option) \<Rightarrow> bool" where
  "demo_state B d bk ob \<longleftrightarrow> meta_inv B d \<and> live_bucket B d = bk \<and> live_object B d = ob"

lemma demo_state_disk: "demo_state B d bk ob \<Longrightarrow> disk_state B d bk ob"
  by (simp add: demo_state_def disk_state_def)

lemma owner_listing_unique:
  assumes "owner_listing live owner bs" and "owner_listing live owner bs0"
  shows "bs = bs0"
proof -
  from assms have s: "sorted_wrt (<) (map bName bs)" "sorted_wrt (<) (map bName bs0)" "set bs = set bs0"
    by (auto simp: owner_listing_def)
  then have "map bName bs0 = map bName bs" by (intro strict_sorted_equal) simp_all
  moreover have "inj_on bName (set bs \<union> set bs0)" using s by (auto simp: distinct_map dest: sorted_less_distinct)
  ultimately show ?thesis using inj_on_map_eq_map by metis
qed

lemma object_listing_unique:
  assumes "object_listing m p lim obs" and "sorted_wrt (<) ks" and "set ks = {k. m k \<noteq> None \<and> prefix p k}"
  shows "obs = take lim (map (\<lambda>k. the (m k)) ks)"
proof -
  from assms(1) obtain ls where "sorted_wrt (<) ls" "set ls = {k. m k \<noteq> None \<and> prefix p k}"
    "obs = take lim (map (\<lambda>k. the (m k)) ls)" by (auto simp: object_listing_def)
  moreover from this assms(2,3) have "ls = ks" by (intro strict_sorted_equal) simp_all
  ultimately show ?thesis by simp
qed

context bolt_roomy
begin

lemma st_opens:
  assumes "disk_state B d bk ob"
  shows "\<exists>d'. meta_open B path None (Inr d) = Inr d' \<and> demo_state B d' bk ob"
proof -
  from assms have e: "empty_db B d \<or> meta_inv B d" by (simp add: disk_state_def)
  have "bget B d BoltBucketMeta schemaVersionKey \<in> {None, Some (Bytes (encodeVersion currentSchemaVersion))}"
    using e by (auto simp: empty_db_def meta_inv_def opened_def)
  from bootstrap_ok[OF meta_names_ne meta_names(4) fits_all this] obtain d' where
    b: "bootstrap B meta_bolt_buckets d = (Inr (), d')" by blast
  have g: "bget B d' b k = bget B d b k" if "b \<noteq> BoltBucketMeta" for b k
    using bootstrap_keeps[OF b] that by blast
  have "live_bucket B d' = live_bucket B d" by (rule live_bucket_cong) (simp add: g)
  moreover have "live_object B d' = live_object B d" by (rule live_object_cong) (simp add: g)
  moreover have "meta_inv B d'"
    by (rule meta_inv_open[OF _ _ _ b]) (use e empty_db_ok[of d] in \<open>auto simp: meta_inv_def\<close>)
  ultimately show ?thesis using assms b by (auto simp: demo_state_def disk_state_def meta_open_def open_store_def)
qed

lemma st_create:
  assumes "demo_state B d bk ob" and "bk (bName b) = None" and "utf8_bucket b" "bDeletedAt b = None"
    and "no_nul (bName b)" "no_nul (bOwnerID b)" "key_ok (bName b)" "key_ok (bOwnerID b @ keySeparator # bName b)"
  shows "\<exists>d'. BucketRepo_Create B background now b d = (Inr (stamp_bucket now b), d')
    \<and> demo_state B d' (bk(bName b \<mapsto> stamp_bucket now b)) ob"
proof -
  from assms(1) have s: "meta_inv B d" "live_bucket B d = bk" "live_object B d = ob" by (simp_all add: demo_state_def)
  from create_total[OF s(1) _ assms(5-8)] s(2) assms(2) obtain d' where
    r: "BucketRepo_Create B background now b d = (Inr (stamp_bucket now b), d')" by auto
  from buckets.create_Inr[OF s(1) assms(3,4), of background now] meta.create_objs[OF s(1) assms(3,4), of background now] r s
  show ?thesis by (auto simp: demo_state_def)
qed

lemma st_create_taken:
  assumes "demo_state B d bk ob" and "bk (bName b) \<noteq> None"
  shows "BucketRepo_Create B background now b d = (Inl (Sentinel ErrAlreadyExists), d)"
  using assms buckets.create_taken[of d b background now] by (simp add: demo_state_def)

lemma st_put:
  assumes "demo_state B d bk ob" and "oDeletedAt x = None"
    and "no_nul (oBucketName x)" "no_nul (oObjectKey x)" "key_ok (oBucketName x @ keySeparator # oObjectKey x)"
  shows "\<exists>d'. ObjectRepo_Put B background now x d = (Inr (stamp_object now x), d')
    \<and> demo_state B d' bk (ob(oBucketName x := (ob (oBucketName x))(oObjectKey x \<mapsto> norm_object (stamp_object now x))))"
proof -
  from assms(1) have s: "meta_inv B d" "live_bucket B d = bk" "live_object B d = ob" by (simp_all add: demo_state_def)
  from object_put_total[OF s(1) assms(3-5)] obtain d' where
    r: "ObjectRepo_Put B background now x d = (Inr (stamp_object now x), d')" by blast
  from objects.oput_Inr[OF s(1) assms(2), of background now] meta.oput_live[OF s(1) assms(2), of background now] r s
  show ?thesis by (auto simp: demo_state_def)
qed

lemma st_get:
  assumes "demo_state B d bk ob" and "no_nul b" "no_nul k" and "ob b k = Some x"
  shows "ObjectRepo_Get B background b k d = Inr x"
  using assms objects.oget_eq[of d b k background] by (simp add: demo_state_def)

lemma st_list:
  assumes "demo_state B d bk ob" and "no_nul b" and "sorted_wrt (<) ks" and "set ks = dom (ob b)" and "length ks \<le> 100"
  shows "ObjectRepo_List B background b [] 100 d = Inr (map (\<lambda>k. the (ob b k)) ks)"
proof -
  from assms(1) have s: "meta_inv B d" "live_object B d = ob" by (simp_all add: demo_state_def)
  have "no_nul []" by (simp add: no_nul_def)
  from list_objects_background[OF s(1) assms(2) this, of 100] obtain obs where
    r: "ObjectRepo_List B background b [] 100 d = Inr obs" by blast
  from objects.olist_Inr[OF s(1), of background b "[]" 100 obs] r s(2)
  have "object_listing (ob b) [] 100 obs" by (simp add: list_limit_def)
  from object_listing_unique[OF this assms(3)] assms(4,5) r show ?thesis by (simp add: dom_def)
qed

lemma st_owned:
  assumes "demo_state B d bk ob" and "no_nul owner" and "sorted_wrt (<) (map bName bs)"
    and "set bs = {b. \<exists>n. bk n = Some b \<and> bOwnerID b = owner}"
  shows "BucketRepo_ListByOwner B background owner d = Inr bs"
proof -
  from assms(1) have s: "meta_inv B d" "live_bucket B d = bk" by (simp_all add: demo_state_def)
  from list_by_owner_background[OF s(1) assms(2)] obtain cs where r: "BucketRepo_ListByOwner B background owner d = Inr cs" by blast
  from buckets.list_Inr[OF s(1), of background owner cs] r s(2) have "owner_listing bk owner cs" by simp
  moreover have "owner_listing bk owner bs" using assms(3,4) by (simp add: owner_listing_def)
  ultimately show ?thesis using r owner_listing_unique by blast
qed

lemma st_odelete:
  assumes "demo_state B d bk ob" and "no_nul b" "no_nul k" and "ob b k \<noteq> None" and "key_ok (b @ keySeparator # k)"
  shows "\<exists>d'. ObjectRepo_Delete B background now b k d = (Inr (), d') \<and> demo_state B d' bk (ob(b := (ob b)(k := None)))"
proof -
  from assms(1) have s: "meta_inv B d" "live_bucket B d = bk" "live_object B d = ob" by (simp_all add: demo_state_def)
  from s(1) have op: "opened B meta_bolt_buckets d" by (simp add: meta_inv_def)
  from assms(4) s(3) obtain raw x where x: "bget B d BoltBucketObjects (b @ keySeparator # k) = Some raw"
    "unmarshal_object raw = Inr x" "oDeletedAt x = None"
    by (auto simp: live_object_def split: option.splits sum.splits if_splits)
  from put_total[OF op meta_names(3) assms(5)] obtain d' where
    "bput B BoltBucketObjects (b @ keySeparator # k) (Text (object_json (x\<lparr>oDeletedAt := Some now\<rparr>))) d = Inr d'" by blast
  with x assms(2,3) have r: "ObjectRepo_Delete B background now b k d = (Inr (), d')"
    by (simp add: ObjectRepo_Delete_def db_update_healthy object_delete_tx_def)
  from objects.odelete_Inr[OF s(1), of background now b k] meta.odelete_live[OF s(1), of background now b k] r s
  show ?thesis by (auto simp: demo_state_def)
qed

lemma st_bdelete:
  assumes "demo_state B d bk ob" and "bk n = Some b" and "key_ok n"
  shows "ob n \<noteq> Map.empty \<Longrightarrow> BucketRepo_Delete B background now n d = (Inl (Sentinel ErrBucketNotEmpty), d)"
    and "ob n = Map.empty \<Longrightarrow> \<exists>d'. BucketRepo_Delete B background now n d = (Inr (), d') \<and> demo_state B d' (bk(n := None)) ob"
proof -
  from assms(1) have s: "meta_inv B d" "live_bucket B d = bk" "live_object B d = ob" by (simp_all add: demo_state_def)
  have occ: "occupied_bucket B d n \<longleftrightarrow> ob n \<noteq> Map.empty" using s(3) by (auto simp: occupied_bucket_def fun_eq_iff)
  note t = delete_total[OF s(1) _ assms(3), of b now]
  show "BucketRepo_Delete B background now n d = (Inl (Sentinel ErrBucketNotEmpty), d)" if "ob n \<noteq> Map.empty"
    using t s(2) assms(2) occ that by simp
  assume "ob n = Map.empty"
  with t s(2) assms(2) occ obtain d' where r: "BucketRepo_Delete B background now n d = (Inr (), d')" by auto
  from buckets.delete_Inr[OF s(1), of background now n] meta.delete_objs[OF s(1), of background now n] r s
  show "\<exists>d'. BucketRepo_Delete B background now n d = (Inr (), d') \<and> demo_state B d' (bk(n := None)) ob"
    by (auto simp: demo_state_def)
qed

text \<open>One run of the program.\<close>

lemma demo_run:
  assumes "disk_state B d bk ob" and "n \<noteq> 0"
    and "\<And>d1. demo_state B d1 bk ob \<Longrightarrow> \<exists>d2. demo_step B (clock n) n d1 = Some (ls, d2) \<and> demo_state B d2 bk' ob'"
  shows "\<exists>d2. disk_state B d2 bk' ob' \<and> demo_session B clock (n # ns) d = (0, ls) # demo_session B clock ns d2"
proof -
  from st_opens[OF assms(1), of demoDBPath] obtain d1 where d1: "meta_open B demoDBPath None (Inr d) = Inr d1" "demo_state B d1 bk ob" by blast
  from assms(3)[OF d1(2)] obtain d2 where "demo_step B (clock n) n d1 = Some (ls, d2)" "demo_state B d2 bk' ob'" by blast
  with d1 assms(2) show ?thesis by (auto simp: demo_main_def intro: demo_state_disk)
qed

end

section \<open>The records of the demonstration\<close>

type_synonym demo_clock = "int \<Rightarrow> nat \<Rightarrow> time"

definition photos :: "demo_clock \<Rightarrow> bucket" where
  "photos c = (demo_bucket ''b-photos'' ''photos'' ''user-alice'')\<lparr>bCreatedAt := c 1 0\<rparr>"

definition documents :: "demo_clock \<Rightarrow> bucket" where
  "documents c = (demo_bucket ''b-documents'' ''documents'' ''user-bob'')\<lparr>bCreatedAt := c 2 0\<rparr>"

definition photos_again :: "demo_clock \<Rightarrow> bucket" where
  "photos_again c = (demo_bucket ''b-photos-resurrected'' ''photos'' ''user-bob'')\<lparr>bCreatedAt := c 13 0\<rparr>"

definition vacation :: "demo_clock \<Rightarrow> object" where
  "vacation c = (demo_object ''o-vacation'' ''photos'' ''vacation.png'' 204800 ''etag-vacation'' ''image/png'')\<lparr>oCreatedAt := c 4 0\<rparr>"

definition profile :: "demo_clock \<Rightarrow> object" where
  "profile c = (demo_object ''o-profile'' ''photos'' ''profile.jpg'' 51200 ''etag-profile'' ''image/jpeg'')\<lparr>oCreatedAt := c 4 1\<rparr>"

definition readme :: "demo_clock \<Rightarrow> object" where
  "readme c = (demo_object ''o-readme'' ''documents'' ''readme.txt'' 1024 ''etag-readme'' ''text/plain'')\<lparr>oCreatedAt := c 5 0\<rparr>"

lemma stamp_demo_bucket [simp]: "stamp_bucket t (demo_bucket i n w) = (demo_bucket i n w)\<lparr>bCreatedAt := t\<rparr>"
  by (simp add: stamp_bucket_def demo_bucket_def time_is_zero_def)

lemma stamp_demo_object [simp]: "stamp_object t (demo_object i b k sz e ct) = (demo_object i b k sz e ct)\<lparr>oCreatedAt := t\<rparr>"
  by (simp add: stamp_object_def demo_object_def time_is_zero_def)

lemma demo_bucket_sel [simp]:
  "bID (demo_bucket i n w) = i" "bName (demo_bucket i n w) = n" "bOwnerID (demo_bucket i n w) = w"
  "bDeletedAt (demo_bucket i n w) = None" "bCreatedAt (demo_bucket i n w) = 0"
  by (simp_all add: demo_bucket_def)

lemma demo_object_sel [simp]:
  "oID (demo_object i b k sz e ct) = i" "oBucketName (demo_object i b k sz e ct) = b"
  "oObjectKey (demo_object i b k sz e ct) = k" "oSizeBytes (demo_object i b k sz e ct) = sz"
  "oETag (demo_object i b k sz e ct) = e" "oContentType (demo_object i b k sz e ct) = ct"
  "oStorageRef (demo_object i b k sz e ct) = b @ ''/'' @ k" "oVersionID (demo_object i b k sz e ct) = ''null''"
  "oDeletedAt (demo_object i b k sz e ct) = None"
  by (simp_all add: demo_object_def)

lemma demo_records_sel [simp]:
  "bName (photos c) = ''photos''" "bName (documents c) = ''documents''" "bName (photos_again c) = ''photos''"
  "bOwnerID (photos c) = ''user-alice''" "bOwnerID (documents c) = ''user-bob''" "bOwnerID (photos_again c) = ''user-bob''"
  "oObjectKey (vacation c) = ''vacation.png''" "oObjectKey (profile c) = ''profile.jpg''"
  "oSizeBytes (vacation c) = 204800" "oSizeBytes (profile c) = 51200"
  by (simp_all add: photos_def documents_def photos_again_def vacation_def profile_def)

lemma demo_texts [simp]:
  "no_nul ''photos''" "no_nul ''documents''" "no_nul ''user-alice''" "no_nul ''user-bob''"
  "no_nul ''vacation.png''" "no_nul ''profile.jpg''" "no_nul ''readme.txt''"
  by (simp_all add: no_nul_def keySeparator_def)

lemma demo_utf8:
  "utf8_bucket (demo_bucket ''b-photos'' ''photos'' ''user-alice'')" "utf8_bucket (demo_bucket ''b-documents'' ''documents'' ''user-bob'')"
  "utf8_bucket (demo_bucket ''b-photos-resurrected'' ''photos'' ''user-bob'')"
  "utf8_object (vacation c)" "utf8_object (profile c)" "utf8_object (readme c)"
  by (simp_all add: utf8_bucket_def utf8_object_def vacation_def profile_def readme_def valid_utf8_ascii byte_in_def)

section \<open>What the steps print\<close>

definition ok_line :: "string \<Rightarrow> demo_line" where
  "ok_line label = Say [Lit label, Lit '' -> OK'']"

definition error_line :: "string \<Rightarrow> sentinel \<Rightarrow> demo_line" where
  "error_line label s = Say ([Lit label, Lit '' -> ERROR: ''] @ error_text (Sentinel s))"

text \<open>The output the labels announce.\<close>

definition demo_output :: "demo_clock \<Rightarrow> int \<Rightarrow> demo_line list" where
  "demo_output c n =
     (if n = 1 then [say ''--- Step 1: alice creates bucket 'photos' ---'', ok_line ''Create(photos, alice)'']
      else if n = 2 then [say ''--- Step 2: bob creates bucket 'documents' ---'', ok_line ''Create(documents, bob)'']
      else if n = 3 then
        [say ''--- Step 3: bob tries to create 'photos' too (should be rejected) ---'',
         error_line (''Create(photos, bob) '' @ dash @ '' expect ErrAlreadyExists'') ErrAlreadyExists,
         Say [Lit ''Is ErrAlreadyExists: '', Lit ''true'']]
      else if n = 4 then
        [say ''--- Step 4: alice puts two objects into 'photos' ---'', ok_line ''Put(photos/vacation.png)'',
         ok_line ''Put(photos/profile.jpg)'']
      else if n = 5 then
        [say ''--- Step 5: bob puts one object into 'documents' ---'', ok_line ''Put(documents/readme.txt)'']
      else if n = 6 then
        [say ''--- Step 6: Get a single object ---'', ok_line ''Get(photos/vacation.png)'', Show ''  -> '' (vacation c)]
      else if n = 7 then
        [say ''--- Step 7: List all objects in 'photos' ---'', ok_line ''List(photos, prefix=\"\")'',
         Say [Lit ''  -> '', Lit ''profile.jpg'', Lit '' ('', Dec 51200, Lit '' bytes)''],
         Say [Lit ''  -> '', Lit ''vacation.png'', Lit '' ('', Dec 204800, Lit '' bytes)'']]
      else if n = 8 then
        [say ''--- Step 8: ListByOwner for both users ---'', ok_line ''ListByOwner(user-alice)'',
         Say [Lit ''  '', Lit ''alice'', Lit '' owns: '', Lit ''photos''], ok_line ''ListByOwner(user-bob)'',
         Say [Lit ''  '', Lit ''bob'', Lit '' owns: '', Lit ''documents'']]
      else if n = 9 then
        [say ''--- Step 9: Delete one object (soft delete) ---'', ok_line ''Delete(photos/profile.jpg)'',
         say ''  photos now lists:'', Say [Lit ''    -> '', Lit ''vacation.png'']]
      else if n = 10 then
        [say (''--- Step 10: alice tries to delete 'photos' '' @ dash @ '' should fail, vacation.png still live ---''),
         error_line (''Delete(photos) '' @ dash @ '' expect ErrBucketNotEmpty'') ErrBucketNotEmpty,
         Say [Lit ''Is ErrBucketNotEmpty: '', Lit ''true'']]
      else if n = 11 then
        [say ''--- Step 11: delete the last live object, then delete the bucket ---'',
         ok_line ''Delete(photos/vacation.png)'', ok_line (''Delete(photos) '' @ dash @ '' should now succeed'')]
      else if n = 12 then
        [say ''--- Step 12: confirm alice's bucket list is now empty ---'', ok_line ''ListByOwner(user-alice)'',
         Say [Lit ''  alice owns '', Dec 0, Lit '' buckets'']]
      else if n = 13 then
        [say ''--- Step 13: bob resurrects the soft-deleted 'photos' name ---'',
         ok_line ''Create(photos, bob) over soft-deleted name'']
      else
        [say (''--- Step 14: regression check '' @ dash @ '' alice must NOT see bob's resurrected 'photos' ---''),
         ok_line ''ListByOwner(user-alice)'', Say [Lit ''  alice owns '', Dec 0, Lit '' buckets (want 0)''],
         ok_line ''ListByOwner(user-bob)'', Say [Lit ''  '', Lit ''bob'', Lit '' owns: '', Lit ''documents''],
         Say [Lit ''  '', Lit ''bob'', Lit '' owns: '', Lit ''photos'']])"

lemma result_lines [simp]:
  "result_line label (Inr x) = ok_line label" "result_line label (Inl (Sentinel s)) = error_line label s"
  "is_line label s (Inl (Sentinel s)) = Say [Lit label, Lit ''true'']"
  by (simp_all add: result_line_def printResult_def ok_line_def error_line_def is_line_def)

lemma listed_Inr [simp]: "listed (Inr xs) = xs"
  by (simp add: listed_def)

text \<open>The data after the steps that change it.\<close>

definition two_buckets :: "demo_clock \<Rightarrow> string \<Rightarrow> bucket option" where
  "two_buckets c = [''photos'' \<mapsto> photos c, ''documents'' \<mapsto> documents c]"

definition no_objects :: "string \<Rightarrow> string \<Rightarrow> object option" where
  "no_objects = (\<lambda>_. Map.empty)"

definition two_photos :: "demo_clock \<Rightarrow> string \<Rightarrow> string \<Rightarrow> object option" where
  "two_photos c = no_objects(''photos'' := [''vacation.png'' \<mapsto> vacation c, ''profile.jpg'' \<mapsto> profile c])"

definition three_objects :: "demo_clock \<Rightarrow> string \<Rightarrow> string \<Rightarrow> object option" where
  "three_objects c = (two_photos c)(''documents'' := [''readme.txt'' \<mapsto> readme c])"

definition one_photo :: "demo_clock \<Rightarrow> string \<Rightarrow> string \<Rightarrow> object option" where
  "one_photo c = (three_objects c)(''photos'' := [''vacation.png'' \<mapsto> vacation c])"

definition no_photo :: "demo_clock \<Rightarrow> string \<Rightarrow> string \<Rightarrow> object option" where
  "no_photo c = (three_objects c)(''photos'' := Map.empty)"

named_theorems demo_steps \<open>the steps of the demonstration\<close>

lemmas demo_keys = key_ok_def max_key_size_def

definition bob_buckets :: "demo_clock \<Rightarrow> string \<Rightarrow> bucket option" where
  "bob_buckets c = [''documents'' \<mapsto> documents c, ''photos'' \<mapsto> photos_again c]"

text \<open>The data after each step, from the new file on.\<close>

definition demo_data :: "demo_clock \<Rightarrow> int \<Rightarrow> (string \<Rightarrow> bucket option) \<times> (string \<Rightarrow> string \<Rightarrow> object option)" where
  "demo_data c n =
     (if n = 0 then (Map.empty, no_objects)
      else if n = 1 then ([''photos'' \<mapsto> photos c], no_objects)
      else if n \<le> 3 then (two_buckets c, no_objects)
      else if n = 4 then (two_buckets c, two_photos c)
      else if n \<le> 8 then (two_buckets c, three_objects c)
      else if n \<le> 10 then (two_buckets c, one_photo c)
      else if n \<le> 12 then ([''documents'' \<mapsto> documents c], no_photo c)
      else (bob_buckets c, no_photo c))"

text \<open>The buckets an owner has in each of those states, and the order of the names.\<close>

lemma demo_ran:
  "(\<exists>n. two_buckets c n = Some b) \<longleftrightarrow> b = photos c \<or> b = documents c"
  "(\<exists>n. bob_buckets c n = Some b) \<longleftrightarrow> b = documents c \<or> b = photos_again c"
proof -
  have "ran (two_buckets c) = {photos c, documents c}" by (auto simp: two_buckets_def)
  then show "(\<exists>n. two_buckets c n = Some b) \<longleftrightarrow> b = photos c \<or> b = documents c" by (simp add: ran_def set_eq_iff)
  have "ran (bob_buckets c) = {documents c, photos_again c}" by (auto simp: bob_buckets_def)
  then show "(\<exists>n. bob_buckets c n = Some b) \<longleftrightarrow> b = documents c \<or> b = photos_again c" by (simp add: ran_def set_eq_iff)
qed

lemma demo_owned:
  "{b. (\<exists>n. two_buckets c n = Some b) \<and> bOwnerID b = ''user-alice''} = {photos c}"
  "{b. (\<exists>n. two_buckets c n = Some b) \<and> bOwnerID b = ''user-bob''} = {documents c}"
  "{b. (\<exists>n. bob_buckets c n = Some b) \<and> bOwnerID b = ''user-bob''} = {documents c, photos_again c}"
  by (auto simp: demo_ran)

lemma demo_order: "''profile.jpg'' < ''vacation.png''" "''documents'' < ''photos''"
  by (simp_all add: less_char_def)

context bolt_roomy
begin

lemma step_1 [demo_steps]:
  "demo_state B d Map.empty no_objects \<Longrightarrow> \<exists>d'. demo_step B (c 1) 1 d = Some (demo_output c 1, d')
     \<and> demo_state B d' [''photos'' \<mapsto> photos c] no_objects"
  using st_create[of d Map.empty no_objects "demo_bucket ''b-photos'' ''photos'' ''user-alice''" "c 1 0"]
  by (auto simp: demo_step_def demo_output_def demo_utf8 demo_keys photos_def)

lemma step_2 [demo_steps]:
  "demo_state B d [''photos'' \<mapsto> photos c] no_objects \<Longrightarrow> \<exists>d'. demo_step B (c 2) 2 d = Some (demo_output c 2, d')
     \<and> demo_state B d' (two_buckets c) no_objects"
  using st_create[of d "[''photos'' \<mapsto> photos c]" no_objects "demo_bucket ''b-documents'' ''documents'' ''user-bob''" "c 2 0"]
  by (auto simp: demo_step_def demo_output_def demo_utf8 demo_keys documents_def two_buckets_def)

lemma step_3 [demo_steps]:
  "demo_state B d (two_buckets c) no_objects \<Longrightarrow> \<exists>d'. demo_step B (c 3) 3 d = Some (demo_output c 3, d')
     \<and> demo_state B d' (two_buckets c) no_objects"
  using st_create_taken[of d "two_buckets c" no_objects "demo_bucket ''b-photos-2'' ''photos'' ''user-bob''" "c 3 0"]
  by (auto simp: demo_step_def demo_output_def two_buckets_def)

lemma step_4 [demo_steps]:
  assumes "demo_state B d (two_buckets c) no_objects"
  shows "\<exists>d'. demo_step B (c 4) 4 d = Some (demo_output c 4, d') \<and> demo_state B d' (two_buckets c) (two_photos c)"
proof -
  from st_put[OF assms, of "demo_object ''o-vacation'' ''photos'' ''vacation.png'' 204800 ''etag-vacation'' ''image/png''" "c 4 0"]
  obtain y1 d1 where 1: "ObjectRepo_Put B background (c 4 0)
      (demo_object ''o-vacation'' ''photos'' ''vacation.png'' 204800 ''etag-vacation'' ''image/png'') d = (Inr y1, d1)"
    "demo_state B d1 (two_buckets c) (no_objects(''photos'' := [''vacation.png'' \<mapsto> vacation c]))"
    by (auto simp: demo_keys demo_utf8 no_objects_def simp flip: vacation_def)
  from st_put[OF 1(2), of "demo_object ''o-profile'' ''photos'' ''profile.jpg'' 51200 ''etag-profile'' ''image/jpeg''" "c 4 1"]
  obtain y2 d2 where "ObjectRepo_Put B background (c 4 1)
      (demo_object ''o-profile'' ''photos'' ''profile.jpg'' 51200 ''etag-profile'' ''image/jpeg'') d1 = (Inr y2, d2)"
    "demo_state B d2 (two_buckets c) (two_photos c)"
    by (auto simp: demo_keys demo_utf8 two_photos_def simp flip: profile_def simp del: One_nat_def)
  with 1(1) show ?thesis by (simp add: demo_step_def demo_output_def)
qed

lemma step_5 [demo_steps]:
  "demo_state B d (two_buckets c) (two_photos c) \<Longrightarrow> \<exists>d'. demo_step B (c 5) 5 d = Some (demo_output c 5, d')
     \<and> demo_state B d' (two_buckets c) (three_objects c)"
  using st_put[of d "two_buckets c" "two_photos c" "demo_object ''o-readme'' ''documents'' ''readme.txt'' 1024 ''etag-readme'' ''text/plain''" "c 5 0"]
  by (auto simp: demo_step_def demo_output_def demo_keys demo_utf8 three_objects_def two_photos_def no_objects_def
      simp flip: readme_def)

lemma step_6 [demo_steps]:
  "demo_state B d (two_buckets c) (three_objects c) \<Longrightarrow> \<exists>d'. demo_step B (c 6) 6 d = Some (demo_output c 6, d')
     \<and> demo_state B d' (two_buckets c) (three_objects c)"
  using st_get[of d "two_buckets c" "three_objects c" "''photos''" "''vacation.png''" "vacation c"]
  by (auto simp: demo_step_def demo_output_def three_objects_def two_photos_def)

lemma step_7 [demo_steps]:
  "demo_state B d (two_buckets c) (three_objects c) \<Longrightarrow> \<exists>d'. demo_step B (c 7) 7 d = Some (demo_output c 7, d')
     \<and> demo_state B d' (two_buckets c) (three_objects c)"
  using st_list[of d "two_buckets c" "three_objects c" "''photos''" "[''profile.jpg'', ''vacation.png'']"]
  by (auto simp: demo_order demo_step_def demo_output_def three_objects_def two_photos_def)

lemma owned_two:
  assumes "demo_state B d (two_buckets c) ob"
  shows "BucketRepo_ListByOwner B background ''user-alice'' d = Inr [photos c]"
    and "BucketRepo_ListByOwner B background ''user-bob'' d = Inr [documents c]"
  using st_owned[OF assms, of "''user-alice''" "[photos c]"] st_owned[OF assms, of "''user-bob''" "[documents c]"]
  by (simp_all add: demo_owned)

lemma step_8 [demo_steps]:
  "demo_state B d (two_buckets c) (three_objects c) \<Longrightarrow> \<exists>d'. demo_step B (c 8) 8 d = Some (demo_output c 8, d')
     \<and> demo_state B d' (two_buckets c) (three_objects c)"
  by (simp add: demo_step_def demo_output_def owned_lines_def owned_two)

lemma step_9 [demo_steps]:
  assumes "demo_state B d (two_buckets c) (three_objects c)"
  shows "\<exists>d'. demo_step B (c 9) 9 d = Some (demo_output c 9, d') \<and> demo_state B d' (two_buckets c) (one_photo c)"
proof -
  have "three_objects c ''photos'' = [''vacation.png'' \<mapsto> vacation c, ''profile.jpg'' \<mapsto> profile c]"
    by (simp add: three_objects_def two_photos_def)
  with st_odelete[OF assms, of "''photos''" "''profile.jpg''" "c 9 0"] obtain d' where
    1: "ObjectRepo_Delete B background (c 9 0) ''photos'' ''profile.jpg'' d = (Inr (), d')"
      "demo_state B d' (two_buckets c) (one_photo c)"
    by (auto simp: demo_keys one_photo_def)
  have "one_photo c ''photos'' = [''vacation.png'' \<mapsto> vacation c]" by (simp add: one_photo_def)
  with st_list[OF 1(2), of "''photos''" "[''vacation.png'']"]
  have "ObjectRepo_List B background ''photos'' [] 100 d' = Inr [vacation c]" by simp
  with 1 show ?thesis by (simp add: demo_step_def demo_output_def)
qed

lemma step_10 [demo_steps]:
  assumes "demo_state B d (two_buckets c) (one_photo c)"
  shows "\<exists>d'. demo_step B (c 10) 10 d = Some (demo_output c 10, d') \<and> demo_state B d' (two_buckets c) (one_photo c)"
proof -
  have "one_photo c ''photos'' \<noteq> Map.empty" by (simp add: one_photo_def)
  from st_bdelete(1)[OF assms _ _ this, of "photos c" "c 10 0"]
  have "BucketRepo_Delete B background (c 10 0) ''photos'' d = (Inl (Sentinel ErrBucketNotEmpty), d)"
    by (simp add: two_buckets_def demo_keys)
  with assms show ?thesis by (simp add: demo_step_def demo_output_def)
qed

lemma step_11 [demo_steps]:
  assumes "demo_state B d (two_buckets c) (one_photo c)"
  shows "\<exists>d'. demo_step B (c 11) 11 d = Some (demo_output c 11, d')
    \<and> demo_state B d' [''documents'' \<mapsto> documents c] (no_photo c)"
proof -
  have "one_photo c ''photos'' = [''vacation.png'' \<mapsto> vacation c]" by (simp add: one_photo_def)
  with st_odelete[OF assms, of "''photos''" "''vacation.png''" "c 11 0"] obtain d1 where
    1: "ObjectRepo_Delete B background (c 11 0) ''photos'' ''vacation.png'' d = (Inr (), d1)"
      "demo_state B d1 (two_buckets c) (no_photo c)"
    by (auto simp: demo_keys one_photo_def no_photo_def)
  have "no_photo c ''photos'' = Map.empty" by (simp add: no_photo_def)
  from st_bdelete(2)[OF 1(2) _ _ this, of "photos c" "c 11 1"] obtain d2 where
    2: "BucketRepo_Delete B background (c 11 1) ''photos'' d1 = (Inr (), d2)"
      "demo_state B d2 ((two_buckets c)(''photos'' := None)) (no_photo c)"
    by (auto simp: two_buckets_def demo_keys)
  have "(two_buckets c)(''photos'' := None) = [''documents'' \<mapsto> documents c]" by (auto simp: two_buckets_def)
  with 1(1) 2 show ?thesis by (simp add: demo_step_def demo_output_def)
qed

lemma owned_none:
  assumes "demo_state B d bk ob" and "\<And>n b. bk n = Some b \<Longrightarrow> bOwnerID b = ''user-bob''"
  shows "BucketRepo_ListByOwner B background ''user-alice'' d = Inr []"
proof -
  have "set [] = {b. \<exists>n. bk n = Some b \<and> bOwnerID b = ''user-alice''}" using assms(2) by fastforce
  from st_owned[OF assms(1) _ _ this] show ?thesis by simp
qed

lemma step_12 [demo_steps]:
  assumes "demo_state B d [''documents'' \<mapsto> documents c] ob"
  shows "\<exists>d'. demo_step B (c 12) 12 d = Some (demo_output c 12, d') \<and> demo_state B d' [''documents'' \<mapsto> documents c] ob"
proof -
  have "BucketRepo_ListByOwner B background ''user-alice'' d = Inr []"
    by (rule owned_none[OF assms]) (auto split: if_splits)
  with assms show ?thesis by (simp add: demo_step_def demo_output_def)
qed

lemma step_13 [demo_steps]:
  "demo_state B d [''documents'' \<mapsto> documents c] ob \<Longrightarrow> \<exists>d'. demo_step B (c 13) 13 d = Some (demo_output c 13, d')
     \<and> demo_state B d' (bob_buckets c) ob"
  using st_create[of d "[''documents'' \<mapsto> documents c]" ob "demo_bucket ''b-photos-resurrected'' ''photos'' ''user-bob''" "c 13 0"]
  by (auto simp: demo_step_def demo_output_def demo_utf8 demo_keys photos_again_def bob_buckets_def)

lemma step_14 [demo_steps]:
  assumes "demo_state B d (bob_buckets c) ob"
  shows "\<exists>d'. demo_step B (c 14) 14 d = Some (demo_output c 14, d') \<and> demo_state B d' (bob_buckets c) ob"
proof -
  have "BucketRepo_ListByOwner B background ''user-alice'' d = Inr []"
    by (rule owned_none[OF assms]) (auto simp: bob_buckets_def split: if_splits)
  moreover have "BucketRepo_ListByOwner B background ''user-bob'' d = Inr [documents c, photos_again c]"
    using st_owned[OF assms, of "''user-bob''" "[documents c, photos_again c]"] by (simp add: demo_owned demo_order)
  ultimately show ?thesis using assms by (simp add: demo_step_def demo_output_def owned_lines_def)
qed

text \<open>The whole demonstration, step by step.\<close>

lemma demo_cons:
  assumes "disk_state B d bk ob" and "n \<noteq> 0"
    and "\<And>d1. demo_state B d1 bk ob \<Longrightarrow> \<exists>d2. demo_step B (c n) n d1 = Some (ls, d2) \<and> demo_state B d2 bk' ob'"
    and "\<And>d2. disk_state B d2 bk' ob' \<Longrightarrow> demo_session B c ns d2 = rest"
  shows "demo_session B c (n # ns) d = (0, ls) # rest"
proof -
  from demo_run[where clock = c and n = n and ls = ls, OF assms(1,2) assms(3)] obtain d2 where
    "disk_state B d2 bk' ob'" "demo_session B c (n # ns) d = (0, ls) # demo_session B c ns d2" by blast
  with assms(4) show ?thesis by simp
qed

lemma demo_data_step:
  assumes "demo_state B d (fst (demo_data c (n - 1))) (snd (demo_data c (n - 1)))" and "n \<in> {1..14}"
  shows "\<exists>d'. demo_step B (c n) n d = Some (demo_output c n, d') \<and> demo_state B d' (fst (demo_data c n)) (snd (demo_data c n))"
proof -
  from assms(2) have "n \<in> set [1..14]" by simp
  then show ?thesis using assms(1) by (simp add: upto_rec1, elim disjE) (simp_all add: demo_data_def demo_steps)
qed

lemma demo_from:
  assumes "disk_state B d (fst (demo_data c (n - 1))) (snd (demo_data c (n - 1)))" and "1 \<le> n"
  shows "demo_session B c [n..14] d = map (\<lambda>n. (0, demo_output c n)) [n..14]"
  using assms
proof (induction "nat (15 - n)" arbitrary: n d)
  case 0
  then show ?case by simp
next
  case (Suc m)
  then have n: "[n..14] = n # [n + 1..14]" "n \<noteq> 0" "n \<in> {1..14}" by (auto simp: upto_rec1)
  have rest: "demo_session B c [n + 1..14] d2 = map (\<lambda>n. (0, demo_output c n)) [n + 1..14]"
    if "disk_state B d2 (fst (demo_data c n)) (snd (demo_data c n))" for d2
    using that Suc.hyps(2) Suc.prems(2) by (intro Suc.hyps(1)) simp_all
  show ?case unfolding n(1) list.map
    by (rule demo_cons[where c = c and n = n and ls = "demo_output c n", OF Suc.prems(1) n(2) demo_data_step[where c = c, OF _ n(3)] rest])
qed

end

section \<open>The demonstration\<close>

theorem demo_prints_what_it_says:
  assumes "bolt_roomy B" and "empty_db B d"
  shows "demo_session B c [1..14] d = map (\<lambda>n. (0, demo_output c n)) [1..14]"
proof -
  have "live_bucket B d = Map.empty" "live_object B d = no_objects"
    using assms(2) by (auto simp: fun_eq_iff live_bucket_def live_object_def empty_db_def no_objects_def)
  then have "disk_state B d (fst (demo_data c (1 - 1))) (snd (demo_data c (1 - 1)))"
    using assms(2) by (simp add: disk_state_def demo_data_def)
  then show ?thesis by (rule bolt_roomy.demo_from[OF assms(1)]) simp
qed

theorem demo_prints_what_it_says_witness:
  "demo_session mem_bolt (\<lambda>n i. 1000 * n + int i) [1..14] []
    = map (\<lambda>n. (0, demo_output (\<lambda>n i. 1000 * n + int i) n)) [1..14]"
  by (rule demo_prints_what_it_says[OF mem_roomy.bolt_roomy_axioms]) (simp add: empty_db_def mem_get_def)

end
