(* ===== verification/Spec2Isabelle.thy ===== *)
theory Spec2Isabelle
  imports Meta_Properties Data_Properties Sig_Properties Api_Properties Access_Properties Process_Properties
    Meta_Demo
begin

text \<open>
  ms3 is an object store with the interface of S3 in four HTTP services written in Go.

  \<^item> api-service is what clients talk to.  It checks the signature of a request, asks metadata-service who
    owns the bucket, streams contents to and from data-service and keeps the records of objects in
    metadata-service.  It has no state of its own.
  \<^item> metadata-service keeps buckets and object records in an embedded bbolt database: \<open>api\<close> (HTTP) over
    \<open>service\<close> (validation) over \<open>repository\<close> (one bbolt transaction per operation) over \<open>store\<close>.
  \<^item> data-service keeps the contents as files named by their SHA-256.
  \<^item> auth-service keeps users and their access keys in another bbolt database, in the same layers, and
    answers logins with tokens and the internal lookup of a secret key by api-service.

  Every operation of these services that changes state is a definition of this development, named after
  the function of the code, with one branch for each return of the code.  The properties of the program
  are the numbered theorems of the \<open>_Properties\<close> theories.
\<close>

section \<open>The theories\<close>

text \<open>
  \<^bold>\<open>The Go library.\<close>  \<open>Go_Prelude\<close> (byte strings, errors with wrapping, contexts, time, UTF-8 coercion,
  regular expressions of the name checks, shared lemmas), \<open>Go_Json\<close> (documents as trees and decoding by
  struct tags), \<open>Go_Http\<close> (statuses and responses), \<open>Go_Os\<close> (a file system whose calls can fail),
  \<open>Go_Crypto\<close> (SHA-256, HMAC, hexadecimal), \<open>Go_Strings\<close>, \<open>Go_Url\<close>, \<open>Go_Base64\<close>, \<open>Go_Aes\<close> (AES and GCM),
  \<open>Go_Net\<close> (an HTTP call over a network that loses requests and replies).  They are defined as far as the
  services use them, and computable.

  \<^bold>\<open>Third-party code.\<close>  It is a parameter, with its documented behaviour as a locale and a concrete
  function for the witnesses: bbolt (\<open>Bolt_Store\<close>: \<open>bolt_store\<close>, \<open>bolt_healthy\<close>; \<open>bolt_roomy\<close> in
  \<open>Meta_Total\<close>; the in-memory store \<open>mem_bolt\<close>), the router chi (\<open>Chi_Router\<close>: \<open>chi_router\<close>,
  \<open>first_route\<close>), golang-jwt and bcrypt (\<open>Auth_Jwt\<close>: \<open>jwt_laws\<close>, \<open>bcrypt_laws\<close>; \<open>Auth_Packages\<close>).  Fresh
  identifiers, random bytes, clocks and the failing of system calls come in through the environment of
  a request, so the theorems hold whatever they are.

  \<^bold>\<open>metadata-service\<close> (\<open>src/metadata-service\<close>).  \<open>Db_Schema\<close> and \<open>Meta_Model\<close> have \<open>internal/store\<close>,
  \<open>internal/model\<close> and the composite keys: a database \<open>'d\<close> holds the buckets of bbolt \<open>BoltBucketRecords\<close>,
  \<open>BoltBucketOwnerIdx\<close>, \<open>BoltBucketObjects\<close> and \<open>BoltBucketMeta\<close>.  \<open>Meta_Interfaces\<close> has the repository
  interfaces as records with their contracts as locales, \<open>Meta_Bucket_Repo\<close> and \<open>Meta_Object_Repo\<close> the
  repositories on bbolt and the proof that they keep the contracts, \<open>Meta_Service\<close> the services over the
  interfaces, \<open>Meta_Api\<close> the handlers, \<open>Meta_Total\<close> when operations succeed, \<open>Meta_Sample\<close> a sample run,
  \<open>Meta_Demo\<close> the program \<open>cmd/demo\<close>.  \<open>Meta_Spec\<close> is the abstract specification: live buckets by name and
  live objects by bucket and key, and a step relation that every request refines.

  \<^bold>\<open>data-service\<close> (\<open>src/data-service\<close>).  \<open>Data_Store\<close> has \<open>internal/storage\<close> and \<open>internal/backend/localfs\<close>,
  \<open>Data_Api\<close> the handlers and the reachable states.

  \<^bold>\<open>api-service\<close> (\<open>src/api-service\<close>).  \<open>SigV4\<close> has \<open>internal/sigv4\<close>, \<open>Api_Clients\<close> the clients,
  \<open>Api_Handlers\<close> the handlers, \<open>Api_System\<close> the services behind the clients as one state.
  \<open>Api_Contract\<close> says what the handlers rely on, \<open>Api_Compose\<close> and \<open>Api_Deployment\<close> that metadata-service and
  data-service over the network provide it, \<open>Api_Runs\<close> that the states of the system are states of its
  services, \<open>Api_Total\<close> when an upload succeeds, \<open>Api_Keys\<close> what keys become in URLs, \<open>Api_Messages\<close>
  that what a client call returns is what the service holds.

  \<^bold>\<open>auth-service\<close> (\<open>src/auth-service\<close>).  \<open>Auth_Model\<close> has the records, keys and interfaces with their
  contracts, \<open>Auth_Repo\<close> and \<open>Auth_Contract\<close> the repositories, \<open>Auth_Jwt\<close> and \<open>Auth_Service\<close> the services,
  \<open>Auth_Laws\<close> what they do over the contracts, \<open>Auth_Api\<close> the handlers and the middleware, \<open>Auth_Runs\<close> and
  \<open>Auth_Total\<close> the runs of the service, \<open>Auth_Compose\<close> and \<open>Auth_Access\<close> the service behind the signature
  check of api-service.

  \<^bold>\<open>Processes.\<close>  \<open>Service_Config\<close> has \<open>internal/config\<close> of each service and what \<open>main\<close> builds from it,
  \<open>Service_Process\<close> the life of a process (\<open>cmd/server/main.go\<close>) and of metadata-service over restarts.
\<close>

section \<open>What is shown\<close>

text \<open>
  \<^item> \<open>Meta_Properties\<close>: every reachable database is consistent (readable records, an index that mirrors
    the live buckets, objects under their own keys); requests refine the specification, errors change
    nothing; the outcome of each operation on every branch; listings are exact; records survive their
    encoding; opening checks the schema.  PutObject uses two transactions: a DeleteBucket in between
    leaves an object without a bucket, which the owner of the next bucket of that name reads.
  \<^item> \<open>Data_Properties\<close>: blobs are always stored under their hash, also when system calls fail; what was
    uploaded is downloaded; where paths lie; what a bucket named \<open>tmp\<close> does to uploads.
  \<^item> \<open>Sig_Properties\<close>: the canonical forms lose nothing, so a signature binds method, path, query and
    signed headers, unless the two messages at hand collide under the signing key; requests are accepted within 15 minutes of
    their date on either side.
  \<^item> \<open>Api_Properties\<close>: the system stays consistent over a network with faults, only the owner acts on a
    bucket, an upload without faults succeeds and is downloaded unchanged; and three ways in which the
    code loses or mistakes objects.
  \<^item> \<open>Auth_Properties\<close> and \<open>Access_Properties\<close>: the database of users and credentials is consistent,
    requests act only for their user, a secret is shown only at its issue and to the internal token,
    tokens are checked, registered users log in, secrets survive encryption (a seal is not bound to its
    record), and keys work from their issue until they are revoked, through the signature check of
    api-service.
  \<^item> \<open>Process_Properties\<close>: what the clients of api-service return is field by field what the services
    hold, with the values that were sent, and metadata-service stays consistent over requests, shutdowns, kills and restarts.
  \<^item> \<open>Meta_Demo\<close>: the fourteen steps of the demonstration print what their labels announce.
\<close>

section \<open>Bounds\<close>

text \<open>
  No definition runs on fuel.  Loops over listings and over the pairs of a query recurse on their list.
  The loop that looks for a free access key (\<open>issue_loop\<close>) has at most five attempts in the code and a
  measure; the deletion of empty directories recurses on the path.  Sizes are words of 64 bits, read as
  signed numbers, times are integers in nanoseconds.  A shutdown waits for ten seconds
  (\<open>shutdownTimeout\<close>).
\<close>

section \<open>Not modelled\<close>

text \<open>
  \<^item> Logging, request identifiers and the content of log lines: they are not read by the program.
  \<^item> The time limits of servers and clients; a call that takes too long is a lost request or reply.
  \<^item> The text of JSON and the limits on the length of its bodies: a body is the document the parser
    reads, or none.
  \<^item> The inside of bbolt, chi, golang-jwt, bcrypt and of the HTTP server: parameters and their laws.  What
    the router does with empty parameters or ambiguous paths is left open by its law.
  \<^item> Concurrency inside one transaction: bbolt serialises writers, so requests interleave at the borders
    of transactions.  \<open>conc_step\<close> splits PutObject so; other handlers that use more than one transaction
    (the owner of a credential and its revocation, for instance) and uploads to data-service run as one step.
  \<^item> A read error of data-service in the middle of a download; a connection that breaks is a fault of
    the network.  Errors of \<open>json.Marshal\<close> that no record of the program can cause.
  \<^item> Signals other than the two \<open>waitForShutdown\<close> listens to; a kill ends a process at any state.
\<close>

end
